(* ===== verification/Prelude.thy ===== *)
theory Prelude
  imports Main
begin

text \<open>
  What every component theory shares: Rust's \<open>Result\<close> with panics as a third outcome, the
  \<open>usize\<close> subtraction of a release build, hash maps as association lists with distinct keys
  behind an interface locale, vectors used as bounded queues, and the reachability argument of
  a transition system.
\<close>

section \<open>Collections of facts\<close>

named_theorems rust_simps "evaluation of the Rust results and containers"
named_theorems str_simps "evaluation of the string primitives"

section \<open>Results with panics\<close>

text \<open>
  A Rust computation returns \<open>Ok\<close> or \<open>Err\<close>, or it panics (an out-of-range or non-boundary
  string slice). A panic is a value of the model, so that it can be proved absent or present.
\<close>

datatype ('e, 'a) rres = Ok 'a | Err 'e | Panic

fun rbind :: "('e, 'a) rres \<Rightarrow> ('a \<Rightarrow> ('e, 'b) rres) \<Rightarrow> ('e, 'b) rres" where
  "rbind (Ok x) f = f x"
| "rbind (Err e) f = Err e"
| "rbind Panic f = Panic"

fun rmap_err :: "('e \<Rightarrow> 'f) \<Rightarrow> ('e, 'a) rres \<Rightarrow> ('f, 'a) rres" where
  "rmap_err g (Ok x) = Ok x"
| "rmap_err g (Err e) = Err (g e)"
| "rmap_err g Panic = Panic"

fun rmap :: "('a \<Rightarrow> 'b) \<Rightarrow> ('e, 'a) rres \<Rightarrow> ('e, 'b) rres" where
  "rmap f (Ok x) = Ok (f x)"
| "rmap f (Err e) = Err e"
| "rmap f Panic = Panic"

text \<open>\<open>Option::ok_or\<close>, and an operation that panics where its model returns \<open>None\<close>.\<close>

definition ok_or :: "'e \<Rightarrow> 'a option \<Rightarrow> ('e, 'a) rres" where
  "ok_or e x = (case x of Some y \<Rightarrow> Ok y | None \<Rightarrow> Err e)"

definition or_panic :: "'a option \<Rightarrow> ('e, 'a) rres" where
  "or_panic x = (case x of Some y \<Rightarrow> Ok y | None \<Rightarrow> Panic)"

lemma ok_or_simps [simp, rust_simps]:
  "ok_or e (Some x) = Ok x" "ok_or e None = Err e"
  by (simp_all add: ok_or_def)

lemma or_panic_simps [simp, rust_simps]:
  "or_panic (Some x) = Ok x" "or_panic None = Panic"
  by (simp_all add: or_panic_def)

lemma rbind_eq_Ok_iff:
  "rbind m f = Ok y \<longleftrightarrow> (\<exists>x. m = Ok x \<and> f x = Ok y)"
  by (cases m) auto

lemma rbind_eq_Panic_iff:
  "rbind m f = Panic \<longleftrightarrow> m = Panic \<or> (\<exists>x. m = Ok x \<and> f x = Panic)"
  by (cases m) auto

lemma rbind_eq_Err_iff:
  "rbind m f = Err e \<longleftrightarrow> m = Err e \<or> (\<exists>x. m = Ok x \<and> f x = Err e)"
  by (cases m) auto

lemma rmap_err_eq_Ok_iff [simp]: "rmap_err g m = Ok y \<longleftrightarrow> m = Ok y"
  by (cases m) auto

lemma rmap_err_eq_Panic_iff [simp]: "rmap_err g m = Panic \<longleftrightarrow> m = Panic"
  by (cases m) auto

lemma rmap_err_eq_Err_iff: "rmap_err g m = Err e \<longleftrightarrow> (\<exists>e'. m = Err e' \<and> e = g e')"
  by (cases m) auto

lemma rmap_eq_Ok_iff: "rmap f m = Ok y \<longleftrightarrow> (\<exists>x. m = Ok x \<and> y = f x)"
  by (cases m) auto

lemma rmap_eq_Err_iff [simp]: "rmap f m = Err e \<longleftrightarrow> m = Err e"
  by (cases m) auto

lemma rmap_eq_Panic_iff [simp]: "rmap f m = Panic \<longleftrightarrow> m = Panic"
  by (cases m) auto

lemma ok_or_eq_Ok_iff: "ok_or e x = Ok y \<longleftrightarrow> x = Some y"
  by (cases x) auto

lemma ok_or_eq_Err_iff: "ok_or e x = Err e' \<longleftrightarrow> x = None \<and> e = e'"
  by (cases x) auto

lemma ok_or_not_Panic [simp]: "ok_or e x \<noteq> Panic"
  by (cases x) auto

lemma or_panic_eq_Ok_iff: "or_panic x = Ok y \<longleftrightarrow> x = Some y"
  by (cases x) auto

lemmas rres_iffs = rbind_eq_Ok_iff rbind_eq_Panic_iff rbind_eq_Err_iff
  rmap_err_eq_Err_iff rmap_eq_Ok_iff ok_or_eq_Ok_iff ok_or_eq_Err_iff or_panic_eq_Ok_iff

section \<open>Machine integers\<close>

text \<open>
  Sizes are \<open>usize\<close>, 64 bits wide on the supported targets; a release build wraps.
\<close>

definition usize_sub :: "nat \<Rightarrow> nat \<Rightarrow> nat" where
  "usize_sub a b = (if b \<le> a then a - b else 2 ^ 64 + a - b)"

lemma usize_sub_ge [simp]: "b \<le> a \<Longrightarrow> usize_sub a b = a - b"
  by (simp add: usize_sub_def)

section \<open>Hash maps\<close>

text \<open>
  A \<open>HashMap\<close> is an association list with distinct keys: its order stands for the
  unspecified iteration order. What the clients rely on is the interface \<open>rust_map\<close>.
\<close>

type_synonym ('k, 'v) hmap = "('k \<times> 'v) list"

definition hm_get :: "('k, 'v) hmap \<Rightarrow> 'k \<Rightarrow> 'v option" where
  "hm_get m k = map_of m k"

fun hm_insert :: "'k \<Rightarrow> 'v \<Rightarrow> ('k, 'v) hmap \<Rightarrow> ('k, 'v) hmap" where
  "hm_insert k v [] = [(k, v)]"
| "hm_insert k v ((k', v') # m) = (if k = k' then (k, v) # m else (k', v') # hm_insert k v m)"

definition hm_remove :: "'k \<Rightarrow> ('k, 'v) hmap \<Rightarrow> ('k, 'v) hmap" where
  "hm_remove k m = filter (\<lambda>(k', _). k' \<noteq> k) m"

definition hm_retain :: "('k \<Rightarrow> 'v \<Rightarrow> bool) \<Rightarrow> ('k, 'v) hmap \<Rightarrow> ('k, 'v) hmap" where
  "hm_retain P m = filter (\<lambda>(k, v). P k v) m"

definition hm_wf :: "('k, 'v) hmap \<Rightarrow> bool" where
  "hm_wf m \<longleftrightarrow> distinct (map fst m)"

text \<open>\<open>collect()\<close> of key/value pairs into a map: later pairs overwrite earlier ones.\<close>

definition hm_from_list :: "('k \<times> 'v) list \<Rightarrow> ('k, 'v) hmap" where
  "hm_from_list ps = fold (\<lambda>(k, v). hm_insert k v) ps []"

locale rust_map =
  fixes get :: "'m \<Rightarrow> 'k \<Rightarrow> 'v option"
    and insert :: "'k \<Rightarrow> 'v \<Rightarrow> 'm \<Rightarrow> 'm"
    and remove :: "'k \<Rightarrow> 'm \<Rightarrow> 'm"
    and retain :: "('k \<Rightarrow> 'v \<Rightarrow> bool) \<Rightarrow> 'm \<Rightarrow> 'm"
    and size_of :: "'m \<Rightarrow> nat"
    and wf :: "'m \<Rightarrow> bool"
  assumes get_insert: "get (insert k v m) k' = (if k' = k then Some v else get m k')"
    and get_remove: "get (remove k m) k' = (if k' = k then None else get m k')"
    and get_retain: "wf m \<Longrightarrow> get (retain P m) k =
      (case get m k of Some v \<Rightarrow> if P k v then Some v else None | None \<Rightarrow> None)"
    and size_insert: "size_of (insert k v m) =
      (if get m k = None then Suc (size_of m) else size_of m)"
    and size_remove: "size_of (remove k m) \<le> size_of m"
    and size_remove_present: "wf m \<Longrightarrow> get m k \<noteq> None \<Longrightarrow> Suc (size_of (remove k m)) = size_of m"
    and size_retain: "size_of (retain P m) \<le> size_of m"
    and wf_insert: "wf m \<Longrightarrow> wf (insert k v m)"
    and wf_remove: "wf m \<Longrightarrow> wf (remove k m)"
    and wf_retain: "wf m \<Longrightarrow> wf (retain P m)"
begin

lemma get_insert_same: "get (insert k v m) k = Some v"
  by (simp add: get_insert)

lemma get_remove_same: "get (remove k m) k = None"
  by (simp add: get_remove)

lemma get_retain_Some_iff:
  "wf m \<Longrightarrow> get (retain P m) k = Some v \<longleftrightarrow> get m k = Some v \<and> P k v"
  by (auto simp: get_retain split: option.splits)

text \<open>Making room for a new key keeps a bounded map bounded: the eviction argument.\<close>

lemma insert_after_eviction_bounded:
  assumes "wf m" and "get m old \<noteq> None" and "size_of m \<le> n"
  shows "size_of (insert k v (remove old m)) \<le> n"
  using size_remove_present [OF assms(1,2)] assms(3) by (auto simp: size_insert)

end

subsection \<open>The association lists provide the interface\<close>

lemma hm_get_Nil [simp, rust_simps]: "hm_get [] k = None"
  by (simp add: hm_get_def)

lemma hm_get_Cons [rust_simps]: "hm_get ((k', v) # m) k = (if k = k' then Some v else hm_get m k)"
  by (simp add: hm_get_def)

lemma hm_get_eq_None_iff: "hm_get m k = None \<longleftrightarrow> k \<notin> fst ` set m"
  by (simp add: hm_get_def map_of_eq_None_iff)

lemma hm_get_in_set: "hm_get m k = Some v \<Longrightarrow> (k, v) \<in> set m"
  by (simp add: hm_get_def map_of_SomeD)

lemma hm_get_iff_in_set: "hm_wf m \<Longrightarrow> hm_get m k = Some v \<longleftrightarrow> (k, v) \<in> set m"
  by (simp add: hm_get_def hm_wf_def)

lemma fst_set_hm_insert [simp]: "fst ` set (hm_insert k v m) = insert k (fst ` set m)"
  by (induction k v m rule: hm_insert.induct) auto

lemma fst_set_hm_remove: "fst ` set (hm_remove k m) = fst ` set m - {k}"
  by (force simp: hm_remove_def)

lemma map_fst_hm_remove: "map fst (hm_remove k m) = filter (\<lambda>k'. k' \<noteq> k) (map fst m)"
  by (induction m) (auto simp: hm_remove_def)

lemma hm_get_filter:
  "distinct (map fst m) \<Longrightarrow> hm_get (filter (\<lambda>(k, v). P k v) m) k =
     (case hm_get m k of Some v \<Rightarrow> if P k v then Some v else None | None \<Rightarrow> None)"
  by (induction m) (force simp: hm_get_def split: option.splits)+

lemma distinct_map_fst_filter: "distinct (map fst m) \<Longrightarrow> distinct (map fst (filter P m))"
  by (simp add: distinct_map_filter)

lemma hm_get_insert: "hm_get (hm_insert k v m) k' = (if k' = k then Some v else hm_get m k')"
  by (induction k v m rule: hm_insert.induct) (auto simp: hm_get_def)

lemma hm_get_remove: "hm_get (hm_remove k m) k' = (if k' = k then None else hm_get m k')"
  by (induction m) (auto simp: hm_get_def hm_remove_def)

lemma length_hm_insert:
  "length (hm_insert k v m) = (if hm_get m k = None then Suc (length m) else length m)"
  by (induction k v m rule: hm_insert.induct) (auto simp: hm_get_def)

lemma length_hm_remove_present:
  "distinct (map fst m) \<Longrightarrow> hm_get m k \<noteq> None \<Longrightarrow> Suc (length (hm_remove k m)) = length m"
proof (induction m)
  case Nil
  then show ?case by simp
next
  case (Cons p m)
  obtain k' v' where p: "p = (k', v')" by (cases p)
  show ?case
  proof (cases "k' = k")
    case True
    with Cons.prems p have "filter (\<lambda>(k', _). k' \<noteq> k) m = m"
      by (force simp: filter_id_conv)
    with True p show ?thesis by (simp add: hm_remove_def)
  next
    case False
    with Cons p show ?thesis by (simp add: hm_remove_def hm_get_def)
  qed
qed

lemma hm_wf_insert: "hm_wf m \<Longrightarrow> hm_wf (hm_insert k v m)"
  unfolding hm_wf_def
proof (induction k v m rule: hm_insert.induct)
  case (2 k v k' v' m)
  moreover have "k' \<notin> fst ` set (hm_insert k v m)" if "k \<noteq> k'"
    using 2 that by simp
  ultimately show ?case by simp
qed simp

interpretation hm: rust_map hm_get hm_insert hm_remove hm_retain length hm_wf
proof (unfold_locales, goal_cases)
  case (1 k v m k')
  show ?case by (rule hm_get_insert)
next
  case (2 k m k')
  show ?case by (rule hm_get_remove)
next
  case (3 m P k)
  then show ?case by (simp add: hm_retain_def hm_wf_def hm_get_filter)
next
  case (4 k v m)
  show ?case by (rule length_hm_insert)
next
  case (5 k m)
  show ?case by (simp add: hm_remove_def)
next
  case (6 m k)
  then show ?case by (simp add: hm_wf_def length_hm_remove_present)
next
  case (7 P m)
  show ?case by (simp add: hm_retain_def)
next
  case (8 m k v)
  then show ?case by (rule hm_wf_insert)
next
  case (9 m k)
  then show ?case by (simp add: hm_wf_def hm_remove_def distinct_map_fst_filter)
next
  case (10 m P)
  then show ?case by (simp add: hm_wf_def hm_retain_def distinct_map_fst_filter)
qed

lemma hm_wf_Nil [simp]: "hm_wf []"
  by (simp add: hm_wf_def)

lemma hm_wf_fold_insert: "hm_wf m \<Longrightarrow> hm_wf (fold (\<lambda>(k, v). hm_insert k v) ps m)"
  by (induction ps arbitrary: m) (auto simp: hm_wf_insert)

lemma hm_wf_from_list [simp]: "hm_wf (hm_from_list ps)"
  by (simp add: hm_from_list_def hm_wf_fold_insert)

lemma hm_get_fold_insert:
  "hm_get (fold (\<lambda>(k, v). hm_insert k v) ps m) k =
     (case map_of (rev ps) k of Some v \<Rightarrow> Some v | None \<Rightarrow> hm_get m k)"
  by (induction ps arbitrary: m) (auto simp: hm_get_insert map_add_def split: option.splits)

lemma hm_get_from_list: "hm_get (hm_from_list ps) k = map_of (rev ps) k"
  by (simp add: hm_from_list_def hm_get_fold_insert split: option.splits)

section \<open>Bounded queues\<close>

text \<open>The last \<open>n\<close> elements of a list: what a ring buffer of capacity \<open>n\<close> retains.\<close>

definition last_n :: "nat \<Rightarrow> 'a list \<Rightarrow> 'a list" where
  "last_n n xs = drop (length xs - n) xs"

lemma length_last_n [simp]: "length (last_n n xs) = min n (length xs)"
  by (simp add: last_n_def)

lemma last_n_all: "length xs \<le> n \<Longrightarrow> last_n n xs = xs"
  by (simp add: last_n_def)

lemma last_n_snoc:
  "0 < n \<Longrightarrow> last_n n (xs @ [x]) = (if length (last_n n xs) = n then tl (last_n n xs) else last_n n xs) @ [x]"
  by (cases "n \<le> length xs") (auto simp: last_n_def drop_Suc tl_drop Suc_diff_le min_def)

lemma last_n_last_n: "m \<le> n \<Longrightarrow> last_n m (last_n n xs) = last_n m xs"
  by (cases "length xs \<le> n") (auto simp: last_n_def min_def)

section \<open>Reachable states of a transition system\<close>

locale transition_system =
  fixes start :: "'s \<Rightarrow> bool" and step :: "'s \<Rightarrow> 's \<Rightarrow> bool" and invariant :: "'s \<Rightarrow> bool"
  assumes start_invariant: "start s \<Longrightarrow> invariant s"
    and step_invariant: "invariant s \<Longrightarrow> step s t \<Longrightarrow> invariant t"
begin

lemma reachable_invariant:
  assumes "start s" and "step\<^sup>*\<^sup>* s t"
  shows "invariant t"
  using assms(2)
  by (induction rule: rtranclp_induct) (auto intro: start_invariant [OF assms(1)] step_invariant)

end

end
