(* ===== verification/Rust_Str.thy ===== *)
theory Rust_Str
  imports Prelude
begin

text \<open>
  Rust's \<open>str\<close>: a list of bytes (the \<open>char\<close> of HOL is one byte) that holds UTF-8. Lengths and
  offsets count bytes, as \<open>str::len\<close> and slicing do; a slice whose end is not a character
  boundary panics, which the model shows as \<open>None\<close>. Characters are the chunks of bytes
  between two boundaries. Every operation the sources use is here, on bytes, with the byte
  tests of the standard library.
\<close>

section \<open>Bytes and character boundaries\<close>

text \<open>A continuation byte is \<open>10xxxxxx\<close>; an ASCII byte has its top bit clear.\<close>

definition is_cont :: "char \<Rightarrow> bool" where
  "is_cont c \<longleftrightarrow> digit7 c \<and> \<not> digit6 c"

definition is_ascii :: "char \<Rightarrow> bool" where
  "is_ascii c \<longleftrightarrow> \<not> digit7 c"

abbreviation byte_val :: "char \<Rightarrow> nat" where
  "byte_val c \<equiv> of_char c"

definition is_char_boundary :: "string \<Rightarrow> nat \<Rightarrow> bool" where
  "is_char_boundary s i \<longleftrightarrow>
     i = 0 \<or> i = length s \<or> (i < length s \<and> \<not> is_cont (s ! i))"

text \<open>A \<open>str\<close> never starts with a continuation byte.\<close>

definition str_ok :: "string \<Rightarrow> bool" where
  "str_ok s \<longleftrightarrow> (case s of [] \<Rightarrow> True | c # _ \<Rightarrow> \<not> is_cont c)"

lemma str_ok_simps [simp, str_simps]:
  "str_ok []" "str_ok (c # s) \<longleftrightarrow> \<not> is_cont c"
  by (simp_all add: str_ok_def)

lemma is_ascii_not_cont: "is_ascii c \<Longrightarrow> \<not> is_cont c"
  by (simp add: is_ascii_def is_cont_def)

lemma is_char_boundary_0 [simp]: "is_char_boundary s 0"
  by (simp add: is_char_boundary_def)

lemma is_char_boundary_length [simp]: "is_char_boundary s (length s)"
  by (simp add: is_char_boundary_def)

lemma is_char_boundary_le: "is_char_boundary s i \<Longrightarrow> i \<le> length s"
  by (auto simp: is_char_boundary_def)

lemma is_char_boundary_iff_drop:
  "i \<le> length s \<Longrightarrow> 0 < i \<Longrightarrow> is_char_boundary s i \<longleftrightarrow> str_ok (drop i s)"
  by (cases "i < length s") (auto simp: is_char_boundary_def str_ok_def Cons_nth_drop_Suc [symmetric])

lemma ascii_all_boundaries:
  "list_all is_ascii s \<Longrightarrow> i \<le> length s \<Longrightarrow> is_char_boundary s i"
  by (auto simp: is_char_boundary_def list_all_length is_ascii_not_cont)

section \<open>Slices and in-place replacement\<close>

definition str_slice :: "string \<Rightarrow> nat \<Rightarrow> nat \<Rightarrow> string option" where
  "str_slice s a b =
     (if a \<le> b \<and> is_char_boundary s a \<and> is_char_boundary s b
      then Some (take (b - a) (drop a s)) else None)"

definition str_replace_range :: "string \<Rightarrow> nat \<Rightarrow> nat \<Rightarrow> string \<Rightarrow> string option" where
  "str_replace_range s a b r =
     (if a \<le> b \<and> is_char_boundary s a \<and> is_char_boundary s b
      then Some (take a s @ r @ drop b s) else None)"

lemma str_slice_Some_iff:
  "str_slice s a b = Some t \<longleftrightarrow>
     a \<le> b \<and> is_char_boundary s a \<and> is_char_boundary s b \<and> t = take (b - a) (drop a s)"
  by (auto simp: str_slice_def)

lemma length_str_slice: "str_slice s a b = Some t \<Longrightarrow> length t = b - a"
  by (auto simp: str_slice_Some_iff dest: is_char_boundary_le)

lemma str_slice_str_ok:
  assumes "str_ok s" and "str_slice s a b = Some t"
  shows "str_ok t"
proof (cases "a = b \<or> a = length s")
  case True
  with assms(2) show ?thesis by (auto simp: str_slice_Some_iff)
next
  case False
  with assms(2) have lt: "a < length s" and ab: "a < b"
    and t: "t = take (b - a) (drop a s)" and bd: "is_char_boundary s a"
    by (auto simp: str_slice_Some_iff dest: is_char_boundary_le)
  have "\<not> is_cont (s ! a)"
    using bd lt assms(1) by (cases s) (auto simp: is_char_boundary_def)
  moreover have "t = s ! a # take (b - a - 1) (drop (Suc a) s)"
    using lt ab t by (cases "b - a") (auto simp: Cons_nth_drop_Suc [symmetric])
  ultimately show ?thesis by simp
qed

text \<open>
  Replacing \<open>[a, b)\<close> leaves the boundaries at or before \<open>a\<close> where they were: the reason why
  replacing from right to left is safe.
\<close>

lemma is_char_boundary_replace_left:
  assumes "is_char_boundary s i" and "i \<le> a" and "is_char_boundary s a"
    and "is_char_boundary s b" and "str_ok r" and "a \<le> b"
  shows "is_char_boundary (take a s @ r @ drop b s) i"
proof (cases "i < a")
  case True
  with assms(1,3) show ?thesis
    by (auto simp: is_char_boundary_def nth_append min_def)
next
  case False
  with assms(2) have ia: "i = a" by simp
  show ?thesis
  proof (cases "a = 0")
    case True
    with ia show ?thesis by simp
  next
    case False
    have al: "a \<le> length s" using assms(3) by (rule is_char_boundary_le)
    have "str_ok (r @ drop b s)"
    proof (cases r)
      case Nil
      have "0 < b" using False assms(6) by simp
      with Nil assms(4) show ?thesis
        by (simp add: is_char_boundary_iff_drop [symmetric] is_char_boundary_le)
    qed (use assms(5) in simp)
    with ia al \<open>a \<noteq> 0\<close> show ?thesis
      by (subst is_char_boundary_iff_drop) auto
  qed
qed

section \<open>Characters\<close>

text \<open>\<open>str::chars\<close>: each character as the bytes that encode it.\<close>

function utf8_chars :: "string \<Rightarrow> string list" where
  "utf8_chars [] = []"
| "utf8_chars (c # s) = (c # takeWhile is_cont s) # utf8_chars (dropWhile is_cont s)"
  by pat_completeness auto
termination
  by (relation "measure length") (auto simp: length_dropWhile_le less_Suc_eq_le)

lemma concat_utf8_chars [simp]: "concat (utf8_chars s) = s"
  by (induction s rule: utf8_chars.induct) simp_all

lemma utf8_chars_nonempty: "[] \<notin> set (utf8_chars s)"
  by (induction s rule: utf8_chars.induct) auto

lemma utf8_chars_ascii: "list_all is_ascii s \<Longrightarrow> utf8_chars s = map (\<lambda>c. [c]) s"
proof (induction s)
  case Nil
  then show ?case by simp
next
  case (Cons c s)
  have "takeWhile is_cont s = []" "dropWhile is_cont s = s"
    using Cons.prems by (cases s; simp add: is_ascii_not_cont)+
  with Cons show ?case by simp
qed

lemma length_utf8_chars_le: "length (utf8_chars s) \<le> length s"
proof (induction s rule: utf8_chars.induct)
  case (2 c s)
  then show ?case using length_dropWhile_le [of is_cont s] by simp
qed simp

lemma str_ok_dropWhile_cont [simp]: "str_ok (dropWhile is_cont s)"
  by (induction s) auto

lemma utf8_chars_str_ok: "str_ok s \<Longrightarrow> ch \<in> set (utf8_chars s) \<Longrightarrow> str_ok ch"
  by (induction s rule: utf8_chars.induct) auto

lemma utf8_chars_boundary:
  assumes "utf8_chars s = a @ b"
  shows "is_char_boundary s (length (concat a))"
proof (cases "a = [] \<or> b = []")
  case True
  have "concat (a @ b) = s" by (simp flip: assms)
  with True show ?thesis by auto
next
  case False
  then obtain x a' y b' where a: "a = x # a'" and b: "b = y # b'"
    by (auto simp: neq_Nil_conv)
  have s: "s = concat a @ concat b"
    using assms by (metis concat_append concat_utf8_chars)
  obtain c r where c: "s = c # r" using assms a by (cases s) auto
  have "y \<in> set (utf8_chars (dropWhile is_cont r))"
    using assms a b c by (auto simp: Cons_eq_append_conv)
  then have "str_ok y" by (rule utf8_chars_str_ok [rotated]) simp
  moreover have "y \<noteq> []" "x \<noteq> []"
    using assms a b utf8_chars_nonempty [of s] by auto
  ultimately have "str_ok (concat b)" and "0 < length (concat a)"
    using a b by (auto simp: str_ok_def split: list.splits)
  with s show ?thesis by (subst is_char_boundary_iff_drop) auto
qed

lemma takeWhile_cont_append:
  "\<not> is_cont c \<Longrightarrow> takeWhile is_cont (s @ c # t) = takeWhile is_cont s"
  "\<not> is_cont c \<Longrightarrow> dropWhile is_cont (s @ c # t) = dropWhile is_cont s @ c # t"
  by (induction s) auto

lemma utf8_chars_append:
  "\<not> is_cont c \<Longrightarrow> utf8_chars (s @ c # t) = utf8_chars s @ utf8_chars (c # t)"
  by (induction s rule: utf8_chars.induct) (simp_all add: takeWhile_cont_append)

text \<open>\<open>str::char_indices\<close>: byte offset and character.\<close>

fun char_indices_from :: "nat \<Rightarrow> string list \<Rightarrow> (nat \<times> string) list" where
  "char_indices_from i [] = []"
| "char_indices_from i (ch # chs) = (i, ch) # char_indices_from (i + length ch) chs"

definition char_indices :: "string \<Rightarrow> (nat \<times> string) list" where
  "char_indices s = char_indices_from 0 (utf8_chars s)"

section \<open>ASCII classes and case\<close>

definition is_ascii_upper :: "char \<Rightarrow> bool" where
  "is_ascii_upper c \<longleftrightarrow> 65 \<le> byte_val c \<and> byte_val c \<le> 90"

definition is_ascii_lower :: "char \<Rightarrow> bool" where
  "is_ascii_lower c \<longleftrightarrow> 97 \<le> byte_val c \<and> byte_val c \<le> 122"

definition is_ascii_digit :: "char \<Rightarrow> bool" where
  "is_ascii_digit c \<longleftrightarrow> 48 \<le> byte_val c \<and> byte_val c \<le> 57"

definition is_ascii_hexdigit :: "char \<Rightarrow> bool" where
  "is_ascii_hexdigit c \<longleftrightarrow> is_ascii_digit c \<or>
     (97 \<le> byte_val c \<and> byte_val c \<le> 102) \<or> (65 \<le> byte_val c \<and> byte_val c \<le> 70)"

definition is_ascii_alphanumeric :: "char \<Rightarrow> bool" where
  "is_ascii_alphanumeric c \<longleftrightarrow> is_ascii_upper c \<or> is_ascii_lower c \<or> is_ascii_digit c"

text \<open>Lower case sets bit 5 of an upper-case letter, upper case clears it.\<close>

definition byte_to_lower :: "char \<Rightarrow> char" where
  "byte_to_lower c = (if is_ascii_upper c
     then Char (digit0 c) (digit1 c) (digit2 c) (digit3 c) (digit4 c) True (digit6 c) (digit7 c)
     else c)"

definition to_ascii_lowercase :: "string \<Rightarrow> string" where
  "to_ascii_lowercase s = map byte_to_lower s"

definition eq_ignore_ascii_case :: "string \<Rightarrow> string \<Rightarrow> bool" where
  "eq_ignore_ascii_case s t \<longleftrightarrow> to_ascii_lowercase s = to_ascii_lowercase t"

lemma byte_to_lower_not_upper: "\<not> is_ascii_upper (byte_to_lower c)"
  by (cases c) (auto simp: byte_to_lower_def is_ascii_upper_def of_char_def split: if_splits)

lemma byte_to_lower_idem [simp]: "byte_to_lower (byte_to_lower c) = byte_to_lower c"
  using byte_to_lower_not_upper [of c] by (simp add: byte_to_lower_def [of "byte_to_lower c"])

lemma to_ascii_lowercase_idem [simp]:
  "to_ascii_lowercase (to_ascii_lowercase s) = to_ascii_lowercase s"
  by (simp add: to_ascii_lowercase_def)

lemma length_to_ascii_lowercase [simp]: "length (to_ascii_lowercase s) = length s"
  by (simp add: to_ascii_lowercase_def)

lemma to_ascii_lowercase_append:
  "to_ascii_lowercase (s @ t) = to_ascii_lowercase s @ to_ascii_lowercase t"
  by (simp add: to_ascii_lowercase_def)

section \<open>Prefixes, suffixes and searching\<close>

definition starts_with :: "string \<Rightarrow> string \<Rightarrow> bool" where
  "starts_with s p \<longleftrightarrow> take (length p) s = p"

definition ends_with :: "string \<Rightarrow> string \<Rightarrow> bool" where
  "ends_with s p \<longleftrightarrow> length p \<le> length s \<and> drop (length s - length p) s = p"

definition strip_prefix :: "string \<Rightarrow> string \<Rightarrow> string option" where
  "strip_prefix s p = (if starts_with s p then Some (drop (length p) s) else None)"

definition strip_suffix :: "string \<Rightarrow> string \<Rightarrow> string option" where
  "strip_suffix s p = (if ends_with s p then Some (take (length s - length p) s) else None)"

text \<open>First byte offset of a needle, \<open>None\<close> when absent.\<close>

fun find_sub :: "string \<Rightarrow> string \<Rightarrow> nat option" where
  "find_sub [] p = (if p = [] then Some 0 else None)"
| "find_sub (c # s) p = (if starts_with (c # s) p then Some 0 else map_option Suc (find_sub s p))"

definition contains_str :: "string \<Rightarrow> string \<Rightarrow> bool" where
  "contains_str s p \<longleftrightarrow> find_sub s p \<noteq> None"

fun split_once :: "char \<Rightarrow> string \<Rightarrow> (string \<times> string) option" where
  "split_once c [] = None"
| "split_once c (x # s) =
     (if x = c then Some ([], s) else map_option (\<lambda>(a, b). (x # a, b)) (split_once c s))"

fun split_on :: "char \<Rightarrow> string \<Rightarrow> string list" where
  "split_on c [] = [[]]"
| "split_on c (x # s) =
     (if x = c then [] # split_on c s
      else (case split_on c s of [] \<Rightarrow> [[x]] | p # ps \<Rightarrow> (x # p) # ps))"

definition str_replace_char :: "char \<Rightarrow> string \<Rightarrow> string \<Rightarrow> string" where
  "str_replace_char c r s = concat (map (\<lambda>x. if x = c then r else [x]) s)"

lemma starts_with_append [simp]: "starts_with (p @ s) p"
  by (simp add: starts_with_def)

lemma starts_with_iff: "starts_with s p \<longleftrightarrow> (\<exists>t. s = p @ t)"
  by (metis append_eq_conv_conj append_take_drop_id starts_with_def)

lemma ends_with_iff: "ends_with s p \<longleftrightarrow> (\<exists>t. s = t @ p)"
proof
  assume "ends_with s p"
  then have "s = take (length s - length p) s @ p"
    unfolding ends_with_def by (metis append_take_drop_id)
  then show "\<exists>t. s = t @ p" ..
qed (auto simp: ends_with_def)

lemma strip_prefix_append [simp]: "strip_prefix (p @ s) p = Some s"
  by (simp add: strip_prefix_def)

lemma strip_prefix_Some_iff: "strip_prefix s p = Some t \<longleftrightarrow> s = p @ t"
  by (auto simp: strip_prefix_def starts_with_iff)

lemma strip_suffix_append [simp]: "strip_suffix (s @ p) p = Some s"
  by (simp add: strip_suffix_def ends_with_iff)

lemma split_once_append:
  "c \<notin> set a \<Longrightarrow> split_once c (a @ c # b) = Some (a, b)"
  by (induction a) auto

lemma split_once_absent: "c \<notin> set s \<Longrightarrow> split_once c s = None"
  by (induction s) auto

lemma split_once_SomeD:
  "split_once c s = Some (a, b) \<Longrightarrow> s = a @ c # b \<and> c \<notin> set a"
  by (induction s arbitrary: a) (auto split: if_splits)

lemma split_once_None_iff: "split_once c s = None \<longleftrightarrow> c \<notin> set s"
  by (induction s) auto

lemma split_on_not_Nil [simp]: "split_on c s \<noteq> []"
  by (cases s) (auto split: list.splits)

lemma split_on_absent: "c \<notin> set s \<Longrightarrow> split_on c s = [s]"
  by (induction s) auto

lemma split_on_append:
  "c \<notin> set a \<Longrightarrow> split_on c (a @ c # b) = a # split_on c b"
  by (induction a) auto

lemma find_sub_SomeD:
  "find_sub s p = Some i \<Longrightarrow> i + length p \<le> length s \<and> take (length p) (drop i s) = p"
proof (induction s arbitrary: i)
  case Nil
  then show ?case by (auto split: if_splits)
next
  case (Cons c s)
  show ?case
  proof (cases "starts_with (c # s) p")
    case True
    then obtain t where "c # s = p @ t" by (auto simp: starts_with_iff)
    moreover have "i = 0" using True Cons.prems by simp
    ultimately show ?thesis
      by (metis add_0 append_eq_conv_conj drop0 length_append le_add1)
  next
    case False
    with Cons.prems obtain j where "find_sub s p = Some j" and "i = Suc j" by auto
    with Cons.IH show ?thesis by auto
  qed
qed

lemma find_sub_first:
  "find_sub s p = Some i \<Longrightarrow> j < i \<Longrightarrow> \<not> starts_with (drop j s) p"
proof (induction s arbitrary: i j)
  case Nil
  then show ?case by (auto split: if_splits)
next
  case (Cons c s)
  then show ?case by (cases j) (auto split: if_splits)
qed

lemma find_sub_None_iff: "find_sub s p = None \<longleftrightarrow> (\<forall>j. \<not> starts_with (drop j s) p)"
proof (induction s)
  case Nil
  show ?case by (simp add: starts_with_def)
next
  case (Cons c s)
  have "(\<forall>j. \<not> starts_with (drop j (c # s)) p) \<longleftrightarrow>
      \<not> starts_with (c # s) p \<and> (\<forall>j. \<not> starts_with (drop j s) p)"
    by (metis drop0 drop_Suc_Cons not0_implies_Suc)
  with Cons show ?case by simp
qed

section \<open>Trimming\<close>

text \<open>
  \<open>char::is_whitespace\<close> is the Unicode property White\_Space; its characters, as bytes.
\<close>

definition whitespace_chars :: "string list" where
  "whitespace_chars =
     map (\<lambda>n. [char_of (n :: nat)]) [9, 10, 11, 12, 13, 32] @
     map (map (\<lambda>n. char_of (n :: nat)))
       ([[194, 133], [194, 160], [225, 154, 128], [226, 128, 168], [226, 128, 169],
         [226, 128, 175], [226, 129, 159], [227, 128, 128]] @
        map (\<lambda>k. [226, 128, k]) [128 ..< 139])"

text \<open>The white space, computed once.\<close>

lemma whitespace_chars_literal [code]:
  "whitespace_chars =
     [[CHR 0x09], [CHR 0x0A], [CHR 0x0B], [CHR 0x0C], [CHR 0x0D], [CHR 0x20], [CHR 0xC2, CHR 0x85], [CHR 0xC2, CHR 0xA0],
      [CHR 0xE1, CHR 0x9A, CHR 0x80], [CHR 0xE2, CHR 0x80, CHR 0xA8], [CHR 0xE2, CHR 0x80, CHR 0xA9],
      [CHR 0xE2, CHR 0x80, CHR 0xAF], [CHR 0xE2, CHR 0x81, CHR 0x9F], [CHR 0xE3, CHR 0x80, CHR 0x80],
      [CHR 0xE2, CHR 0x80, CHR 0x80], [CHR 0xE2, CHR 0x80, CHR 0x81], [CHR 0xE2, CHR 0x80, CHR 0x82],
      [CHR 0xE2, CHR 0x80, CHR 0x83], [CHR 0xE2, CHR 0x80, CHR 0x84], [CHR 0xE2, CHR 0x80, CHR 0x85],
      [CHR 0xE2, CHR 0x80, CHR 0x86], [CHR 0xE2, CHR 0x80, CHR 0x87], [CHR 0xE2, CHR 0x80, CHR 0x88],
      [CHR 0xE2, CHR 0x80, CHR 0x89], [CHR 0xE2, CHR 0x80, CHR 0x8A]]"
  by code_simp

definition is_whitespace :: "string \<Rightarrow> bool" where
  "is_whitespace ch \<longleftrightarrow> ch \<in> set whitespace_chars"

definition trim_start :: "string \<Rightarrow> string" where
  "trim_start s = concat (dropWhile is_whitespace (utf8_chars s))"

definition trim_end :: "string \<Rightarrow> string" where
  "trim_end s = concat (rev (dropWhile is_whitespace (rev (utf8_chars s))))"

definition trim :: "string \<Rightarrow> string" where
  "trim s = trim_end (trim_start s)"

text \<open>\<open>trim_end_matches\<close>, \<open>trim_matches\<close> with an ASCII character; \<open>trim_start_matches\<close> with a string.\<close>

definition trim_end_matches :: "char \<Rightarrow> string \<Rightarrow> string" where
  "trim_end_matches c s = rev (dropWhile (\<lambda>x. x = c) (rev s))"

definition trim_start_matches_char :: "char \<Rightarrow> string \<Rightarrow> string" where
  "trim_start_matches_char c s = dropWhile (\<lambda>x. x = c) s"

definition trim_matches :: "char \<Rightarrow> string \<Rightarrow> string" where
  "trim_matches c s = trim_end_matches c (trim_start_matches_char c s)"

function trim_start_matches :: "string \<Rightarrow> string \<Rightarrow> string" where
  "trim_start_matches p s =
     (if p \<noteq> [] \<and> starts_with s p then trim_start_matches p (drop (length p) s) else s)"
  by pat_completeness auto
termination
  by (relation "measure (\<lambda>(p, s). length s)") (auto simp: starts_with_iff)

declare trim_start_matches.simps [simp del]

lemma trim_end_matches_no_suffix: "\<not> ends_with (trim_end_matches c s) [c]"
  by (induction s rule: rev_induct) (auto simp: trim_end_matches_def ends_with_iff)

lemma trim_end_matches_id: "s = [] \<or> last s \<noteq> c \<Longrightarrow> trim_end_matches c s = s"
  by (cases s rule: rev_cases) (auto simp: trim_end_matches_def)

lemma trim_end_matches_snoc [simp]: "trim_end_matches c (s @ [c]) = trim_end_matches c s"
  by (simp add: trim_end_matches_def)

text \<open>A string whose first and last characters are printable ASCII is not changed by \<open>trim\<close>.\<close>

definition visible_ascii :: "char \<Rightarrow> bool" where
  "visible_ascii c \<longleftrightarrow> 32 < byte_val c \<and> byte_val c < 127"

lemma visible_not_whitespace: "visible_ascii c \<Longrightarrow> \<not> is_whitespace [c]"
  by (auto simp: visible_ascii_def is_whitespace_def whitespace_chars_def)

lemma visible_not_cont: "visible_ascii c \<Longrightarrow> \<not> is_cont c"
  by (cases c) (auto simp: visible_ascii_def is_cont_def of_char_def)

lemma visible_not_whitespace_chunk: "visible_ascii c \<Longrightarrow> \<not> is_whitespace (c # r)"
  by (auto simp: visible_ascii_def is_whitespace_def whitespace_chars_def)

lemma trim_start_id: "visible_ascii c \<Longrightarrow> trim_start (c # s) = c # s"
  using concat_utf8_chars [of "c # s"]
  by (simp add: trim_start_def visible_not_whitespace_chunk del: concat_utf8_chars)

lemma trim_end_id: "visible_ascii c \<Longrightarrow> trim_end (s @ [c]) = s @ [c]"
  by (simp add: trim_end_def utf8_chars_append visible_not_cont visible_not_whitespace)

lemma trim_id: "visible_ascii c \<Longrightarrow> visible_ascii d \<Longrightarrow> trim (c # s @ [d]) = c # s @ [d]"
  using trim_end_id [of d "c # s"] by (simp add: trim_def trim_start_id)

lemma visible_is_ascii: "visible_ascii c \<Longrightarrow> is_ascii c"
  by (cases c) (auto simp: visible_ascii_def is_ascii_def of_char_def)

section \<open>UTF-8 validation\<close>

text \<open>
  \<open>str::from_utf8\<close> and \<open>String::from_utf8_lossy\<close>. A step looks at the front of the bytes: a
  well-formed character of some length, or an ill-formed sequence whose maximal prefix is replaced
  as a whole by U+FFFD.
\<close>

definition byte_in :: "string \<Rightarrow> nat \<Rightarrow> nat \<Rightarrow> nat \<Rightarrow> bool" where
  "byte_in s i lo hi \<longleftrightarrow> i < length s \<and> lo \<le> byte_val (s ! i) \<and> byte_val (s ! i) \<le> hi"

definition utf8_step :: "string \<Rightarrow> bool \<times> nat" where
  "utf8_step s =
     (let b = byte_val (s ! 0);
          lo = (if b = 224 then 160 else if b = 240 then 144 else 128);
          hi = (if b = 237 then 159 else if b = 244 then 143 else 191)
      in if b < 128 then (True, 1)
         else if 194 \<le> b \<and> b \<le> 223 then (if byte_in s 1 128 191 then (True, 2) else (False, 1))
         else if 224 \<le> b \<and> b \<le> 239 then
           (if \<not> byte_in s 1 lo hi then (False, 1)
            else if \<not> byte_in s 2 128 191 then (False, 2) else (True, 3))
         else if 240 \<le> b \<and> b \<le> 244 then
           (if \<not> byte_in s 1 lo hi then (False, 1)
            else if \<not> byte_in s 2 128 191 then (False, 2)
            else if \<not> byte_in s 3 128 191 then (False, 3) else (True, 4))
         else (False, 1))"

lemma utf8_step_pos: "0 < snd (utf8_step s)"
  by (simp add: utf8_step_def Let_def)

function utf8_valid :: "string \<Rightarrow> bool" where
  "utf8_valid s =
     (if s = [] then True else fst (utf8_step s) \<and> utf8_valid (drop (snd (utf8_step s)) s))"
  by pat_completeness auto
termination
  by (relation "measure length") (use utf8_step_pos in \<open>auto simp: length_greater_0_conv [symmetric] simp del: length_greater_0_conv\<close>)

function from_utf8_lossy :: "string \<Rightarrow> string" where
  "from_utf8_lossy s =
     (if s = [] then []
      else (if fst (utf8_step s) then take (snd (utf8_step s)) s else map char_of [239 :: nat, 191, 189]) @
           from_utf8_lossy (drop (snd (utf8_step s)) s))"
  by pat_completeness auto
termination
  by (relation "measure length") (use utf8_step_pos in \<open>auto simp: length_greater_0_conv [symmetric] simp del: length_greater_0_conv\<close>)

declare utf8_valid.simps [simp del] from_utf8_lossy.simps [simp del]

lemma from_utf8_lossy_valid: "utf8_valid s \<Longrightarrow> from_utf8_lossy s = s"
proof (induction s rule: utf8_valid.induct)
  case (1 s)
  show ?case
  proof (cases "s = []")
    case False
    with "1.prems" have "fst (utf8_step s)" "utf8_valid (drop (snd (utf8_step s)) s)"
      by (simp_all add: utf8_valid.simps [of s])
    with 1 False show ?thesis by (simp add: from_utf8_lossy.simps [of s])
  qed (simp add: from_utf8_lossy.simps)
qed

lemma is_cont_byte: "is_cont c \<longleftrightarrow> 128 \<le> byte_val c \<and> byte_val c \<le> 191"
  by (cases c) (auto simp: is_cont_def of_char_def)

lemma utf8_step_start: "s \<noteq> [] \<Longrightarrow> fst (utf8_step s) \<Longrightarrow> str_ok s"
  by (cases s) (auto simp: utf8_step_def Let_def is_cont_byte split: if_splits)

lemma utf8_valid_str_ok: "utf8_valid s \<Longrightarrow> str_ok s"
  by (cases "s = []") (auto simp: utf8_valid.simps [of s] intro: utf8_step_start)

lemma str_ok_append: "s \<noteq> [] \<Longrightarrow> str_ok (s @ t) \<longleftrightarrow> str_ok s"
  by (cases s) auto

lemma from_utf8_lossy_str_ok: "str_ok (from_utf8_lossy s)"
proof (cases "s = []")
  case False
  show ?thesis
  proof (cases "fst (utf8_step s)")
    case True
    then have "str_ok (take (snd (utf8_step s)) s)"
      using utf8_step_start [OF False] False utf8_step_pos [of s] by (cases s) (auto simp: take_Cons')
    with True False utf8_step_pos [of s] show ?thesis
      by (subst from_utf8_lossy.simps) (simp add: str_ok_append)
  next
    case bad: False
    with False show ?thesis by (subst from_utf8_lossy.simps) (simp add: is_cont_byte)
  qed
qed (simp add: from_utf8_lossy.simps)

end
