(* ===== verification/Core_Types.thy ===== *)
theory Core_Types
  imports Rust_Str
begin

text \<open>
  \<open>crates/ctxward-core/src/types.rs\<close>: clearances and severities with their derived order, the
  four decisions with \<open>rank\<close> and \<open>combine\<close>, masking strategies and directions. The laws of
  \<open>combine\<close> are the interface \<open>strictest_wins\<close>; what the policy engine, the JSON walker and the
  OPA merge need of a fold of \<open>combine\<close> is proved once in it.
\<close>

section \<open>The enumerations\<close>

datatype clearance = Public | Internal | Confidential | Restricted

datatype decision_action = Allow | Redact | Review | Block

datatype severity = Low | Medium | High | Critical

datatype masking_strategy =
  Placeholder | PartialEmail | PartialPhone | KeepLast4 | Hash | Tokenize | Full

datatype direction = Request | Response

subsection \<open>The derived orders\<close>

text \<open>\<open>derive(PartialOrd, Ord)\<close> orders the variants as they are declared.\<close>

fun clearance_index :: "clearance \<Rightarrow> nat" where
  "clearance_index Public = 0"
| "clearance_index Internal = 1"
| "clearance_index Confidential = 2"
| "clearance_index Restricted = 3"

fun severity_index :: "severity \<Rightarrow> nat" where
  "severity_index Low = 0"
| "severity_index Medium = 1"
| "severity_index High = 2"
| "severity_index Critical = 3"

lemma clearance_index_inject [simp]: "clearance_index a = clearance_index b \<longleftrightarrow> a = b"
  by (cases a; cases b) auto

lemma severity_index_inject [simp]: "severity_index a = severity_index b \<longleftrightarrow> a = b"
  by (cases a; cases b) auto

instantiation clearance :: linorder
begin

definition less_eq_clearance :: "clearance \<Rightarrow> clearance \<Rightarrow> bool" where
  "less_eq_clearance a b \<longleftrightarrow> clearance_index a \<le> clearance_index b"

definition less_clearance :: "clearance \<Rightarrow> clearance \<Rightarrow> bool" where
  "less_clearance a b \<longleftrightarrow> clearance_index a < clearance_index b"

instance
  by standard (auto simp: less_eq_clearance_def less_clearance_def)

end

instantiation severity :: linorder
begin

definition less_eq_severity :: "severity \<Rightarrow> severity \<Rightarrow> bool" where
  "less_eq_severity a b \<longleftrightarrow> severity_index a \<le> severity_index b"

definition less_severity :: "severity \<Rightarrow> severity \<Rightarrow> bool" where
  "less_severity a b \<longleftrightarrow> severity_index a < severity_index b"

instance
  by standard (auto simp: less_eq_severity_def less_severity_def)

end

text \<open>\<open>#[default] Internal\<close>, and the names that \<open>{:?}\<close> in lower case gives a severity.\<close>

definition default_clearance :: clearance where
  "default_clearance = Internal"

fun severity_name :: "severity \<Rightarrow> string" where
  "severity_name Low = ''low''"
| "severity_name Medium = ''medium''"
| "severity_name High = ''high''"
| "severity_name Critical = ''critical''"

section \<open>Combining decisions\<close>

fun rank :: "decision_action \<Rightarrow> nat" where
  "rank Allow = 0"
| "rank Redact = 1"
| "rank Review = 2"
| "rank Block = 3"

definition combine :: "decision_action \<Rightarrow> decision_action \<Rightarrow> decision_action" where
  "combine a b = (if rank a \<ge> rank b then a else b)"

text \<open>
  The interface: a binary operation that returns the stricter of its arguments. Folding it over
  a list, from any start, gives the strictest element, in whatever order the list is.
\<close>

locale strictest_wins =
  fixes join :: "'a \<Rightarrow> 'a \<Rightarrow> 'a" and strictness :: "'a \<Rightarrow> nat"
  assumes join_choice: "join a b = a \<or> join a b = b"
    and strictness_join: "strictness (join a b) = max (strictness a) (strictness b)"
    and strictness_inject: "strictness a = strictness b \<Longrightarrow> a = b"
begin

lemma join_idem: "join a a = a"
  using join_choice [of a a] by simp

lemma join_commute: "join a b = join b a"
  by (rule strictness_inject) (simp add: strictness_join max.commute)

lemma join_assoc: "join (join a b) c = join a (join b c)"
  by (rule strictness_inject) (simp add: strictness_join max.assoc)

lemma join_absorb: "strictness b \<le> strictness a \<Longrightarrow> join a b = a"
  by (rule strictness_inject) (simp add: strictness_join)

lemma fold_join_ge_start: "strictness a \<le> strictness (fold (\<lambda>x acc. join acc (f x)) xs a)"
proof (induction xs arbitrary: a)
  case (Cons x xs)
  show ?case using Cons.IH [of "join a (f x)"] by (simp add: strictness_join)
qed simp

lemma fold_join_ge:
  "x \<in> set xs \<Longrightarrow> strictness (f x) \<le> strictness (fold (\<lambda>x acc. join acc (f x)) xs a)"
proof (induction xs arbitrary: a)
  case (Cons y ys)
  show ?case
  proof (cases "x = y")
    case True
    then show ?thesis
      using fold_join_ge_start [of "join a (f y)" f ys] by (simp add: strictness_join)
  next
    case False
    with Cons show ?thesis by simp
  qed
qed simp

lemma fold_join_attained:
  "fold (\<lambda>x acc. join acc (f x)) xs a = a \<or> (\<exists>x \<in> set xs. fold (\<lambda>x acc. join acc (f x)) xs a = f x)"
proof (induction xs arbitrary: a)
  case (Cons y ys)
  then show ?case using join_choice [of a "f y"] by (auto split: if_splits) metis+
qed simp

lemma fold_join_append:
  "fold (\<lambda>x acc. join acc (f x)) (xs @ ys) a =
   join (fold (\<lambda>x acc. join acc (f x)) xs a) (fold (\<lambda>x acc. join acc (f x)) ys a)"
proof (induction ys rule: rev_induct)
  case Nil
  show ?case using join_absorb [OF fold_join_ge_start, symmetric] by simp
next
  case (snoc y ys)
  then show ?case by (simp add: join_assoc)
qed

lemma fold_join_eq_start_iff:
  assumes "\<And>b. strictness a \<le> strictness b"
  shows "fold (\<lambda>x acc. join acc (f x)) xs a = a \<longleftrightarrow> (\<forall>x \<in> set xs. f x = a)"
proof
  assume eq: "fold (\<lambda>x acc. join acc (f x)) xs a = a"
  show "\<forall>x \<in> set xs. f x = a"
  proof
    fix x assume "x \<in> set xs"
    then have "strictness (f x) \<le> strictness a"
      using fold_join_ge [of x xs f a] eq by simp
    then show "f x = a" using assms [of "f x"] by (intro strictness_inject) simp
  qed
next
  assume "\<forall>x \<in> set xs. f x = a"
  then show "fold (\<lambda>x acc. join acc (f x)) xs a = a"
    using fold_join_attained [of f xs a] by auto
qed

end

interpretation decisions: strictest_wins combine rank
proof (unfold_locales, goal_cases)
  case (1 a b)
  show ?case by (simp add: combine_def)
next
  case (2 a b)
  show ?case by (auto simp: combine_def)
next
  case (3 a b)
  then show ?case by (cases a; cases b) auto
qed

lemma rank_le_3: "rank a \<le> 3"
  by (cases a) auto

lemma rank_0_iff [simp]: "rank a = 0 \<longleftrightarrow> a = Allow"
  by (cases a) auto

lemma combine_Allow [simp]: "combine Allow a = a" "combine a Allow = a"
  by (cases a; simp add: combine_def)+

lemma combine_eq_Allow_iff [simp]: "combine a b = Allow \<longleftrightarrow> a = Allow \<and> b = Allow"
  by (cases a; cases b; simp add: combine_def)

text \<open>The decision a list of actions adds up to, from \<open>Allow\<close>.\<close>

definition strictest :: "('a \<Rightarrow> decision_action) \<Rightarrow> 'a list \<Rightarrow> decision_action" where
  "strictest f xs = fold (\<lambda>x acc. combine acc (f x)) xs Allow"

lemma strictest_Nil [simp]: "strictest f [] = Allow"
  by (simp add: strictest_def)

lemma strictest_append: "strictest f (xs @ ys) = combine (strictest f xs) (strictest f ys)"
  by (simp add: strictest_def decisions.fold_join_append del: fold_append)

lemma strictest_Cons [simp]: "strictest f (x # xs) = combine (f x) (strictest f xs)"
  using strictest_append [of f "[x]" xs] by (simp add: strictest_def)

lemma strictest_ge: "x \<in> set xs \<Longrightarrow> rank (f x) \<le> rank (strictest f xs)"
  unfolding strictest_def by (rule decisions.fold_join_ge)

lemma strictest_attained:
  "strictest f xs = Allow \<or> (\<exists>x \<in> set xs. strictest f xs = f x)"
  unfolding strictest_def by (rule decisions.fold_join_attained)

lemma strictest_eq_Allow_iff: "strictest f xs = Allow \<longleftrightarrow> (\<forall>x \<in> set xs. f x = Allow)"
  unfolding strictest_def by (rule decisions.fold_join_eq_start_iff) simp

lemma strictest_map: "strictest f (map g xs) = strictest (f \<circ> g) xs"
  by (induction xs) auto

lemma strictest_cong: "(\<And>x. x \<in> set xs \<Longrightarrow> f x = g x) \<Longrightarrow> strictest f xs = strictest g xs"
  by (induction xs) auto

end
