(* ===== verification/Core_Config.thy ===== *)
theory Core_Config
  imports Core_Types Complex_Main
begin

text \<open>
  \<open>crates/ctxward-core/src/config.rs\<close>: every configuration structure as a record (the field
  names carry the structure's tag, since a HOL record field is global), the serde defaults, the
  baked-in host lists and the dispatch of \<open>AppConfig::load\<close> on the file extension. The YAML and
  TOML parsers are parameters. \<open>u64\<close> and \<open>usize\<close> values are naturals, \<open>f64\<close> values reals.
\<close>

section \<open>Errors and modes\<close>

datatype config_error =
  ReadError string string
| ParseYaml string string
| ParseToml string string
| UnsupportedExtension string

datatype mode = Reverse | Proxy

definition default_mode :: mode where
  "default_mode = Reverse"

section \<open>The sections\<close>

record server_config =
  srv_bind :: string
  srv_request_body_limit_bytes :: nat

definition default_request_body_limit_bytes :: nat where
  "default_request_body_limit_bytes = 1024 * 1024"

record upstream_config =
  up_base_url :: string
  up_timeout_ms :: nat
  up_connect_timeout_ms :: nat
  up_auth_header :: "string option"
  up_auth_value_env :: "string option"
  up_forward_headers :: "string set"

definition default_timeout_ms :: nat where
  "default_timeout_ms = 60000"

definition default_connect_timeout_ms :: nat where
  "default_connect_timeout_ms = 5000"

record principal_config =
  pc_name :: string
  pc_tenant_id :: string
  pc_role :: string
  pc_clearance :: clearance
  pc_secret_sha256 :: string
  pc_allowed_labels :: "string set"

record auth_config =
  ac_header_name :: string
  ac_principals :: "principal_config list"

definition default_auth_header_name :: string where
  "default_auth_header_name = ''authorization''"

record attachment_config =
  att_enabled :: bool
  att_max_bytes :: nat
  att_max_text_chars :: nat
  att_allowed_media_types :: "string list"

definition default_attachment_max_bytes :: nat where
  "default_attachment_max_bytes = 5 * 1024 * 1024"

definition default_attachment_max_text_chars :: nat where
  "default_attachment_max_text_chars = 32768"

definition default_attachment_media_types :: "string list" where
  "default_attachment_media_types =
     [''text/*'', ''application/json'', ''application/xml'', ''text/xml'', ''text/csv'',
      ''application/pdf'',
      ''application/vnd.openxmlformats-officedocument.wordprocessingml.document'',
      ''application/vnd.openxmlformats-officedocument.spreadsheetml.sheet'',
      ''application/vnd.openxmlformats-officedocument.presentationml.presentation'']"

definition attachment_config_default :: attachment_config where
  "attachment_config_default =
     \<lparr>att_enabled = False, att_max_bytes = default_attachment_max_bytes,
      att_max_text_chars = default_attachment_max_text_chars,
      att_allowed_media_types = default_attachment_media_types\<rparr>"

record high_entropy_rule_config =
  he_enabled :: bool
  he_min_length :: nat
  he_min_entropy :: real
  he_label :: string
  he_severity :: severity
  he_authorized_action :: decision_action
  he_unauthorized_action :: decision_action
  he_min_clearance :: clearance
  he_masking :: masking_strategy

definition default_entropy_length :: nat where
  "default_entropy_length = 20"

definition default_entropy_score :: real where
  "default_entropy_score = 36 / 10"

definition default_high_entropy_severity :: severity where
  "default_high_entropy_severity = High"

record detection_rule_config =
  dr_name :: string
  dr_label :: string
  dr_pattern :: string
  dr_severity :: severity
  dr_authorized_action :: decision_action
  dr_unauthorized_action :: decision_action
  dr_min_clearance :: clearance
  dr_masking :: masking_strategy

definition default_rule_severity :: severity where
  "default_rule_severity = Medium"

record presidio_entity_config =
  pe_entity_type :: string
  pe_label :: string
  pe_severity :: severity
  pe_authorized_action :: decision_action
  pe_unauthorized_action :: decision_action
  pe_min_clearance :: clearance
  pe_masking :: masking_strategy
  pe_min_score :: real

definition default_presidio_min_score :: real where
  "default_presidio_min_score = 35 / 100"

record presidio_config =
  ps_enabled :: bool
  ps_analyzer_url :: string
  ps_healthcheck_url :: "string option"
  ps_timeout_ms :: nat
  ps_language :: string
  ps_entities :: "presidio_entity_config list"

definition default_presidio_timeout_ms :: nat where
  "default_presidio_timeout_ms = 250"

definition default_presidio_language :: string where
  "default_presidio_language = ''en''"

record detection_config =
  dc_ignore_json_pointers :: "string set"
  dc_high_entropy :: "high_entropy_rule_config option"
  dc_presidio :: "presidio_config option"
  dc_rules :: "detection_rule_config list"

record tokenization_config =
  tk_enabled :: bool
  tk_key_env :: string
  tk_token_prefix :: string

definition default_tokenization_key_env :: string where
  "default_tokenization_key_env = ''CONTEXT_GURD_TOKENIZATION_KEY''"

definition default_tokenization_prefix :: string where
  "default_tokenization_prefix = ''CGT1''"

record opa_config =
  oc_enabled :: bool
  oc_url :: string
  oc_healthcheck_url :: "string option"
  oc_timeout_ms :: nat
  oc_fail_open :: bool

definition default_opa_timeout_ms :: nat where
  "default_opa_timeout_ms = 150"

record policy_backend_config =
  pb_opa :: "opa_config option"

record session_config =
  ss_enabled :: bool
  ss_header_name :: string
  ss_ttl_secs :: nat
  ss_max_entries :: nat
  ss_correlation_threshold :: nat
  ss_trigger_action :: decision_action

definition default_session_header_name :: string where
  "default_session_header_name = ''x-session-id''"

definition default_session_ttl_secs :: nat where
  "default_session_ttl_secs = 1800"

definition default_session_max_entries :: nat where
  "default_session_max_entries = 5000"

definition default_correlation_threshold :: nat where
  "default_correlation_threshold = 2"

definition default_session_trigger_action :: decision_action where
  "default_session_trigger_action = Review"

record response_filtering_config =
  rf_enabled :: bool
  rf_scan_json :: bool
  rf_scan_sse :: bool

record review_config =
  rc_capacity :: nat
  rc_preview_chars :: nat
  rc_approval_ttl_secs :: nat
  rc_jsonl_path :: string

definition default_review_capacity :: nat where
  "default_review_capacity = 1000"

definition default_review_preview_chars :: nat where
  "default_review_preview_chars = 256"

definition default_review_approval_ttl_secs :: nat where
  "default_review_approval_ttl_secs = 900"

definition default_review_jsonl_path :: string where
  "default_review_jsonl_path = ''./review.jsonl''"

text \<open>
  \<open>ReviewConfig\<close> derives \<open>Default\<close>, so its default value has zeros and an empty path; the
  \<open>default_review_*\<close> functions fill the fields that a present section leaves out. The section
  itself is \<open>#[serde(default)]\<close> in \<open>AppConfig\<close>: an absent section is the derived default.
\<close>

definition review_config_default :: review_config where
  "review_config_default =
     \<lparr>rc_capacity = 0, rc_preview_chars = 0, rc_approval_ttl_secs = 0, rc_jsonl_path = ''''\<rparr>"

record review_section =
  rsec_capacity :: "nat option"
  rsec_preview_chars :: "nat option"
  rsec_approval_ttl_secs :: "nat option"
  rsec_jsonl_path :: "string option"

definition serde_default :: "'a \<Rightarrow> 'a option \<Rightarrow> 'a" where
  "serde_default d x = (case x of Some v \<Rightarrow> v | None \<Rightarrow> d)"

definition review_config_of_section :: "review_section option \<Rightarrow> review_config" where
  "review_config_of_section sec =
     (case sec of
        None \<Rightarrow> review_config_default
      | Some s \<Rightarrow>
          \<lparr>rc_capacity = serde_default default_review_capacity (rsec_capacity s),
           rc_preview_chars = serde_default default_review_preview_chars (rsec_preview_chars s),
           rc_approval_ttl_secs =
             serde_default default_review_approval_ttl_secs (rsec_approval_ttl_secs s),
           rc_jsonl_path = serde_default default_review_jsonl_path (rsec_jsonl_path s)\<rparr>)"

record benchmark_config =
  bc_enabled :: bool
  bc_summary_json_path :: string
  bc_baseline_summary_json_path :: "string option"
  bc_gate_report_json_path :: "string option"

definition default_benchmark_summary_json_path :: string where
  "default_benchmark_summary_json_path = ''./.tmp-smoke/bench-matrix/summary.json''"

definition default_benchmark_baseline_json_path :: string where
  "default_benchmark_baseline_json_path = ''./.tmp-smoke/bench-matrix/baseline.json''"

definition default_benchmark_gate_report_json_path :: string where
  "default_benchmark_gate_report_json_path = ''./.tmp-smoke/bench-matrix/gate-report.json''"

definition benchmark_config_default :: benchmark_config where
  "benchmark_config_default =
     \<lparr>bc_enabled = False, bc_summary_json_path = default_benchmark_summary_json_path,
      bc_baseline_summary_json_path = Some default_benchmark_baseline_json_path,
      bc_gate_report_json_path = Some default_benchmark_gate_report_json_path\<rparr>"

record audit_config =
  au_jsonl_path :: string
  au_emit_stdout :: bool
  au_buffer_capacity :: nat

definition default_audit_buffer_capacity :: nat where
  "default_audit_buffer_capacity = 1000"

section \<open>The forward proxy\<close>

datatype host_pattern = Exact string | Wildcard string | Regex string

datatype proxy_action = Intercept | Passthrough

definition default_proxy_action :: proxy_action where
  "default_proxy_action = Passthrough"

record per_app_rule =
  pa_process :: string
  pa_action :: proxy_action

record pin_fallback_config =
  pf_block_ttl_secs :: nat
  pf_auto_splice_on_alert :: bool

definition default_pin_block_ttl_secs :: nat where
  "default_pin_block_ttl_secs = 300"

definition pin_fallback_config_default :: pin_fallback_config where
  "pin_fallback_config_default =
     \<lparr>pf_block_ttl_secs = default_pin_block_ttl_secs, pf_auto_splice_on_alert = True\<rparr>"

record proxy_config =
  px_listen_addr :: string
  px_ca_dir :: string
  px_ca_key_path :: "string option"
  px_ca_cert_path :: "string option"
  px_ca_key_path_env :: string
  px_leaf_ttl_days :: nat
  px_cert_cache_size :: nat
  px_intercept :: "host_pattern list"
  px_passthrough :: "host_pattern list"
  px_default_action :: proxy_action
  px_signs_body :: "host_pattern list"
  px_per_app_rules :: "per_app_rule list"
  px_pin_fallback :: pin_fallback_config
  px_ruleset_url :: "string option"
  px_ruleset_pubkey :: "string option"
  px_ruleset_poll_secs :: nat

definition default_proxy_listen_addr :: string where
  "default_proxy_listen_addr = ''127.0.0.1:8888''"

definition default_ca_dir :: string where
  "default_ca_dir = ''./certs''"

definition default_ca_key_path_env :: string where
  "default_ca_key_path_env = ''CONTEXT_GURD_PROXY_CA_KEY_PATH''"

definition default_leaf_ttl_days :: nat where
  "default_leaf_ttl_days = 7"

definition default_cert_cache_size :: nat where
  "default_cert_cache_size = 1000"

definition default_ruleset_poll_secs :: nat where
  "default_ruleset_poll_secs = 300"

text \<open>The backslash of a regular expression is the byte 92.\<close>

definition bslash :: string where
  "bslash = [CHR 92]"

definition bedrock_runtime_pattern :: string where
  "bedrock_runtime_pattern =
     ''^bedrock-runtime'' @ bslash @ ''.[a-z0-9-]+'' @ bslash @ ''.amazonaws'' @ bslash @ ''.com$''"

definition bedrock_mantle_pattern :: string where
  "bedrock_mantle_pattern =
     ''^bedrock-mantle'' @ bslash @ ''.[a-z0-9-]+'' @ bslash @ ''.api'' @ bslash @ ''.aws$''"

definition default_intercept_hosts :: "host_pattern list" where
  "default_intercept_hosts =
     [Exact ''api.openai.com'',
      Wildcard ''*.openai.azure.com'',
      Wildcard ''*.cognitiveservices.azure.com'',
      Wildcard ''*.services.ai.azure.com'',
      Exact ''api.anthropic.com'',
      Exact ''generativelanguage.googleapis.com'',
      Exact ''aiplatform.googleapis.com'',
      Regex bedrock_runtime_pattern,
      Exact ''api.deepseek.com'',
      Exact ''api.moonshot.ai'',
      Exact ''api.moonshot.cn'',
      Exact ''api.groq.com'',
      Exact ''api.mistral.ai'',
      Exact ''api.cohere.com'',
      Exact ''api.x.ai'',
      Exact ''openrouter.ai'']"

definition default_passthrough_hosts :: "host_pattern list" where
  "default_passthrough_hosts =
     [Exact ''chatgpt.com'',
      Wildcard ''*.chatgpt.com'',
      Exact ''chat.openai.com'',
      Wildcard ''*.auth0.com'',
      Exact ''challenges.cloudflare.com'',
      Exact ''desktop.chat.openai.com'',
      Exact ''ios.chat.openai.com'',
      Exact ''android.chat.openai.com'',
      Exact ''claude.ai'',
      Wildcard ''*.claude.com'',
      Exact ''gemini.google.com'',
      Exact ''aistudio.google.com'']"

definition default_signs_body_hosts :: "host_pattern list" where
  "default_signs_body_hosts = [Regex bedrock_runtime_pattern, Regex bedrock_mantle_pattern]"

section \<open>The application configuration\<close>

record app_config =
  cfg_mode :: mode
  cfg_server :: server_config
  cfg_upstream :: upstream_config
  cfg_auth :: auth_config
  cfg_detection :: detection_config
  cfg_attachments :: attachment_config
  cfg_tokenization :: "tokenization_config option"
  cfg_policy_backend :: policy_backend_config
  cfg_session :: session_config
  cfg_response_filtering :: response_filtering_config
  cfg_review :: review_config
  cfg_benchmarks :: benchmark_config
  cfg_audit :: audit_config
  cfg_proxy :: "proxy_config option"

text \<open>
  The file system and the two parsers: \<open>fs::read_to_string\<close>, \<open>serde_yaml::from_str\<close>,
  \<open>toml::from_str\<close> and \<open>Path::extension\<close>; an error is its message.
\<close>

record config_io =
  io_read :: "string \<Rightarrow> string + string"
  io_yaml :: "string \<Rightarrow> string + app_config"
  io_toml :: "string \<Rightarrow> string + app_config"
  io_extension :: "string \<Rightarrow> string option"

definition app_config_load :: "config_io \<Rightarrow> string \<Rightarrow> config_error + app_config" where
  "app_config_load io path =
     (case io_read io path of
        Inl source \<Rightarrow> Inl (ReadError path source)
      | Inr raw \<Rightarrow>
          (if io_extension io path = Some ''yaml'' \<or> io_extension io path = Some ''yml'' then
             (case io_yaml io raw of Inl source \<Rightarrow> Inl (ParseYaml path source) | Inr c \<Rightarrow> Inr c)
           else if io_extension io path = Some ''toml'' then
             (case io_toml io raw of Inl source \<Rightarrow> Inl (ParseToml path source) | Inr c \<Rightarrow> Inr c)
           else Inl (UnsupportedExtension path)))"

section \<open>Facts\<close>

lemma app_config_load_Inr_iff:
  "app_config_load io path = Inr c \<longleftrightarrow>
     (\<exists>raw. io_read io path = Inr raw \<and>
        (io_extension io path \<in> {Some ''yaml'', Some ''yml''} \<and> io_yaml io raw = Inr c \<or>
         io_extension io path = Some ''toml'' \<and> io_toml io raw = Inr c))"
  by (auto simp: app_config_load_def split: sum.splits)

lemma review_absent_section_differs:
  "review_config_of_section None \<noteq>
   review_config_of_section (Some \<lparr>rsec_capacity = None, rsec_preview_chars = None,
     rsec_approval_ttl_secs = None, rsec_jsonl_path = None\<rparr>)"
  by (simp add: review_config_of_section_def review_config_default_def serde_default_def
      default_review_capacity_def)

end
