(* ===== verification/Core_Detect.thy ===== *)
theory Core_Detect
  imports Core_Config
begin

text \<open>
  \<open>crates/ctxward-core/src/detect.rs\<close>: rule metadata, findings, the compiled detector and
  \<open>scan_text\<close>, with the high-entropy tokenizer written out. The \<open>regex\<close> crate and the SHA-256
  and hex crates are parameters (\<open>regex_api\<close>, \<open>hash_api\<close>); what the code relies on of the regex
  engine is \<open>regex_sound\<close>. Entropy is computed over the reals, without the rounding of \<open>f64\<close>.
\<close>

section \<open>Parameters\<close>

text \<open>A compiled regex is its pattern; offsets are byte offsets.\<close>

record regex_api =
  rx_error :: "string \<Rightarrow> string option"
  rx_captures_len :: "string \<Rightarrow> nat"
  rx_find_iter :: "string \<Rightarrow> string \<Rightarrow> (nat \<times> nat) list"
  rx_captures_iter :: "string \<Rightarrow> string \<Rightarrow> (nat \<times> nat) option list list"
  rx_set_error :: "string list \<Rightarrow> string option"
  rx_set_matched :: "string list \<Rightarrow> string \<Rightarrow> nat \<Rightarrow> bool"

record hash_api =
  ha_sha256 :: "string \<Rightarrow> string"
  ha_hex :: "string \<Rightarrow> string"

text \<open>
  Documented behaviour of the \<open>regex\<close> crate on \<open>str\<close>: every reported span lies on character
  boundaries of the text.
\<close>

definition span_ok :: "string \<Rightarrow> nat \<times> nat \<Rightarrow> bool" where
  "span_ok text sp \<longleftrightarrow> str_slice text (fst sp) (snd sp) \<noteq> None"

definition regex_sound :: "regex_api \<Rightarrow> bool" where
  "regex_sound R \<longleftrightarrow>
     (\<forall>pat text. (\<forall>sp \<in> set (rx_find_iter R pat text). span_ok text sp) \<and>
       (\<forall>caps \<in> set (rx_captures_iter R pat text). \<forall>sp. Some sp \<in> set caps \<longrightarrow> span_ok text sp))"

section \<open>Findings\<close>

datatype detector_error = InvalidRegex string string

record rule_metadata =
  rm_rule_name :: string
  rm_label :: string
  rm_severity :: severity
  rm_authorized_action :: decision_action
  rm_unauthorized_action :: decision_action
  rm_min_clearance :: clearance
  rm_masking :: masking_strategy

record detection_finding =
  df_start :: nat
  df_end :: nat
  df_matched :: string
  df_matched_sha256 :: string
  df_pointer :: string
  df_metadata :: rule_metadata

definition sha256_hex :: "hash_api \<Rightarrow> string \<Rightarrow> string" where
  "sha256_hex H input = ha_hex H (ha_sha256 H input)"

definition detection_finding_new ::
  "hash_api \<Rightarrow> nat \<Rightarrow> nat \<Rightarrow> string \<Rightarrow> string \<Rightarrow> rule_metadata \<Rightarrow> detection_finding" where
  "detection_finding_new H start fin matched pointer metadata =
     \<lparr>df_start = start, df_end = fin, df_matched = matched,
      df_matched_sha256 = sha256_hex H matched, df_pointer = pointer, df_metadata = metadata\<rparr>"

section \<open>High-entropy tokens\<close>

record entropy_token =
  et_start :: nat
  et_end :: nat
  et_value :: string

definition is_entropy_char :: "string \<Rightarrow> bool" where
  "is_entropy_char ch \<longleftrightarrow>
     (case ch of [c] \<Rightarrow> is_ascii_alphanumeric c \<or> c \<in> set ''-_./+='' | _ \<Rightarrow> False)"

definition byte_counts :: "string \<Rightarrow> nat list" where
  "byte_counts value = map (\<lambda>b. count_list value (char_of b)) [0 ..< 256]"

definition shannon_entropy :: "string \<Rightarrow> real" where
  "shannon_entropy value =
     (let len = real (length value) in
      sum_list (map (\<lambda>count. let p = real count / len in - p * log 2 p)
        (filter (\<lambda>count. count > 0) (byte_counts value))))"

definition entropy_emit :: "nat \<Rightarrow> real \<Rightarrow> nat \<Rightarrow> nat \<Rightarrow> string \<Rightarrow> entropy_token list" where
  "entropy_emit min_length min_entropy beg fin token =
     (if length token \<ge> min_length \<and> shannon_entropy token \<ge> min_entropy
      then [\<lparr>et_start = beg, et_end = fin, et_value = token\<rparr>] else [])"

fun entropy_loop ::
  "string \<Rightarrow> nat \<Rightarrow> real \<Rightarrow> nat option \<Rightarrow> (nat \<times> string) list \<Rightarrow> entropy_token list" where
  "entropy_loop input ml me start [] =
     (case start of
        Some b \<Rightarrow> entropy_emit ml me b (length input) (drop b input)
      | None \<Rightarrow> [])"
| "entropy_loop input ml me start ((idx, ch) # rest) =
     (if is_entropy_char ch
      then entropy_loop input ml me (case start of None \<Rightarrow> Some idx | Some b \<Rightarrow> Some b) rest
      else (case start of
          Some b \<Rightarrow> entropy_emit ml me b idx (take (idx - b) (drop b input)) @
                    entropy_loop input ml me None rest
        | None \<Rightarrow> entropy_loop input ml me None rest))"

definition high_entropy_tokens :: "string \<Rightarrow> nat \<Rightarrow> real \<Rightarrow> entropy_token list" where
  "high_entropy_tokens input min_length min_entropy =
     entropy_loop input min_length min_entropy None (char_indices input)"

section \<open>The detector\<close>

record compiled_rule =
  cr_regex :: string
  cr_metadata :: rule_metadata

record compiled_high_entropy_rule =
  ch_min_length :: nat
  ch_min_entropy :: real
  ch_metadata :: rule_metadata

record detector =
  dt_ignore_json_pointers :: "string set"
  dt_rules :: "compiled_rule list"
  dt_rule_set :: "string list option"
  dt_high_entropy :: "compiled_high_entropy_rule option"

definition to_metadata :: "detection_rule_config \<Rightarrow> rule_metadata" where
  "to_metadata rule =
     \<lparr>rm_rule_name = dr_name rule, rm_label = dr_label rule, rm_severity = dr_severity rule,
      rm_authorized_action = dr_authorized_action rule,
      rm_unauthorized_action = dr_unauthorized_action rule,
      rm_min_clearance = dr_min_clearance rule, rm_masking = dr_masking rule\<rparr>"

definition to_high_entropy_metadata :: "high_entropy_rule_config \<Rightarrow> rule_metadata" where
  "to_high_entropy_metadata rule =
     \<lparr>rm_rule_name = ''high_entropy'', rm_label = he_label rule, rm_severity = he_severity rule,
      rm_authorized_action = he_authorized_action rule,
      rm_unauthorized_action = he_unauthorized_action rule,
      rm_min_clearance = he_min_clearance rule, rm_masking = he_masking rule\<rparr>"

fun compile_rules ::
  "regex_api \<Rightarrow> detection_rule_config list \<Rightarrow> detector_error + compiled_rule list" where
  "compile_rules R [] = Inr []"
| "compile_rules R (rule # rules) =
     (case rx_error R (dr_pattern rule) of
        Some source \<Rightarrow> Inl (InvalidRegex (dr_name rule) source)
      | None \<Rightarrow>
          (case compile_rules R rules of
             Inl e \<Rightarrow> Inl e
           | Inr cs \<Rightarrow>
               Inr (\<lparr>cr_regex = dr_pattern rule, cr_metadata = to_metadata rule\<rparr> # cs)))"

definition compile_high_entropy ::
  "high_entropy_rule_config option \<Rightarrow> compiled_high_entropy_rule option" where
  "compile_high_entropy he =
     (case he of
        Some rule \<Rightarrow>
          (if he_enabled rule
           then Some \<lparr>ch_min_length = he_min_length rule, ch_min_entropy = he_min_entropy rule,
                      ch_metadata = to_high_entropy_metadata rule\<rparr>
           else None)
      | None \<Rightarrow> None)"

definition detector_new :: "regex_api \<Rightarrow> detection_config \<Rightarrow> detector_error + detector" where
  "detector_new R config =
     (case compile_rules R (dc_rules config) of
        Inl e \<Rightarrow> Inl e
      | Inr rules \<Rightarrow>
          (let pats = map dr_pattern (dc_rules config) in
           if dc_rules config = [] then
             Inr \<lparr>dt_ignore_json_pointers = dc_ignore_json_pointers config, dt_rules = rules,
                  dt_rule_set = None,
                  dt_high_entropy = compile_high_entropy (dc_high_entropy config)\<rparr>
           else
             (case rx_set_error R pats of
                Some source \<Rightarrow> Inl (InvalidRegex ''__regex_set__'' source)
              | None \<Rightarrow>
                  Inr \<lparr>dt_ignore_json_pointers = dc_ignore_json_pointers config, dt_rules = rules,
                       dt_rule_set = Some pats,
                       dt_high_entropy = compile_high_entropy (dc_high_entropy config)\<rparr>)))"

definition should_ignore_pointer :: "detector \<Rightarrow> string \<Rightarrow> bool" where
  "should_ignore_pointer d pointer \<longleftrightarrow> pointer \<in> dt_ignore_json_pointers d"

text \<open>\<open>captures.get(1).or_else(|| captures.get(0))\<close>, \<open>None\<close> being the \<open>continue\<close>.\<close>

definition capture_get :: "(nat \<times> nat) option list \<Rightarrow> nat \<Rightarrow> (nat \<times> nat) option" where
  "capture_get caps i = (if i < length caps then caps ! i else None)"

definition capture_span :: "(nat \<times> nat) option list \<Rightarrow> (nat \<times> nat) option" where
  "capture_span caps = (case capture_get caps 1 of Some sp \<Rightarrow> Some sp | None \<Rightarrow> capture_get caps 0)"

definition span_finding ::
  "hash_api \<Rightarrow> string \<Rightarrow> string \<Rightarrow> rule_metadata \<Rightarrow> nat \<times> nat \<Rightarrow> detection_finding" where
  "span_finding H text pointer md sp =
     detection_finding_new H (fst sp) (snd sp) (take (snd sp - fst sp) (drop (fst sp) text)) pointer md"

definition rule_spans :: "regex_api \<Rightarrow> compiled_rule \<Rightarrow> string \<Rightarrow> (nat \<times> nat) list" where
  "rule_spans R rule text =
     (if rx_captures_len R (cr_regex rule) > 1
      then List.map_filter capture_span (rx_captures_iter R (cr_regex rule) text)
      else rx_find_iter R (cr_regex rule) text)"

definition regex_findings ::
  "regex_api \<Rightarrow> hash_api \<Rightarrow> detector \<Rightarrow> string \<Rightarrow> string \<Rightarrow> detection_finding list" where
  "regex_findings R H d text pointer =
     (case dt_rule_set d of
        None \<Rightarrow> []
      | Some pats \<Rightarrow>
          concat (map (\<lambda>idx. map (span_finding H text pointer (cr_metadata (dt_rules d ! idx)))
              (rule_spans R (dt_rules d ! idx) text))
            (filter (rx_set_matched R pats text) [0 ..< length pats])))"

definition entropy_findings ::
  "hash_api \<Rightarrow> compiled_high_entropy_rule option \<Rightarrow> string \<Rightarrow> string \<Rightarrow> detection_finding list" where
  "entropy_findings H he text pointer =
     (case he of
        None \<Rightarrow> []
      | Some rule \<Rightarrow>
          map (\<lambda>t. detection_finding_new H (et_start t) (et_end t) (et_value t) pointer
                (ch_metadata rule))
            (high_entropy_tokens text (ch_min_length rule) (ch_min_entropy rule)))"

definition scan_text ::
  "regex_api \<Rightarrow> hash_api \<Rightarrow> detector \<Rightarrow> string \<Rightarrow> string \<Rightarrow> detection_finding list" where
  "scan_text R H d text pointer =
     regex_findings R H d text pointer @ entropy_findings H (dt_high_entropy d) text pointer"


section \<open>The detector is consistent\<close>

text \<open>
  \<open>self.rules[idx]\<close> cannot be out of range: the rule set has one pattern per compiled rule.
\<close>

definition detector_wf :: "detector \<Rightarrow> bool" where
  "detector_wf d \<longleftrightarrow>
     (case dt_rule_set d of Some pats \<Rightarrow> pats = map cr_regex (dt_rules d) | None \<Rightarrow> dt_rules d = [])"

lemma compile_rules_Inr:
  "compile_rules R rules = Inr cs \<Longrightarrow>
     cs = map (\<lambda>r. \<lparr>cr_regex = dr_pattern r, cr_metadata = to_metadata r\<rparr>) rules \<and>
     (\<forall>r \<in> set rules. rx_error R (dr_pattern r) = None)"
  by (induction rules arbitrary: cs) (auto split: option.splits sum.splits)

lemma compile_rules_Inl_iff:
  "(\<exists>e. compile_rules R rules = Inl e) \<longleftrightarrow> (\<exists>r \<in> set rules. rx_error R (dr_pattern r) \<noteq> None)"
  by (induction rules) (auto split: option.splits sum.splits)

lemma detector_new_Inr:
  assumes "detector_new R config = Inr d"
  shows "detector_wf d \<and> dt_ignore_json_pointers d = dc_ignore_json_pointers config \<and>
    dt_rules d = map (\<lambda>r. \<lparr>cr_regex = dr_pattern r, cr_metadata = to_metadata r\<rparr>) (dc_rules config) \<and>
    dt_high_entropy d = compile_high_entropy (dc_high_entropy config)"
proof -
  from assms obtain cs where cs: "compile_rules R (dc_rules config) = Inr cs"
    by (auto simp: detector_new_def split: sum.splits)
  with assms show ?thesis
    by (auto simp: detector_new_def detector_wf_def Let_def comp_def dest: compile_rules_Inr
        split: if_splits option.splits)
qed

section \<open>The tokenizer finds the maximal runs\<close>

text \<open>
  The reference: the maximal runs of entropy characters, with the byte offset of each.
\<close>

function entropy_runs :: "nat \<Rightarrow> string list \<Rightarrow> (nat \<times> string list) list" where
  "entropy_runs i [] = []"
| "entropy_runs i (ch # chs) =
     (if is_entropy_char ch
      then (i, ch # takeWhile is_entropy_char chs) #
           entropy_runs (i + length ch + length (concat (takeWhile is_entropy_char chs)))
             (dropWhile is_entropy_char chs)
      else entropy_runs (i + length ch) chs)"
  by pat_completeness auto
termination
  by (relation "measure (length \<circ> snd)") (auto simp: length_dropWhile_le less_Suc_eq_le)

definition run_tokens :: "nat \<Rightarrow> real \<Rightarrow> (nat \<times> string list) list \<Rightarrow> entropy_token list" where
  "run_tokens ml me rs =
     concat (map (\<lambda>(i, run). entropy_emit ml me i (i + length (concat run)) (concat run)) rs)"

lemma entropy_loop_run:
  assumes "input = pre @ concat run @ concat chs" and "i = length pre + length (concat run)"
  shows "entropy_loop input ml me (Some (length pre)) (char_indices_from i chs) =
    entropy_emit ml me (length pre) (length pre + length (concat run @ concat (takeWhile is_entropy_char chs)))
      (concat run @ concat (takeWhile is_entropy_char chs)) @
    entropy_loop input ml me None
      (char_indices_from (i + length (concat (takeWhile is_entropy_char chs)))
        (dropWhile is_entropy_char chs))"
  using assms
proof (induction chs arbitrary: run i)
  case Nil
  then show ?case by simp
next
  case (Cons ch chs)
  show ?case
  proof (cases "is_entropy_char ch")
    case True
    have "entropy_loop input ml me (Some (length pre)) (char_indices_from (i + length ch) chs) =
      entropy_emit ml me (length pre)
        (length pre + length (concat (run @ [ch]) @ concat (takeWhile is_entropy_char chs)))
        (concat (run @ [ch]) @ concat (takeWhile is_entropy_char chs)) @
      entropy_loop input ml me None
        (char_indices_from (i + length ch + length (concat (takeWhile is_entropy_char chs)))
          (dropWhile is_entropy_char chs))"
      using Cons.prems by (intro Cons.IH) simp_all
    with True show ?thesis by (simp add: add.assoc)
  next
    case False
    with Cons.prems show ?thesis by simp
  qed
qed

lemma entropy_loop_runs:
  "input = pre @ concat chs \<Longrightarrow> i = length pre \<Longrightarrow>
   entropy_loop input ml me None (char_indices_from i chs) = run_tokens ml me (entropy_runs i chs)"
proof (induction i chs arbitrary: pre rule: entropy_runs.induct)
  case (1 i)
  then show ?case by (simp add: run_tokens_def)
next
  case (2 i ch chs)
  let ?T = "takeWhile is_entropy_char chs" and ?D = "dropWhile is_entropy_char chs"
  show ?case
  proof (cases "is_entropy_char ch")
    case True
    have split: "concat chs = concat ?T @ concat ?D"
      by (metis concat_append takeWhile_dropWhile_id)
    have "entropy_loop input ml me None
        (char_indices_from (i + length ch + length (concat ?T)) ?D) =
      run_tokens ml me (entropy_runs (i + length ch + length (concat ?T)) ?D)"
      using 2 True split by (intro "2.IH"(1) [of "pre @ ch @ concat ?T"]) simp_all
    moreover have "entropy_loop input ml me (Some (length pre)) (char_indices_from (i + length ch) chs) =
      entropy_emit ml me (length pre) (length pre + length (concat [ch] @ concat ?T))
        (concat [ch] @ concat ?T) @
      entropy_loop input ml me None (char_indices_from (i + length ch + length (concat ?T)) ?D)"
      using "2.prems" by (intro entropy_loop_run) simp_all
    ultimately show ?thesis using True "2.prems" by (simp add: run_tokens_def)
  next
    case False
    with 2 show ?thesis by simp
  qed
qed

lemma high_entropy_tokens_runs:
  "high_entropy_tokens input ml me = run_tokens ml me (entropy_runs 0 (utf8_chars input))"
  unfolding high_entropy_tokens_def char_indices_def
  by (rule entropy_loop_runs [of _ "[]"]) simp_all


lemma entropy_runs_sound:
  "(j, run) \<in> set (entropy_runs i chs) \<Longrightarrow>
     \<exists>a b. chs = a @ run @ b \<and> j = i + length (concat a) \<and> run \<noteq> [] \<and>
       (\<forall>ch \<in> set run. is_entropy_char ch) \<and> (b = [] \<or> \<not> is_entropy_char (hd b))"
proof (induction i chs rule: entropy_runs.induct)
  case (1 i)
  then show ?case by simp
next
  case (2 i ch chs)
  let ?T = "takeWhile is_entropy_char chs" and ?D = "dropWhile is_entropy_char chs"
  have split: "chs = ?T @ ?D" by simp
  show ?case
  proof (cases "is_entropy_char ch")
    case False
    with 2 obtain a b where "chs = a @ run @ b" "j = i + length ch + length (concat a)"
      "run \<noteq> []" "\<forall>ch \<in> set run. is_entropy_char ch" "b = [] \<or> \<not> is_entropy_char (hd b)"
      by auto
    then show ?thesis by (intro exI [of _ "ch # a"] exI [of _ b]) simp
  next
    case True
    with "2.prems" consider "j = i" "run = ch # ?T"
      | "(j, run) \<in> set (entropy_runs (i + length ch + length (concat ?T)) ?D)"
      by auto
    then show ?thesis
    proof cases
      case 1
      have "?D = [] \<or> \<not> is_entropy_char (hd ?D)"
        using hd_dropWhile by blast
      with 1 True split show ?thesis
        by (intro exI [of _ "[]"] exI [of _ ?D]) (auto dest: set_takeWhileD)
    next
      case 2
      from "2.IH"(1) [OF True this] obtain a b where ab: "?D = a @ run @ b"
        "j = i + length ch + length (concat ?T) + length (concat a)"
        "run \<noteq> []" "\<forall>ch \<in> set run. is_entropy_char ch" "b = [] \<or> \<not> is_entropy_char (hd b)"
        by auto
      have "chs = ?T @ a @ run @ b" using split ab(1) by simp
      then have "ch # chs = (ch # ?T @ a) @ run @ b" by simp
      with ab show ?thesis by (intro exI [of _ "ch # ?T @ a"] exI [of _ b]) simp
    qed
  qed
qed

section \<open>Where a finding lies\<close>

text \<open>
  A finding is well placed in a text when its span is a legal slice of the text and the slice is
  the matched string. Whatever produces findings promises exactly this to the redactor: the
  interface \<open>span_source\<close>.
\<close>

definition finding_wf :: "string \<Rightarrow> detection_finding \<Rightarrow> bool" where
  "finding_wf text f \<longleftrightarrow> str_slice text (df_start f) (df_end f) = Some (df_matched f)"

locale span_source =
  fixes scan :: "string \<Rightarrow> string \<Rightarrow> detection_finding list"
  assumes scan_wf: "f \<in> set (scan text pointer) \<Longrightarrow> finding_wf text f"
    and scan_pointer: "f \<in> set (scan text pointer) \<Longrightarrow> df_pointer f = pointer"
begin

lemma scan_bounds:
  assumes "f \<in> set (scan text pointer)"
  shows "df_start f \<le> df_end f \<and> df_end f \<le> length text"
  using scan_wf [OF assms]
  by (simp add: finding_wf_def str_slice_Some_iff is_char_boundary_le)

end

lemma high_entropy_tokens_wf:
  assumes "t \<in> set (high_entropy_tokens text ml me)"
  shows "str_slice text (et_start t) (et_end t) = Some (et_value t)"
proof -
  from assms obtain i run where run: "(i, run) \<in> set (entropy_runs 0 (utf8_chars text))"
    and t: "t = \<lparr>et_start = i, et_end = i + length (concat run), et_value = concat run\<rparr>"
    by (auto simp: high_entropy_tokens_runs run_tokens_def entropy_emit_def split: if_splits)
  from entropy_runs_sound [OF run] obtain a b where ab: "utf8_chars text = a @ run @ b"
    "i = length (concat a)" by auto
  have bounds: "is_char_boundary text i" "is_char_boundary text (i + length (concat run))"
    using utf8_chars_boundary [of "text" a "run @ b"] utf8_chars_boundary [of "text" "a @ run" b] ab
    by simp_all
  have "text = concat a @ concat run @ concat b"
    using ab(1) by (metis concat_append concat_utf8_chars)
  with bounds ab(2) t show ?thesis by (simp add: str_slice_Some_iff)
qed

interpretation entropy: span_source "entropy_findings H he" for H he
proof (unfold_locales, goal_cases)
  case (1 f src pointer)
  then show ?case
    by (auto simp: entropy_findings_def finding_wf_def detection_finding_new_def
        high_entropy_tokens_wf split: option.splits)
next
  case (2 f src pointer)
  then show ?case
    by (auto simp: entropy_findings_def detection_finding_new_def split: option.splits)
qed

lemma capture_get_in_set: "capture_get caps i = Some sp \<Longrightarrow> Some sp \<in> set caps"
  by (auto simp: capture_get_def in_set_conv_nth split: if_splits)

lemma rule_spans_ok:
  assumes "regex_sound R" and "sp \<in> set (rule_spans R rule text)"
  shows "span_ok text sp"
proof (cases "rx_captures_len R (cr_regex rule) > 1")
  case True
  with assms(2) obtain caps where "caps \<in> set (rx_captures_iter R (cr_regex rule) text)"
    and "capture_span caps = Some sp"
    by (auto simp: rule_spans_def map_filter_def)
  moreover from this have "Some sp \<in> set caps"
    by (auto simp: capture_span_def dest: capture_get_in_set split: option.splits)
  ultimately show ?thesis using assms(1) unfolding regex_sound_def by blast
next
  case False
  with assms show ?thesis unfolding rule_spans_def regex_sound_def by simp
qed

lemma scan_text_wf:
  assumes "regex_sound R" and "f \<in> set (scan_text R H d text pointer)"
  shows "finding_wf text f \<and> df_pointer f = pointer"
proof -
  consider "f \<in> set (regex_findings R H d text pointer)"
    | "f \<in> set (entropy_findings H (dt_high_entropy d) text pointer)"
    using assms(2) by (auto simp: scan_text_def)
  then show ?thesis
  proof cases
    case 1
    then obtain rule md sp where sp: "sp \<in> set (rule_spans R rule text)"
      and f: "f = span_finding H text pointer md sp"
      by (auto simp: regex_findings_def split: option.splits)
    from rule_spans_ok [OF assms(1) sp] f show ?thesis
      by (auto simp: finding_wf_def span_finding_def detection_finding_new_def span_ok_def
          str_slice_def split: if_splits)
  next
    case 2
    then show ?thesis by (simp add: entropy.scan_wf entropy.scan_pointer)
  qed
qed

text \<open>With a sound regex engine the whole detector is a source of well-placed spans.\<close>

lemma scan_text_span_source: "regex_sound R \<Longrightarrow> span_source (scan_text R H d)"
  by unfold_locales (use scan_text_wf in blast)+

lemma scan_text_metadata:
  assumes "detector_wf d" and "f \<in> set (scan_text R H d text pointer)"
  shows "(\<exists>rule \<in> set (dt_rules d). df_metadata f = cr_metadata rule) \<or>
    (\<exists>he. dt_high_entropy d = Some he \<and> df_metadata f = ch_metadata he)"
proof -
  consider "f \<in> set (regex_findings R H d text pointer)"
    | "f \<in> set (entropy_findings H (dt_high_entropy d) text pointer)"
    using assms(2) by (auto simp: scan_text_def)
  then show ?thesis
  proof cases
    case 1
    with assms(1) show ?thesis
      by (auto simp: regex_findings_def span_finding_def detection_finding_new_def
          detector_wf_def split: option.splits)
  next
    case 2
    then show ?thesis
      by (cases "dt_high_entropy d")
        (auto simp: entropy_findings_def detection_finding_new_def)
  qed
qed

section \<open>Entropy is between 0 and 8 bits\<close>

lemma sum_byte_counts: "sum_list (byte_counts v) = length v"
proof -
  have inj: "inj_on (char_of :: nat \<Rightarrow> char) {0 ..< 256}"
    by (rule inj_on_char_of_nat)
  have "sum_list (byte_counts v) = (\<Sum>b \<in> {0 ..< 256 :: nat}. count_list v (char_of b))"
    by (simp add: byte_counts_def interv_sum_list_conv_sum_set_nat)
  also have "\<dots> = (\<Sum>c \<in> (char_of :: nat \<Rightarrow> char) ` {0 ..< 256}. count_list v c)"
    by (subst sum.reindex [OF inj]) simp
  also have "\<dots> = length v"
    by (rule sum_count_set) (auto simp flip: UNIV_char_of_nat)
  finally show ?thesis .
qed

lemma sum_list_filter_pos: "sum_list (filter (\<lambda>c. c > 0) xs) = sum_list (xs :: nat list)"
  by (induction xs) auto

lemma entropy_term_le:
  assumes "0 < (p :: real)"
  shows "- p * log 2 p \<le> 8 * p + (1 / 256 - p) * (1 / ln 2)"
proof -
  have "- p * ln p - 8 * p * ln 2 = p * ln (1 / (256 * p))"
    using assms by (simp add: ln_div ln_mult algebra_simps ln_realpow [of 2 8, simplified])
  also have "\<dots> \<le> p * (1 / (256 * p) - 1)"
    using assms by (intro mult_left_mono ln_le_minus_one) auto
  also have "\<dots> = 1 / 256 - p" using assms by (simp add: field_simps)
  finally have "(- p * ln p - 8 * p * ln 2) / ln 2 \<le> (1 / 256 - p) / ln 2"
    by (intro divide_right_mono) auto
  then show ?thesis by (simp add: log_def diff_divide_distrib)
qed

definition entropy_bits :: "nat \<Rightarrow> nat \<Rightarrow> real" where
  "entropy_bits n c = (let p = real c / real n in - p * log 2 p)"

lemma shannon_entropy_bits:
  "shannon_entropy v = sum_list (map (entropy_bits (length v)) (filter (\<lambda>c. c > 0) (byte_counts v)))"
  by (simp add: shannon_entropy_def entropy_bits_def [abs_def] Let_def)

lemma entropy_bits_le:
  assumes "0 < n" and "0 < c"
  shows "entropy_bits n c \<le> 8 * (real c / real n) + (1 / 256 - real c / real n) * (1 / ln 2)"
  unfolding entropy_bits_def Let_def using assms by (intro entropy_term_le) simp

lemma entropy_bits_sum_le:
  assumes "0 < n" and "\<forall>c \<in> set cs. 0 < c"
  shows "sum_list (map (entropy_bits n) cs) \<le>
    8 * (real (sum_list cs) / real n) + (real (length cs) / 256 - real (sum_list cs) / real n) * (1 / ln 2)"
  using assms(2)
proof (induction cs)
  case (Cons c cs)
  have "entropy_bits n c \<le> 8 * (real c / real n) + (1 / 256 - real c / real n) * (1 / ln 2)"
    using Cons.prems assms(1) by (intro entropy_bits_le) simp_all
  with Cons show ?case
    by (simp add: add_divide_distrib diff_divide_distrib distrib_left)
qed simp

lemma entropy_bits_nonneg:
  assumes "c \<le> n"
  shows "0 \<le> entropy_bits n c"
proof (cases "real c / real n = 0")
  case True
  then show ?thesis by (simp only: entropy_bits_def Let_def)
next
  case False
  with assms have p: "0 < real c / real n" "real c / real n \<le> 1"
    by (simp_all add: zero_less_divide_iff divide_le_eq_1)
  then have "log 2 (real c / real n) \<le> 0" by (simp only: log_le_zero_cancel_iff)
  with p(1) have "real c / real n * log 2 (real c / real n) \<le> 0"
    by (rule mult_nonneg_nonpos [OF less_imp_le])
  then show ?thesis unfolding entropy_bits_def Let_def by simp
qed

lemma shannon_entropy_nonneg: "0 \<le> shannon_entropy v"
  unfolding shannon_entropy_bits
  by (intro sum_list_nonneg) (auto simp: byte_counts_def count_le_length intro!: entropy_bits_nonneg)

lemma shannon_entropy_le_8: "shannon_entropy v \<le> 8"
proof (cases "v = []")
  case True
  then show ?thesis by (simp add: shannon_entropy_bits byte_counts_def)
next
  case False
  let ?cs = "filter (\<lambda>c. c > 0) (byte_counts v)"
  have "length ?cs \<le> 256"
    using length_filter_le [of "\<lambda>c. c > 0" "byte_counts v"] by (simp add: byte_counts_def)
  then have "(real (length ?cs) / 256 - 1) * (1 / ln 2) \<le> 0"
    by (intro mult_nonpos_nonneg) auto
  moreover have "shannon_entropy v \<le> 8 + (real (length ?cs) / 256 - 1) * (1 / ln 2)"
    using entropy_bits_sum_le [of "length v" ?cs] False
    by (simp add: shannon_entropy_bits sum_list_filter_pos sum_byte_counts)
  ultimately show ?thesis by simp
qed

end
