(* ===== verification/Core_Policy.thy ===== *)
theory Core_Policy
  imports Core_Detect
begin

text \<open>
  \<open>crates/ctxward-core/src/auth.rs\<close> and \<open>policy.rs\<close>: principals, the authenticator over the
  configured secret hashes, and the policy engine that turns findings into resolved findings and
  one decision.
\<close>

section \<open>Principals and authentication\<close>

record principal =
  pr_name :: string
  pr_tenant_id :: string
  pr_role :: string
  pr_clearance :: clearance
  pr_allowed_labels :: "string set"

definition principal_from :: "principal_config \<Rightarrow> principal" where
  "principal_from v =
     \<lparr>pr_name = pc_name v, pr_tenant_id = pc_tenant_id v, pr_role = pc_role v,
      pr_clearance = pc_clearance v, pr_allowed_labels = pc_allowed_labels v\<rparr>"

datatype auth_error = InvalidHeaderName | MissingCredentials | InvalidCredentials

text \<open>
  The \<open>http\<close> crate: the conversion of a name to a \<open>HeaderName\<close> (\<open>None\<close> when refused) and
  \<open>HeaderValue::to_str\<close>; the Unicode case tables of the standard library. A header map is the
  list of its entries in order, names as the crate stores them; \<open>get\<close> returns the first value.
\<close>

record http_api =
  ht_header_name :: "string \<Rightarrow> string option"
  ht_to_str :: "string \<Rightarrow> string option"

record unicode_api =
  uc_to_lowercase :: "string \<Rightarrow> string"
  uc_to_uppercase :: "string \<Rightarrow> string"

type_synonym header_map = "(string \<times> string) list"

definition header_get :: "header_map \<Rightarrow> string \<Rightarrow> string option" where
  "header_get hs name = map_of hs name"

record authenticator =
  an_header_name :: string
  an_principal_by_hash :: "(string, principal) hmap"

definition authenticator_new ::
  "http_api \<Rightarrow> unicode_api \<Rightarrow> auth_config \<Rightarrow> auth_error + authenticator" where
  "authenticator_new W U config =
     (case ht_header_name W (uc_to_lowercase U (ac_header_name config)) of
        None \<Rightarrow> Inl InvalidHeaderName
      | Some name \<Rightarrow>
          Inr \<lparr>an_header_name = name,
               an_principal_by_hash =
                 hm_from_list (map (\<lambda>p. (uc_to_lowercase U (pc_secret_sha256 p), principal_from p))
                   (ac_principals config))\<rparr>)"

text \<open>The secret of a header value: the \<open>Bearer\<close> prefix is optional, in two spellings.\<close>

definition bearer_secret :: "string \<Rightarrow> string \<Rightarrow> string" where
  "bearer_secret header_name value =
     (if header_name = ''authorization'' then
        (case strip_prefix value ''Bearer '' of
           Some s \<Rightarrow> s
         | None \<Rightarrow> (case strip_prefix value ''bearer '' of Some s \<Rightarrow> s | None \<Rightarrow> value))
      else value)"

definition authenticate ::
  "http_api \<Rightarrow> hash_api \<Rightarrow> authenticator \<Rightarrow> header_map \<Rightarrow> auth_error + principal" where
  "authenticate W H a headers =
     (case header_get headers (an_header_name a) of
        None \<Rightarrow> Inl MissingCredentials
      | Some raw \<Rightarrow>
          (case ht_to_str W raw of
             None \<Rightarrow> Inl InvalidCredentials
           | Some value \<Rightarrow>
               (case hm_get (an_principal_by_hash a)
                       (sha256_hex H (bearer_secret (an_header_name a) value)) of
                  None \<Rightarrow> Inl InvalidCredentials
                | Some p \<Rightarrow> Inr p)))"

section \<open>Resolving findings\<close>

record resolved_finding =
  rs_label :: string
  rs_rule_name :: string
  rs_action :: decision_action
  rs_effective_action :: decision_action
  rs_pointer :: string
  rs_severity :: severity
  rs_masking :: masking_strategy
  rs_matched_sha256 :: string
  rs_matched_len :: nat
  rs_start :: nat
  rs_end :: nat
  rs_matched :: string

record policy_outcome =
  po_decision :: decision_action
  po_findings :: "resolved_finding list"
  po_source :: string
  po_reason :: "string option"

definition authorized :: "principal \<Rightarrow> rule_metadata \<Rightarrow> bool" where
  "authorized who md \<longleftrightarrow>
     pr_clearance who \<ge> rm_min_clearance md \<and> rm_label md \<in> pr_allowed_labels who"

definition finding_action :: "principal \<Rightarrow> detection_finding \<Rightarrow> decision_action" where
  "finding_action who f =
     (if authorized who (df_metadata f)
      then rm_authorized_action (df_metadata f) else rm_unauthorized_action (df_metadata f))"

fun effective_action :: "direction \<Rightarrow> decision_action \<Rightarrow> decision_action" where
  "effective_action Request a = a"
| "effective_action Response a = (if a = Allow then Allow else Redact)"

definition resolve_finding ::
  "principal \<Rightarrow> direction \<Rightarrow> detection_finding \<Rightarrow> resolved_finding" where
  "resolve_finding who dir f =
     \<lparr>rs_label = rm_label (df_metadata f), rs_rule_name = rm_rule_name (df_metadata f),
      rs_action = finding_action who f,
      rs_effective_action = effective_action dir (finding_action who f),
      rs_pointer = df_pointer f, rs_severity = rm_severity (df_metadata f),
      rs_masking = rm_masking (df_metadata f), rs_matched_sha256 = df_matched_sha256 f,
      rs_matched_len = length (df_matched f), rs_start = df_start f, rs_end = df_end f,
      rs_matched = df_matched f\<rparr>"

definition policy_resolve ::
  "principal \<Rightarrow> detection_finding list \<Rightarrow> direction \<Rightarrow> policy_outcome" where
  "policy_resolve who findings dir =
     \<lparr>po_decision = fold (\<lambda>f d. combine d (finding_action who f)) findings Allow,
      po_findings = map (resolve_finding who dir) findings,
      po_source = ''builtin'', po_reason = None\<rparr>"

text \<open>The fixed principal of the extension (\<open>redact_api.rs\<close>) and of the desktop proxy.\<close>

definition local_principal :: "string \<Rightarrow> principal" where
  "local_principal name =
     \<lparr>pr_name = name, pr_tenant_id = ''local'', pr_role = ''local'', pr_clearance = Public,
      pr_allowed_labels = {}\<rparr>"

section \<open>What authentication guarantees\<close>

lemma authenticate_Inr_iff:
  "authenticate W H a headers = Inr p \<longleftrightarrow>
     (\<exists>raw value. header_get headers (an_header_name a) = Some raw \<and> ht_to_str W raw = Some value \<and>
       hm_get (an_principal_by_hash a)
         (sha256_hex H (bearer_secret (an_header_name a) value)) = Some p)"
  by (auto simp: authenticate_def split: option.splits)

lemma authenticator_new_get:
  assumes "authenticator_new W U config = Inr a"
    and "hm_get (an_principal_by_hash a) h = Some p"
  shows "\<exists>pc \<in> set (ac_principals config).
    p = principal_from pc \<and> h = uc_to_lowercase U (pc_secret_sha256 pc)"
  using assms
  by (fastforce simp: authenticator_new_def hm_get_from_list split: option.splits dest!: map_of_SomeD)

section \<open>What the policy engine guarantees\<close>

lemma po_decision_resolve: "po_decision (policy_resolve p fs dir) = strictest (finding_action p) fs"
  by (simp add: policy_resolve_def strictest_def)

lemma po_decision_resolve_findings:
  "po_decision (policy_resolve p fs dir) = strictest rs_action (po_findings (policy_resolve p fs dir))"
  by (simp add: po_decision_resolve strictest_map)
    (simp add: policy_resolve_def strictest_map comp_def resolve_finding_def)

lemma resolve_response_effective:
  "r \<in> set (po_findings (policy_resolve p fs Response)) \<Longrightarrow>
     rs_effective_action r \<in> {Allow, Redact} \<and> (rs_effective_action r = Allow \<longleftrightarrow> rs_action r = Allow)"
  by (auto simp: policy_resolve_def resolve_finding_def split: if_splits)

lemma resolve_request_effective:
  "r \<in> set (po_findings (policy_resolve p fs Request)) \<Longrightarrow> rs_effective_action r = rs_action r"
  by (auto simp: policy_resolve_def resolve_finding_def)

lemma local_principal_unauthorized:
  "finding_action (local_principal name) f = rm_unauthorized_action (df_metadata f)"
  by (simp add: finding_action_def authorized_def local_principal_def)

text \<open>
  A stronger principal (higher clearance, more labels) is never treated more strictly, for rules
  whose authorised action is at most as strict as their unauthorised one.
\<close>

lemma finding_action_antimono:
  assumes "pr_clearance p \<le> pr_clearance q" and "pr_allowed_labels p \<subseteq> pr_allowed_labels q"
    and "rank (rm_authorized_action (df_metadata f)) \<le> rank (rm_unauthorized_action (df_metadata f))"
  shows "rank (finding_action q f) \<le> rank (finding_action p f)"
  using assms by (auto simp: finding_action_def authorized_def)

lemma fold_strictest_mono:
  "(\<And>x. x \<in> set xs \<Longrightarrow> rank (f x) \<le> rank (g x)) \<Longrightarrow> rank (strictest f xs) \<le> rank (strictest g xs)"
  by (induction xs) (fastforce simp: decisions.strictness_join)+

end
