(* ===== verification/Core_Tokenize.thy ===== *)
theory Core_Tokenize
  imports Core_Policy
begin

text \<open>
  \<open>crates/ctxward-core/src/tokenize.rs\<close>: reversible tokens. AES-256-GCM-SIV, base64, hex and the
  JSON encoding of the token payload are parameters (\<open>crypto_api\<close>); what the code relies on is
  \<open>crypto_sound\<close>. The random UUID that gives the nonce is an argument of \<open>tokenize\<close>.
\<close>

section \<open>Parameters\<close>

record detokenized_value =
  dv_label :: string
  dv_value :: string

record crypto_api =
  cy_encrypt :: "string \<Rightarrow> string \<Rightarrow> string \<Rightarrow> string option"
  cy_decrypt :: "string \<Rightarrow> string \<Rightarrow> string \<Rightarrow> string option"
  cy_url_encode :: "string \<Rightarrow> string"
  cy_url_decode :: "string \<Rightarrow> string option"
  cy_std_decode :: "string \<Rightarrow> string option"
  cy_hex_decode :: "string \<Rightarrow> string option"
  cy_payload_to_vec :: "string \<Rightarrow> string \<Rightarrow> string + string"
  cy_payload_from_slice :: "string \<Rightarrow> string + detokenized_value"

text \<open>
  Decryption inverts encryption under the same key and nonce, base64 decoding inverts encoding,
  the URL-safe alphabet is letters, digits, minus and underscore, and the JSON payload reads back.
\<close>

definition url_safe_char :: "char \<Rightarrow> bool" where
  "url_safe_char c \<longleftrightarrow> is_ascii_alphanumeric c \<or> c = CHR ''-'' \<or> c = CHR ''_''"

definition crypto_sound :: "crypto_api \<Rightarrow> bool" where
  "crypto_sound C \<longleftrightarrow>
     (\<forall>k n p c. cy_encrypt C k n p = Some c \<longrightarrow> cy_decrypt C k n c = Some p) \<and>
     (\<forall>x. cy_url_decode C (cy_url_encode C x) = Some x \<and> list_all url_safe_char (cy_url_encode C x)) \<and>
     (\<forall>l v p. cy_payload_to_vec C l v = Inr p \<longrightarrow>
        cy_payload_from_slice C p = Inr \<lparr>dv_label = l, dv_value = v\<rparr>)"

section \<open>The tokenizer\<close>

datatype tokenization_error =
    RequiredButDisabled
  | MissingKeyEnv string
  | InvalidKeyLength nat
  | InvalidKeyEncoding
  | InvalidPrefix string
  | Encrypt
  | InvalidTokenFormat
  | Decrypt
  | SerializeError string
  | ParseError string

record tokenizer =
  tz_cipher :: string
  tz_token_prefix :: string
  tz_key_env :: string

definition validate_prefix :: "string \<Rightarrow> (tokenization_error, unit) rres" where
  "validate_prefix p =
     (if p = [] \<or> CHR ''.'' \<in> set p \<or> CHR '','' \<in> set p \<or> CHR ''['' \<in> set p \<or>
         CHR '']'' \<in> set p \<or> CHR '':'' \<in> set p
      then Err (InvalidPrefix p) else Ok ())"

definition decode_key :: "crypto_api \<Rightarrow> string \<Rightarrow> (tokenization_error, string) rres" where
  "decode_key C raw0 =
     (let raw = trim raw0 in
      rbind
        (if length raw = 64 \<and> list_all is_ascii_hexdigit raw
         then ok_or InvalidKeyEncoding (cy_hex_decode C raw)
         else ok_or InvalidKeyEncoding
           (case cy_url_decode C raw of Some b \<Rightarrow> Some b | None \<Rightarrow> cy_std_decode C raw))
        (\<lambda>bytes. if length bytes = 32 then Ok bytes else Err (InvalidKeyLength (length bytes))))"

text \<open>The key has 32 bytes by its type, so \<open>new_from_slice\<close> accepts it; the cipher is its key.\<close>

definition from_key_material ::
  "string \<Rightarrow> string \<Rightarrow> string \<Rightarrow> (tokenization_error, tokenizer) rres" where
  "from_key_material key token_prefix key_env =
     rbind (validate_prefix token_prefix) (\<lambda>_.
       if length key = 32
       then Ok \<lparr>tz_cipher = key, tz_token_prefix = token_prefix, tz_key_env = key_env\<rparr>
       else Err (InvalidKeyLength (length key)))"

definition tokenizer_from_config ::
  "crypto_api \<Rightarrow> (string \<Rightarrow> string option) \<Rightarrow> tokenization_config option \<Rightarrow>
     (tokenization_error, tokenizer option) rres" where
  "tokenizer_from_config C env config =
     (case config of
        None \<Rightarrow> Ok None
      | Some cfg \<Rightarrow>
          if \<not> tk_enabled cfg then Ok None
          else rbind (ok_or (MissingKeyEnv (tk_key_env cfg)) (env (tk_key_env cfg))) (\<lambda>raw_key.
            rbind (decode_key C raw_key) (\<lambda>key.
              rmap Some (from_key_material key (tk_token_prefix cfg) (tk_key_env cfg)))))"

definition tokenize ::
  "crypto_api \<Rightarrow> unicode_api \<Rightarrow> tokenizer \<Rightarrow> string \<Rightarrow> string \<Rightarrow> string \<Rightarrow>
     (tokenization_error, string) rres" where
  "tokenize C U t nonce_uuid label value =
     rbind (case cy_payload_to_vec C label value of
              Inl e \<Rightarrow> Err (SerializeError e) | Inr p \<Rightarrow> Ok p) (\<lambda>payload.
       let nonce_bytes = take 12 nonce_uuid in
       rbind (ok_or Encrypt (cy_encrypt C (tz_cipher t) nonce_bytes payload)) (\<lambda>ciphertext.
         Ok (''['' @ uc_to_uppercase U label @ ''_TOKEN:'' @ tz_token_prefix t @ ''.'' @
             cy_url_encode C nonce_bytes @ '','' @ cy_url_encode C ciphertext @ '']'')))"

definition normalize_token :: "string \<Rightarrow> (tokenization_error, string) rres" where
  "normalize_token token =
     (let trimmed = trim token in
      case Option.bind (strip_prefix trimmed ''['') (\<lambda>v. strip_suffix v '']'') of
        Some inner \<Rightarrow> rmap snd (ok_or InvalidTokenFormat (split_once CHR '':'' inner))
      | None \<Rightarrow> Ok trimmed)"

definition token_parts :: "string \<Rightarrow> (string \<times> string \<times> string) option" where
  "token_parts raw =
     Option.bind (split_once CHR ''.'' raw) (\<lambda>(prefix, remainder).
       map_option (\<lambda>(nonce, ciphertext). (prefix, nonce, ciphertext))
         (split_once CHR '','' remainder))"

definition detokenize ::
  "crypto_api \<Rightarrow> tokenizer \<Rightarrow> string \<Rightarrow> (tokenization_error, detokenized_value) rres" where
  "detokenize C t token =
     rbind (normalize_token token) (\<lambda>raw.
     rbind (ok_or InvalidTokenFormat (token_parts raw)) (\<lambda>(prefix, encoded_nonce, encoded_ciphertext).
     if prefix \<noteq> tz_token_prefix t then Err InvalidTokenFormat
     else rbind (ok_or InvalidTokenFormat (cy_url_decode C encoded_nonce)) (\<lambda>nonce_bytes.
     if length nonce_bytes \<noteq> 12 then Err InvalidTokenFormat
     else rbind (ok_or InvalidTokenFormat (cy_url_decode C encoded_ciphertext)) (\<lambda>ciphertext.
     rbind (ok_or Decrypt (cy_decrypt C (tz_cipher t) nonce_bytes ciphertext)) (\<lambda>plaintext.
     case cy_payload_from_slice C plaintext of Inl e \<Rightarrow> Err (ParseError e) | Inr v \<Rightarrow> Ok v)))))"

section \<open>Construction\<close>

lemma validate_prefix_not_Panic [simp]: "validate_prefix p \<noteq> Panic"
  by (simp add: validate_prefix_def)

definition tokenizer_wf :: "tokenizer \<Rightarrow> bool" where
  "tokenizer_wf t \<longleftrightarrow> length (tz_cipher t) = 32 \<and> validate_prefix (tz_token_prefix t) = Ok ()"

lemma from_key_material_Ok_iff:
  "from_key_material key p e = Ok t \<longleftrightarrow>
     t = \<lparr>tz_cipher = key, tz_token_prefix = p, tz_key_env = e\<rparr> \<and> tokenizer_wf t"
  by (auto simp: from_key_material_def tokenizer_wf_def rres_iffs)

lemma decode_key_length: "decode_key C raw = Ok key \<Longrightarrow> length key = 32"
  by (auto simp: decode_key_def Let_def rres_iffs split: if_splits)

lemma tokenizer_from_config_wf: "tokenizer_from_config C env cfg = Ok (Some t) \<Longrightarrow> tokenizer_wf t"
  by (auto simp: tokenizer_from_config_def rres_iffs from_key_material_Ok_iff
      split: option.splits if_splits)

section \<open>Round trip\<close>

lemma url_safe_not_delimiter:
  "list_all url_safe_char s \<Longrightarrow> CHR '','' \<notin> set s \<and> CHR ''.'' \<notin> set s"
  by (auto simp: list_all_iff url_safe_char_def is_ascii_alphanumeric_def is_ascii_upper_def
      is_ascii_lower_def is_ascii_digit_def)

lemma normalize_token_bracketed:
  "normalize_token (''['' @ s @ '']'') = rmap snd (ok_or InvalidTokenFormat (split_once CHR '':'' s))"
proof -
  have t: "trim (''['' @ s @ '']'') = ''['' @ s @ '']''"
    using trim_id [of "CHR ''[''" "CHR '']''" s] by (simp add: visible_ascii_def)
  show ?thesis
    unfolding normalize_token_def t Let_def by (simp only: strip_prefix_append strip_suffix_append
        Option.bind.simps option.case)
qed

text \<open>The text between the brackets, as \<open>tokenize\<close> writes it.\<close>

definition token_inner :: "crypto_api \<Rightarrow> tokenizer \<Rightarrow> string \<Rightarrow> string \<Rightarrow> string" where
  "token_inner C t nonce ciphertext =
     tz_token_prefix t @ ''.'' @ cy_url_encode C nonce @ '','' @ cy_url_encode C ciphertext"

lemma tokenize_OkE:
  assumes "tokenize C U t u label value = Ok token"
  obtains payload ciphertext where "cy_payload_to_vec C label value = Inr payload"
    and "cy_encrypt C (tz_cipher t) (take 12 u) payload = Some ciphertext"
    and "token = ''['' @ (uc_to_uppercase U label @ ''_TOKEN'' @ CHR '':'' # token_inner C t (take 12 u) ciphertext) @ '']''"
  using assms by (auto simp: tokenize_def token_inner_def rres_iffs Let_def split: sum.splits)

lemma prefix_no_delimiter:
  "tokenizer_wf t \<Longrightarrow> CHR ''.'' \<notin> set (tz_token_prefix t) \<and> CHR '':'' \<notin> set (tz_token_prefix t)"
  by (auto simp: tokenizer_wf_def validate_prefix_def split: if_splits)

lemma token_parts_inner:
  assumes "tokenizer_wf t" and "crypto_sound C"
  shows "token_parts (token_inner C t n c) = Some (tz_token_prefix t, cy_url_encode C n, cy_url_encode C c)"
  using prefix_no_delimiter [OF assms(1)] assms(2) url_safe_not_delimiter [of "cy_url_encode C n"]
  by (auto simp: token_parts_def token_inner_def split_once_append crypto_sound_def)

lemma detokenize_inner:
  assumes wf: "tokenizer_wf t" and C: "crypto_sound C" and u: "length u = 16"
    and norm: "normalize_token token = Ok (token_inner C t (take 12 u) c)"
    and p: "cy_payload_to_vec C label value = Inr p"
    and enc: "cy_encrypt C (tz_cipher t) (take 12 u) p = Some c"
  shows "detokenize C t token = Ok \<lparr>dv_label = label, dv_value = value\<rparr>"
proof -
  have "cy_decrypt C (tz_cipher t) (take 12 u) c = Some p"
    and "cy_payload_from_slice C p = Inr \<lparr>dv_label = label, dv_value = value\<rparr>"
    and "cy_url_decode C (cy_url_encode C x) = Some x" for x
    using C enc p by (auto simp: crypto_sound_def)
  with u show ?thesis
    by (simp add: detokenize_def norm token_parts_inner [OF wf C])
qed

lemma detokenize_tokenize:
  assumes "tokenizer_wf t" and "crypto_sound C" and "length u = 16"
    and "CHR '':'' \<notin> set (uc_to_uppercase U label)"
    and "tokenize C U t u label value = Ok token"
  shows "detokenize C t token = Ok \<lparr>dv_label = label, dv_value = value\<rparr>"
proof -
  obtain p c where pc: "cy_payload_to_vec C label value = Inr p"
      "cy_encrypt C (tz_cipher t) (take 12 u) p = Some c"
    and tok: "token = ''['' @ (uc_to_uppercase U label @ ''_TOKEN'' @ CHR '':'' # token_inner C t (take 12 u) c) @ '']''"
    using assms(5) by (rule tokenize_OkE)
  have "split_once CHR '':'' ((uc_to_uppercase U label @ ''_TOKEN'') @ CHR '':'' # token_inner C t (take 12 u) c) =
      Some (uc_to_uppercase U label @ ''_TOKEN'', token_inner C t (take 12 u) c)"
    using assms(4) by (intro split_once_append) auto
  then have "normalize_token token = Ok (token_inner C t (take 12 u) c)"
    unfolding tok normalize_token_bracketed by simp
  then show ?thesis using pc assms(1-3) by (intro detokenize_inner)
qed

text \<open>
  A label with a colon breaks the round trip: \<open>normalize_token\<close> cuts at the first colon.
\<close>

lemma detokenize_tokenize_colon_label:
  assumes "tokenizer_wf t" and "uc_to_uppercase U label = a @ CHR '':'' # b"
    and "CHR '':'' \<notin> set a" and "CHR ''.'' \<notin> set b"
    and "tokenize C U t u label value = Ok token"
  shows "detokenize C t token = Err InvalidTokenFormat"
proof -
  obtain c where tok: "token = ''['' @ (uc_to_uppercase U label @ ''_TOKEN'' @ CHR '':'' # token_inner C t (take 12 u) c) @ '']''"
    using assms(5) by (rule tokenize_OkE)
  let ?p = "b @ ''_TOKEN'' @ CHR '':'' # tz_token_prefix t"
  have "split_once CHR '':'' (a @ CHR '':'' # b @ ''_TOKEN'' @ CHR '':'' # token_inner C t (take 12 u) c) =
      Some (a, b @ ''_TOKEN'' @ CHR '':'' # token_inner C t (take 12 u) c)"
    using assms(3) by (intro split_once_append)
  then have n: "normalize_token token = Ok (b @ ''_TOKEN'' @ CHR '':'' # token_inner C t (take 12 u) c)"
    unfolding tok normalize_token_bracketed assms(2) by simp
  have "split_once CHR ''.'' (?p @ CHR ''.'' # r) = Some (?p, r)" for r
    using assms(4) prefix_no_delimiter [OF assms(1)] by (intro split_once_append) auto
  then have "token_parts (b @ ''_TOKEN'' @ CHR '':'' # token_inner C t (take 12 u) c) = None \<or>
      (\<exists>n e. token_parts (b @ ''_TOKEN'' @ CHR '':'' # token_inner C t (take 12 u) c) = Some (?p, n, e))"
    by (cases "split_once CHR '','' (cy_url_encode C (take 12 u) @ CHR '','' # cy_url_encode C c)")
      (auto simp: token_parts_def token_inner_def)
  moreover have "?p \<noteq> tz_token_prefix t"
  proof
    assume "?p = tz_token_prefix t"
    moreover have "CHR '':'' \<in> set ?p" by simp
    ultimately show False using prefix_no_delimiter [OF assms(1)] by simp
  qed
  ultimately show ?thesis
    by (elim disjE exE) (simp_all only: detokenize_def n rbind.simps ok_or_simps prod.case not_False_eq_True if_True)
qed

text \<open>Nothing is returned that the cipher did not authenticate.\<close>

lemma detokenize_OkD:
  assumes "detokenize C t token = Ok v"
  shows "\<exists>nonce c p. length nonce = 12 \<and> cy_decrypt C (tz_cipher t) nonce c = Some p \<and>
    cy_payload_from_slice C p = Inr v"
  using assms
  by (auto simp: detokenize_def rres_iffs split: if_splits sum.split_asm prod.splits)
    (metis sum.exhaust)

lemma detokenize_not_Panic [simp]: "detokenize C t token \<noteq> Panic"
  by (auto simp: detokenize_def normalize_token_def Let_def rres_iffs
      split: if_splits sum.splits prod.splits option.splits)

lemma tokenize_not_Panic [simp]: "tokenize C U t u label value \<noteq> Panic"
  by (auto simp: tokenize_def Let_def rres_iffs split: sum.splits)

end
