(* ===== verification/Gw_Multipart.thy ===== *)
theory Gw_Multipart
  imports Core_Tokenize
begin

text \<open>
  The multipart layer of \<open>src/attachments.rs\<close>: the boundary, the parts with their headers, media
  types, and the body rebuilt from the scanned parts. The cursor of \<open>parse_multipart_parts\<close> is
  represented by the rest of the body from it on. Rebuilding is shown to be inverted by parsing.
\<close>

section \<open>Errors and parts\<close>

datatype attachment_error =
    MissingBoundary
  | MalformedMultipart
  | AttTooLarge nat
  | PdfError string
  | PdfRewrite string
  | ZipError string
  | ZipWrite string
  | XmlError string
  | AttPresidio string
  | AttTokenization tokenization_error

record multipart_part =
  mp_headers :: string
  mp_body :: string
  mp_content_disposition :: "string option"
  mp_content_type :: "string option"

abbreviation double_quote :: char where
  "double_quote \<equiv> CHR 0x22"

definition crlf :: string where
  "crlf = [CHR 0x0D, CHR 0x0A]"

text \<open>The needles of all callers are not empty (\<open>windows(0)\<close> would panic).\<close>

definition find_subslice :: "string \<Rightarrow> string \<Rightarrow> nat option" where
  "find_subslice haystack needle = find_sub haystack needle"

text \<open>\<open>str::lines\<close>: a line ends at a newline, with the carriage return before it; no empty last line.\<close>

definition str_lines :: "string \<Rightarrow> string list" where
  "str_lines s =
     (let ls = split_on CHR 0x0A s in
      map (\<lambda>l. case strip_suffix l [CHR 0x0D] of Some m \<Rightarrow> m | None \<Rightarrow> l) (butlast ls) @
      (if last ls = [] then [] else [last ls]))"

definition parse_headers :: "string \<Rightarrow> (string, string) hmap" where
  "parse_headers input =
     fold (\<lambda>line headers.
         case split_once CHR '':'' line of
           Some (name, v) \<Rightarrow> hm_insert (to_ascii_lowercase (trim name)) (trim v) headers
         | None \<Rightarrow> headers) (str_lines input) []"

text \<open>The first parameter \<open>key=value\<close> among the pieces after a semicolon, without its quotes.\<close>

fun find_param :: "string \<Rightarrow> string list \<Rightarrow> string option" where
  "find_param key [] = None"
| "find_param key (p # ps) =
     (case strip_prefix (trim p) (key @ ''='') of
        Some v \<Rightarrow> Some (trim_matches double_quote v) | None \<Rightarrow> find_param key ps)"

definition parse_boundary :: "string \<Rightarrow> string option" where
  "parse_boundary content_type = find_param ''boundary'' (tl (split_on CHR '';'' content_type))"

definition parse_disposition_param :: "string \<Rightarrow> string \<Rightarrow> string option" where
  "parse_disposition_param disposition key = find_param key (tl (split_on CHR '';'' disposition))"

section \<open>Parsing a body\<close>

definition boundary_marker :: "string \<Rightarrow> string" where
  "boundary_marker boundary = ''--'' @ boundary"

definition next_marker :: "string \<Rightarrow> string" where
  "next_marker boundary = crlf @ ''--'' @ boundary"

definition make_part :: "string \<Rightarrow> string \<Rightarrow> multipart_part" where
  "make_part headers body =
     (let parsed = parse_headers (from_utf8_lossy headers) in
      \<lparr>mp_headers = headers, mp_body = body,
       mp_content_disposition = hm_get parsed ''content-disposition'',
       mp_content_type = hm_get parsed ''content-type''\<rparr>)"

function parse_part_loop :: "string \<Rightarrow> string \<Rightarrow> multipart_part list \<Rightarrow> (attachment_error, multipart_part list) rres" where
  "parse_part_loop boundary rest parts =
     (if take 2 rest = ''--'' then Ok parts
      else let rest1 = (if take 2 rest = crlf then drop 2 rest else rest) in
        case find_subslice rest1 (crlf @ crlf) of
          None \<Rightarrow> Err MalformedMultipart
        | Some headers_end \<Rightarrow>
            (let rest2 = drop (headers_end + 4) rest1 in
             case find_subslice rest2 (next_marker boundary) of
               None \<Rightarrow> Err MalformedMultipart
             | Some body_end \<Rightarrow>
                 (let parts' = parts @ [make_part (take headers_end rest1) (take body_end rest2)];
                      rest3 = drop (body_end + 2 + length (boundary_marker boundary)) rest2
                  in if take 2 rest3 = ''--'' then Ok parts' else parse_part_loop boundary rest3 parts')))"
  by pat_completeness auto
termination
proof (relation "measure (\<lambda>(_, rest, _). length rest)", goal_cases)
  case (2 boundary rest parts rest1 headers_end rest2 body_end parts' rest3)
  have "length rest1 \<le> length rest" using 2(2) by simp
  moreover have "headers_end + 4 \<le> length rest1"
    using find_sub_SomeD [OF 2(3) [unfolded find_subslice_def]] by (simp add: crlf_def)
  ultimately show ?case using 2(4,7) by simp
qed simp

declare parse_part_loop.simps [simp del]

definition parse_multipart_parts :: "string \<Rightarrow> string \<Rightarrow> (attachment_error, multipart_part list) rres" where
  "parse_multipart_parts body boundary =
     (case find_subslice body (boundary_marker boundary) of
        None \<Rightarrow> Err MalformedMultipart
      | Some cursor \<Rightarrow> parse_part_loop boundary (drop (cursor + length (boundary_marker boundary)) body) [])"

section \<open>Parts\<close>

definition part_file_name :: "multipart_part \<Rightarrow> string option" where
  "part_file_name p = Option.bind (mp_content_disposition p) (\<lambda>v. parse_disposition_param v ''filename'')"

definition part_name :: "multipart_part \<Rightarrow> string option" where
  "part_name p = Option.bind (mp_content_disposition p) (\<lambda>v. parse_disposition_param v ''name'')"

definition is_attachment :: "multipart_part \<Rightarrow> bool" where
  "is_attachment p \<longleftrightarrow> part_file_name p \<noteq> None"

definition pointer_name :: "multipart_part \<Rightarrow> string" where
  "pointer_name p =
     (case part_name p of
        Some n \<Rightarrow> n
      | None \<Rightarrow> (case part_file_name p of Some n \<Rightarrow> n | None \<Rightarrow> ''file''))"

definition detect_media_type :: "string \<Rightarrow> string" where
  "detect_media_type file_name =
     (let lower = to_ascii_lowercase file_name in
      if ends_with lower ''.pdf'' then ''application/pdf''
      else if ends_with lower ''.docx''
           then ''application/vnd.openxmlformats-officedocument.wordprocessingml.document''
      else if ends_with lower ''.xlsx''
           then ''application/vnd.openxmlformats-officedocument.spreadsheetml.sheet''
      else if ends_with lower ''.pptx''
           then ''application/vnd.openxmlformats-officedocument.presentationml.presentation''
      else if ends_with lower ''.json'' then ''application/json''
      else if ends_with lower ''.csv'' then ''text/csv''
      else if ends_with lower ''.xml'' then ''application/xml''
      else ''text/plain'')"

definition media_type :: "multipart_part \<Rightarrow> string" where
  "media_type p =
     (let declared = (case mp_content_type p of Some v \<Rightarrow> trim v | None \<Rightarrow> []) in
      if declared = [] \<or> eq_ignore_ascii_case declared ''application/octet-stream'' \<or>
         eq_ignore_ascii_case declared ''binary/octet-stream''
      then detect_media_type (case part_file_name p of Some n \<Rightarrow> n | None \<Rightarrow> [])
      else declared)"

definition is_media_type_allowed :: "string \<Rightarrow> string list \<Rightarrow> bool" where
  "is_media_type_allowed media allowed \<longleftrightarrow>
     (let m = to_ascii_lowercase media in
      \<exists>c0 \<in> set allowed. let c = to_ascii_lowercase c0 in
        c = m \<or> (ends_with c ''/*'' \<and> starts_with m (trim_end_matches CHR ''*'' c)))"

section \<open>Rebuilding\<close>

text \<open>A part as it is written: its headers as they came, and its old or its new body.\<close>

definition write_part :: "string \<Rightarrow> multipart_part \<times> string option \<Rightarrow> string" where
  "write_part boundary pr =
     boundary_marker boundary @ crlf @ mp_headers (fst pr) @ crlf @ crlf @
     (case snd pr of Some b \<Rightarrow> b | None \<Rightarrow> mp_body (fst pr)) @ crlf"

definition write_parts :: "string \<Rightarrow> (multipart_part \<times> string option) list \<Rightarrow> string" where
  "write_parts boundary prs =
     concat (map (write_part boundary) prs) @ boundary_marker boundary @ ''--'' @ crlf"

section \<open>Parsing inverts rebuilding\<close>

lemma find_sub_prefix: "find_sub (p @ t) p = Some 0"
  by (cases "p @ t") (auto, metis starts_with_append)

lemma find_sub_extend: "find_sub (a @ p) p = Some (length a) \<Longrightarrow> find_sub (a @ p @ t) p = Some (length a)"
proof (induction a)
  case Nil
  show ?case by (simp add: find_sub_prefix)
next
  case (Cons c a)
  have "starts_with (c # a @ p @ t) p \<longleftrightarrow> starts_with (c # a @ p) p"
    by (simp add: starts_with_def take_Cons' split: nat.split)
  with Cons show ?case by (auto split: if_splits)
qed

lemma find_sub_restrict:
  assumes "find_sub s p = Some i"
  shows "find_sub (take i s @ p) p = Some i"
proof -
  have s: "s = take i s @ p @ drop (i + length p) s"
    using find_sub_SomeD [OF assms] by (metis add.commute append_take_drop_id drop_drop)
  have "find_sub (a @ p) p = Some (length a)" if "find_sub (a @ p @ t) p = Some (length a)" for a t
    using that
  proof (induction a)
    case Nil
    show ?case using find_sub_prefix [of p "[]"] by simp
  next
    case (Cons c a)
    have "starts_with (c # a @ p @ t) p \<longleftrightarrow> starts_with (c # a @ p) p"
      by (simp add: starts_with_def take_Cons' split: nat.split)
    with Cons show ?case by (auto split: if_splits)
  qed
  from this [of "take i s" "drop (i + length p) s"] s assms find_sub_SomeD [OF assms]
  show ?thesis by simp
qed

text \<open>A marker whose first character does not come back is found behind any text without it.\<close>

lemma find_sub_behind:
  assumes "c \<notin> set p" and "find_sub a (c # p) = None"
  shows "find_sub (a @ c # p) (c # p) = Some (length a)"
  using assms(2)
proof (induction a)
  case Nil
  show ?case by (simp add: starts_with_def)
next
  case (Cons x a)
  have "\<not> starts_with (x # a @ c # p) (c # p)"
  proof
    assume st: "starts_with (x # a @ c # p) (c # p)"
    then have eq: "take (length p) (a @ c # p) = p" "x = c" by (auto simp: starts_with_def)
    show False
    proof (cases "length p \<le> length a")
      case True
      with eq have "starts_with (x # a) (c # p)" by (simp add: starts_with_def)
      with Cons.prems show False by simp
    next
      case False
      then have "c \<in> set (take (length p) (a @ c # p))" by (auto simp: take_Cons' )
      with eq assms(1) show False by simp
    qed
  qed
  with Cons show ?case by (auto split: if_splits)
qed

definition part_ok :: "string \<Rightarrow> multipart_part \<times> string option \<Rightarrow> bool" where
  "part_ok boundary pr \<longleftrightarrow>
     (let body = (case snd pr of Some b \<Rightarrow> b | None \<Rightarrow> mp_body (fst pr)) in
      find_sub (mp_headers (fst pr) @ crlf @ crlf) (crlf @ crlf) = Some (length (mp_headers (fst pr))) \<and>
      fst pr = make_part (mp_headers (fst pr)) (mp_body (fst pr)) \<and>
      find_sub (body @ next_marker boundary) (next_marker boundary) = Some (length body))"

definition with_body :: "multipart_part \<times> string option \<Rightarrow> multipart_part" where
  "with_body pr = (case snd pr of Some b \<Rightarrow> (fst pr)\<lparr>mp_body := b\<rparr> | None \<Rightarrow> fst pr)"

lemma parse_part_loop_part:
  assumes "part_ok boundary pr"
  shows "parse_part_loop boundary (crlf @ mp_headers (fst pr) @ crlf @ crlf @
      (case snd pr of Some b \<Rightarrow> b | None \<Rightarrow> mp_body (fst pr)) @ next_marker boundary @ tail) parts =
    (if take 2 tail = ''--'' then Ok (parts @ [with_body pr]) else parse_part_loop boundary tail (parts @ [with_body pr]))"
proof -
  let ?h = "mp_headers (fst pr)" and ?b = "case snd pr of Some b \<Rightarrow> b | None \<Rightarrow> mp_body (fst pr)"
  have h: "find_sub (?h @ (crlf @ crlf) @ t) (crlf @ crlf) = Some (length ?h)" for t
    using assms by (intro find_sub_extend) (simp add: part_ok_def Let_def)
  have b: "find_sub (?b @ next_marker boundary @ t) (next_marker boundary) = Some (length ?b)" for t
    using assms by (intro find_sub_extend) (simp add: part_ok_def Let_def)
  have p: "make_part ?h ?b = with_body pr"
  proof -
    have "fst pr = make_part ?h (mp_body (fst pr))" using assms by (simp add: part_ok_def Let_def)
    then show ?thesis by (cases pr; cases "snd pr"; simp add: with_body_def)
      (metis make_part_def multipart_part.update_convs(2))+
  qed
  have c: "length crlf = 2" "take 2 (crlf @ t) = crlf" "crlf \<noteq> ''--''" for t
    by (simp_all add: crlf_def)
  have d: "drop (length ?b + 2 + length (boundary_marker boundary)) (?b @ next_marker boundary @ tail) = tail"
    by (simp add: next_marker_def boundary_marker_def crlf_def numeral_eq_Suc)
  show ?thesis
    using h [of "?b @ next_marker boundary @ tail"] b [of tail] p d
    by (subst parse_part_loop.simps) (simp add: find_subslice_def c Let_def)
qed

lemma write_parts_Cons:
  "write_parts boundary (pr # prs) =
     boundary_marker boundary @ crlf @ mp_headers (fst pr) @ crlf @ crlf @
     (case snd pr of Some b \<Rightarrow> b | None \<Rightarrow> mp_body (fst pr)) @ crlf @ write_parts boundary prs"
  by (simp add: write_parts_def write_part_def)

lemma write_parts_marker:
  "\<exists>tail. write_parts boundary prs = boundary_marker boundary @ tail \<and>
     (if prs = [] then tail = ''--'' @ crlf else take 2 tail = crlf)"
  by (cases prs) (simp_all add: write_parts_def write_part_def crlf_def)

lemma parse_part_loop_write:
  assumes "\<forall>pr \<in> set prs. part_ok boundary pr"
    and "write_parts boundary prs = boundary_marker boundary @ tail"
  shows "parse_part_loop boundary tail parts = Ok (parts @ map with_body prs)"
  using assms
proof (induction prs arbitrary: tail parts)
  case Nil
  then have "tail = ''--'' @ crlf" by (simp add: write_parts_def)
  then show ?case by (subst parse_part_loop.simps) simp
next
  case (Cons pr prs)
  obtain tl' where t: "write_parts boundary prs = boundary_marker boundary @ tl'"
    and sh: "if prs = [] then tl' = ''--'' @ crlf else take 2 tl' = crlf"
    using write_parts_marker by blast
  have tail: "tail = crlf @ mp_headers (fst pr) @ crlf @ crlf @
      (case snd pr of Some b \<Rightarrow> b | None \<Rightarrow> mp_body (fst pr)) @ next_marker boundary @ tl'"
    using Cons.prems(2) t by (simp add: write_parts_Cons next_marker_def boundary_marker_def)
  have IH: "parse_part_loop boundary tl' (parts @ [with_body pr]) = Ok (parts @ with_body pr # map with_body prs)"
    using Cons.IH [OF _ t, of "parts @ [with_body pr]"] Cons.prems(1) by simp
  show ?case
    using parse_part_loop_part [of boundary pr tl' parts] Cons.prems(1) IH sh unfolding tail
    by (auto simp: crlf_def split: if_splits)
qed

theorem parse_write_parts:
  assumes "\<forall>pr \<in> set prs. part_ok boundary pr"
  shows "parse_multipart_parts (write_parts boundary prs) boundary = Ok (map with_body prs)"
proof -
  obtain tail where t: "write_parts boundary prs = boundary_marker boundary @ tail"
    using write_parts_marker by blast
  have "find_sub (boundary_marker boundary @ tail) (boundary_marker boundary) = Some 0"
    by (simp add: boundary_marker_def starts_with_def)
  with t parse_part_loop_write [OF assms t] show ?thesis
    by (simp add: parse_multipart_parts_def find_subslice_def)
qed

section \<open>What parsing gives\<close>

lemma find_sub_bodies:
  assumes "CHR 0x0D \<notin> set boundary" and "find_sub body (next_marker boundary) = None"
  shows "find_sub (body @ next_marker boundary) (next_marker boundary) = Some (length body)"
  using find_sub_behind [of "CHR 0x0D" "CHR 0x0A # ''--'' @ boundary" body] assms
  by (simp add: next_marker_def crlf_def)

lemma parse_part_loop_ok:
  assumes "parse_part_loop boundary rest parts = Ok ps" and "\<forall>p \<in> set parts. part_ok boundary (p, None)"
  shows "\<forall>p \<in> set ps. part_ok boundary (p, None)"
  using assms
proof (induction boundary rest parts rule: parse_part_loop.induct)
  case (1 boundary rest parts)
  show ?case
  proof (cases "take 2 rest = ''--''")
    case True
    with 1(2,3) show ?thesis by (simp add: parse_part_loop.simps [of boundary rest])
  next
    case False
    define rest1 where "rest1 = (if take 2 rest = crlf then drop 2 rest else rest)"
    from 1(2) False obtain he where he: "find_subslice rest1 (crlf @ crlf) = Some he"
      by (subst (asm) parse_part_loop.simps) (auto simp: rest1_def Let_def split: option.splits)
    define rest2 where "rest2 = drop (he + 4) rest1"
    from 1(2) False he obtain be where be: "find_subslice rest2 (next_marker boundary) = Some be"
      by (subst (asm) parse_part_loop.simps)
        (auto simp: rest1_def [symmetric] rest2_def Let_def split: option.splits)
    let ?p = "make_part (take he rest1) (take be rest2)"
    let ?rest3 = "drop (be + 2 + length (boundary_marker boundary)) rest2"
    have eq: "parse_part_loop boundary rest parts =
        (if take 2 ?rest3 = ''--'' then Ok (parts @ [?p]) else parse_part_loop boundary ?rest3 (parts @ [?p]))"
      using False he be
      by (subst parse_part_loop.simps) (simp add: rest1_def [symmetric] rest2_def [symmetric] Let_def)
    have "part_ok boundary (?p, None)"
      using find_sub_restrict he be by (auto simp: part_ok_def make_part_def Let_def find_subslice_def dest: find_sub_SomeD)
    with 1(3) have all: "\<forall>p \<in> set (parts @ [?p]). part_ok boundary (p, None)" by simp
    show ?thesis
    proof (cases "take 2 ?rest3 = ''--''")
      case True
      with eq 1(2) all show ?thesis by simp
    next
      case f3: False
      with eq 1(2) have "parse_part_loop boundary ?rest3 (parts @ [?p]) = Ok ps" by simp
      from 1(1) [OF False rest1_def he rest2_def be refl refl f3 this all] show ?thesis .
    qed
  qed
qed

lemma parse_multipart_parts_ok:
  "parse_multipart_parts body boundary = Ok ps \<Longrightarrow> p \<in> set ps \<Longrightarrow> part_ok boundary (p, None)"
  using parse_part_loop_ok [of boundary _ "[]" ps]
  by (auto simp: parse_multipart_parts_def split: option.splits)

end
