(* ===== verification/Core_Redact.thy ===== *)
theory Core_Redact
  imports Core_Tokenize "HOL-Library.Product_Lexorder"
begin

text \<open>
  \<open>crates/ctxward-core/src/redact.rs\<close>: the masking strategies and \<open>redact_text\<close>, which sorts the
  findings, drops those that start inside an earlier one and replaces the spans from right to
  left. It is shown to compute a left-to-right rendering of the text, with every error and panic
  of a mask; the byte-offset slices of two strategies panic inside a multi-byte character.
\<close>

section \<open>Masks\<close>

definition partial_email :: "string \<Rightarrow> string" where
  "partial_email input =
     (case split_once CHR ''@'' input of
        None \<Rightarrow> ''[EMAIL]''
      | Some (local, domain) \<Rightarrow>
          (case utf8_chars local of [] \<Rightarrow> ''*'' | ch # _ \<Rightarrow> ch) @ ''***@'' @ domain)"

definition partial_phone :: "string \<Rightarrow> string option" where
  "partial_phone input =
     (if length input < 7 then Some ''[PHONE]''
      else Option.bind (str_slice input 0 (min 3 (length input))) (\<lambda>prefix.
           Option.bind (str_slice input (length input - 4) (length input)) (\<lambda>suffix.
             Some (prefix @ ''****'' @ suffix))))"

definition keep_last4 :: "string \<Rightarrow> string option" where
  "keep_last4 input =
     (if length input \<le> 4 then Some ''[ID]''
      else map_option (\<lambda>suffix. ''************'' @ suffix)
        (str_slice input (length input - 4) (length input)))"

definition sha256_short :: "hash_api \<Rightarrow> string \<Rightarrow> string option" where
  "sha256_short H input = str_slice (sha256_hex H input) 0 12"

definition apply_mask ::
  "crypto_api \<Rightarrow> unicode_api \<Rightarrow> hash_api \<Rightarrow> tokenizer option \<Rightarrow> string \<Rightarrow> string \<Rightarrow>
     masking_strategy \<Rightarrow> string \<Rightarrow> (tokenization_error, string) rres" where
  "apply_mask C U H tz nonce_uuid input strategy label =
     (case strategy of
        Placeholder \<Rightarrow> Ok (''['' @ uc_to_uppercase U label @ '']'')
      | PartialEmail \<Rightarrow> Ok (partial_email input)
      | PartialPhone \<Rightarrow> or_panic (partial_phone input)
      | KeepLast4 \<Rightarrow> or_panic (keep_last4 input)
      | Hash \<Rightarrow> rbind (or_panic (sha256_short H input)) (\<lambda>h.
          Ok (''['' @ uc_to_uppercase U label @ '':'' @ h @ '']''))
      | Tokenize \<Rightarrow> rbind (ok_or RequiredButDisabled tz) (\<lambda>t. tokenize C U t nonce_uuid label input)
      | Full \<Rightarrow> Ok ''[REDACTED]'')"

section \<open>Selecting and replacing the spans\<close>

text \<open>
  The comparison of \<open>sort_by\<close> (a stable sort): start, then longer first, then stricter first.
\<close>

definition redact_key :: "resolved_finding \<Rightarrow> nat \<times> int \<times> int" where
  "redact_key f = (rs_start f, - int (usize_sub (rs_end f) (rs_start f)),
     - int (rank (rs_effective_action f)))"

fun filter_overlaps :: "nat \<Rightarrow> resolved_finding list \<Rightarrow> resolved_finding list" where
  "filter_overlaps occupied_until [] = []"
| "filter_overlaps occupied_until (f # fs) =
     (if rs_start f < occupied_until then filter_overlaps occupied_until fs
      else f # filter_overlaps (rs_end f) fs)"

definition select_findings :: "resolved_finding list \<Rightarrow> resolved_finding list" where
  "select_findings findings =
     filter_overlaps 0 (sort_key redact_key
       (filter (\<lambda>f. rs_effective_action f \<noteq> Allow) findings))"

text \<open>The replacement loop; \<open>rng j\<close> is the UUID drawn by the \<open>j\<close>-th mask.\<close>

fun redact_loop ::
  "(nat \<Rightarrow> resolved_finding \<Rightarrow> (tokenization_error, string) rres) \<Rightarrow> nat \<Rightarrow> string \<Rightarrow>
     resolved_finding list \<Rightarrow> (tokenization_error, string) rres" where
  "redact_loop mk j out [] = Ok out"
| "redact_loop mk j out (f # fs) =
     rbind (mk j f) (\<lambda>replacement.
     rbind (or_panic (str_replace_range out (rs_start f) (rs_end f) replacement)) (\<lambda>out'.
     redact_loop mk (Suc j) out' fs))"

definition finding_mask ::
  "crypto_api \<Rightarrow> unicode_api \<Rightarrow> hash_api \<Rightarrow> tokenizer option \<Rightarrow> (nat \<Rightarrow> string) \<Rightarrow> nat \<Rightarrow>
     resolved_finding \<Rightarrow> (tokenization_error, string) rres" where
  "finding_mask C U H tz rng j f = apply_mask C U H tz (rng j) (rs_matched f) (rs_masking f) (rs_label f)"

definition redact_text ::
  "crypto_api \<Rightarrow> unicode_api \<Rightarrow> hash_api \<Rightarrow> tokenizer option \<Rightarrow> (nat \<Rightarrow> string) \<Rightarrow> string \<Rightarrow>
     resolved_finding list \<Rightarrow> (tokenization_error, string) rres" where
  "redact_text C U H tz rng input findings =
     (if filter (\<lambda>f. rs_effective_action f \<noteq> Allow) findings = [] then Ok input
      else redact_loop (finding_mask C U H tz rng) 0 input (rev (select_findings findings)))"

section \<open>When a mask panics\<close>

text \<open>
  The slices of \<open>partial_phone\<close> and \<open>keep_last4\<close> are at byte offsets: they panic exactly when an
  offset falls inside a character.
\<close>

lemma partial_phone_None_iff:
  "partial_phone s = None \<longleftrightarrow>
     7 \<le> length s \<and> \<not> (is_char_boundary s 3 \<and> is_char_boundary s (length s - 4))"
  by (auto simp: partial_phone_def str_slice_def)

lemma keep_last4_None_iff:
  "keep_last4 s = None \<longleftrightarrow> 4 < length s \<and> \<not> is_char_boundary s (length s - 4)"
  by (auto simp: keep_last4_def str_slice_def)

definition mask_safe :: "resolved_finding \<Rightarrow> bool" where
  "mask_safe f \<longleftrightarrow>
     (rs_masking f = PartialPhone \<longrightarrow> partial_phone (rs_matched f) \<noteq> None) \<and>
     (rs_masking f = KeepLast4 \<longrightarrow> keep_last4 (rs_matched f) \<noteq> None)"

text \<open>What the code relies on of the hash crates: the hex digest has 64 ASCII characters.\<close>

definition hash_sound :: "hash_api \<Rightarrow> bool" where
  "hash_sound H \<longleftrightarrow> (\<forall>x. length (sha256_hex H x) = 64 \<and> list_all is_ascii_hexdigit (sha256_hex H x))"

lemma hexdigit_ascii: "is_ascii_hexdigit c \<Longrightarrow> is_ascii c"
  by (cases c) (auto simp: is_ascii_hexdigit_def is_ascii_digit_def is_ascii_def of_char_def)

lemma sha256_short_Some: "hash_sound H \<Longrightarrow> sha256_short H s = Some (take 12 (sha256_hex H s))"
  by (auto simp: sha256_short_def str_slice_def hash_sound_def list_all_iff hexdigit_ascii
      intro!: ascii_all_boundaries)

lemma finding_mask_panic_iff:
  assumes "hash_sound H"
  shows "finding_mask C U H tz rng j f = Panic \<longleftrightarrow> \<not> mask_safe f"
  using assms
  by (cases "rs_masking f"; cases tz)
    (auto simp: finding_mask_def apply_mask_def mask_safe_def sha256_short_Some or_panic_def
      split: option.splits)

lemma ascii_mask_safe: "list_all is_ascii (rs_matched f) \<Longrightarrow> mask_safe f"
  by (auto simp: mask_safe_def partial_phone_None_iff keep_last4_None_iff ascii_all_boundaries)

section \<open>What a mask writes\<close>

lemma apply_mask_str_ok:
  assumes "str_ok input" and "apply_mask C U H tz u input strategy label = Ok r"
  shows "str_ok r"
proof (cases strategy)
  case PartialEmail
  then show ?thesis using assms
    by (cases input) (auto simp: apply_mask_def partial_email_def is_cont_def
        split: option.splits list.splits if_splits)
next
  case PartialPhone
  with assms(2) have "partial_phone input = Some r" by (simp add: apply_mask_def or_panic_eq_Ok_iff)
  with assms(1) show ?thesis
    by (cases input) (auto simp: partial_phone_def is_cont_def bind_eq_Some_conv str_slice_Some_iff
        split: if_splits)
next
  case KeepLast4
  with assms(2) show ?thesis
    by (auto simp: apply_mask_def or_panic_eq_Ok_iff keep_last4_def is_cont_def split: if_splits)
next
  case Tokenize
  with assms(2) obtain t where "tokenize C U t u label input = Ok r"
    by (auto simp: apply_mask_def rres_iffs)
  then show ?thesis by (rule tokenize_OkE) (simp add: is_cont_def)
qed (use assms in \<open>auto simp: apply_mask_def rres_iffs is_cont_def\<close>)

section \<open>The kept spans\<close>

text \<open>Spans in order that do not overlap, from a position on.\<close>

fun spans_ordered :: "nat \<Rightarrow> resolved_finding list \<Rightarrow> bool" where
  "spans_ordered pos [] \<longleftrightarrow> True"
| "spans_ordered pos (f # fs) \<longleftrightarrow> pos \<le> rs_start f \<and> spans_ordered (rs_end f) fs"

lemma filter_overlaps_ordered: "spans_ordered pos (filter_overlaps pos fs)"
  by (induction pos fs rule: filter_overlaps.induct) auto

lemma set_filter_overlaps: "set (filter_overlaps pos fs) \<subseteq> set fs"
  by (induction pos fs rule: filter_overlaps.induct) auto

text \<open>
  A finding that is dropped starts inside the span of a kept one that starts no later.
\<close>

lemma filter_overlaps_covers:
  assumes "sorted (map redact_key fs)" and "f \<in> set fs"
  shows "rs_start f < pos \<or> f \<in> set (filter_overlaps pos fs) \<or>
    (\<exists>g \<in> set (filter_overlaps pos fs). redact_key g \<le> redact_key f \<and> rs_start f < rs_end g)"
  using assms
proof (induction pos fs rule: filter_overlaps.induct)
  case (1 pos)
  then show ?case by simp
next
  case (2 pos g fs)
  then show ?case by (cases "f = g") auto
qed

lemma redact_key_le_iff:
  "redact_key g \<le> redact_key f \<longleftrightarrow> rs_start g < rs_start f \<or> rs_start g = rs_start f \<and>
     (usize_sub (rs_end f) (rs_start f) < usize_sub (rs_end g) (rs_start g) \<or>
      usize_sub (rs_end f) (rs_start f) = usize_sub (rs_end g) (rs_start g) \<and>
      rank (rs_effective_action f) \<le> rank (rs_effective_action g))"
  by (auto simp: redact_key_def less_eq_prod_def)

definition rs_span_wf :: "string \<Rightarrow> resolved_finding \<Rightarrow> bool" where
  "rs_span_wf input f \<longleftrightarrow> str_slice input (rs_start f) (rs_end f) = Some (rs_matched f)"

lemma rs_span_wf_le: "rs_span_wf input f \<Longrightarrow> rs_start f \<le> rs_end f \<and> rs_end f \<le> length input"
  by (auto simp: rs_span_wf_def str_slice_Some_iff dest: is_char_boundary_le)

section \<open>Right-to-left replacement is left-to-right rendering\<close>

text \<open>
  The reference: copy the text up to a span, write its replacement, go on after the span.
\<close>

fun render :: "string \<Rightarrow> nat \<Rightarrow> nat \<Rightarrow> (resolved_finding \<times> string) list \<Rightarrow> string" where
  "render input pos bound [] = take (bound - pos) (drop pos input)"
| "render input pos bound ((f, r) # rs) =
     take (rs_start f - pos) (drop pos input) @ r @ render input (rs_end f) bound rs"

lemma render_snoc:
  "render input pos bound (rs @ [(f, r)]) =
     render input pos (rs_start f) rs @ r @ take (bound - rs_end f) (drop (rs_end f) input)"
  by (induction rs arbitrary: pos) auto

text \<open>The masks of a list of findings, in order, with the first failure.\<close>

fun mask_all ::
  "(nat \<Rightarrow> resolved_finding \<Rightarrow> (tokenization_error, string) rres) \<Rightarrow> nat \<Rightarrow>
     resolved_finding list \<Rightarrow> (tokenization_error, string list) rres" where
  "mask_all mk j [] = Ok []"
| "mask_all mk j (f # fs) = rbind (mk j f) (\<lambda>r. rmap (Cons r) (mask_all mk (Suc j) fs))"

lemma length_mask_all: "mask_all mk j fs = Ok rs \<Longrightarrow> length rs = length fs"
  by (induction mk j fs arbitrary: rs rule: mask_all.induct) (auto simp: rres_iffs)

lemma mask_all_nth:
  "mask_all mk j fs = Ok rs \<Longrightarrow> i < length fs \<Longrightarrow> mk (j + i) (fs ! i) = Ok (rs ! i)"
proof (induction mk j fs arbitrary: rs i rule: mask_all.induct)
  case (2 mk j f fs)
  then show ?case by (cases i) (auto simp: rres_iffs)
qed simp

text \<open>
  Agreement of the output with the input up to a bound: the same bytes, the same boundaries.
\<close>

definition agree_upto :: "nat \<Rightarrow> string \<Rightarrow> string \<Rightarrow> bool" where
  "agree_upto bound input out \<longleftrightarrow> bound \<le> length input \<and> bound \<le> length out \<and>
     take bound out = take bound input \<and>
     (\<forall>i \<le> bound. is_char_boundary input i \<longrightarrow> is_char_boundary out i)"

lemma agree_upto_refl: "agree_upto (length input) input input"
  by (simp add: agree_upto_def)

lemma agree_upto_replace:
  assumes agree: "agree_upto bound input out" and wf: "rs_span_wf input f"
    and le: "rs_end f \<le> bound" and r: "str_ok r"
  shows "str_replace_range out (rs_start f) (rs_end f) r =
      Some (take (rs_start f) out @ r @ drop (rs_end f) out)"
    and "agree_upto (rs_start f) input (take (rs_start f) out @ r @ drop (rs_end f) out)"
proof -
  have se: "rs_start f \<le> rs_end f" and bd: "is_char_boundary input (rs_start f)"
      "is_char_boundary input (rs_end f)"
    using wf by (auto simp: rs_span_wf_def str_slice_Some_iff)
  with agree le have out: "is_char_boundary out (rs_start f)" "is_char_boundary out (rs_end f)"
    by (auto simp: agree_upto_def)
  with se show "str_replace_range out (rs_start f) (rs_end f) r =
      Some (take (rs_start f) out @ r @ drop (rs_end f) out)"
    by (simp add: str_replace_range_def)
  have len: "rs_start f \<le> length input" "rs_start f \<le> length out"
    using agree se le by (auto simp: agree_upto_def)
  have "take (rs_start f) out = take (rs_start f) input"
    using agree se le unfolding agree_upto_def
    by (metis le_trans min.absorb1 take_take)
  moreover have "is_char_boundary (take (rs_start f) out @ r @ drop (rs_end f) out) i"
    if "i \<le> rs_start f" "is_char_boundary input i" for i
    using agree that se le out r
    by (intro is_char_boundary_replace_left) (auto simp: agree_upto_def)
  ultimately show "agree_upto (rs_start f) input (take (rs_start f) out @ r @ drop (rs_end f) out)"
    using len by (simp add: agree_upto_def)
qed

lemma drop_agree:
  assumes "agree_upto bound input out" and "e \<le> bound"
  shows "drop e out = take (bound - e) (drop e input) @ drop bound out"
proof -
  have "drop e out = take (bound - e) (drop e out) @ drop (bound - e) (drop e out)"
    by (simp only: append_take_drop_id)
  also have "take (bound - e) (drop e out) = drop e (take bound out)"
    by (simp add: drop_take)
  also have "\<dots> = take (bound - e) (drop e input)"
    using assms(1) by (simp add: agree_upto_def drop_take)
  finally show ?thesis using assms(2) by simp
qed

lemma spans_ordered_snoc:
  "spans_ordered pos (fs @ [g]) \<Longrightarrow> (\<And>f. f \<in> set (fs @ [g]) \<Longrightarrow> rs_start f \<le> rs_end f) \<Longrightarrow>
     spans_ordered pos fs \<and> pos \<le> rs_start g \<and> (\<forall>f \<in> set fs. rs_end f \<le> rs_start g)"
  by (induction fs arbitrary: pos) fastforce+

lemma redact_loop_render:
  assumes "spans_ordered 0 fs" and "\<forall>f \<in> set fs. rs_span_wf input f \<and> rs_end f \<le> bound"
    and "agree_upto bound input out"
    and ok: "\<And>j f r. f \<in> set fs \<Longrightarrow> mk j f = Ok r \<Longrightarrow> str_ok r"
  shows "redact_loop mk j out (rev fs) =
    rmap (\<lambda>rs. render input 0 bound (zip fs (rev rs)) @ drop bound out) (mask_all mk j (rev fs))"
  using assms
proof (induction fs arbitrary: j out bound rule: rev_induct)
  case Nil
  then show ?case by (simp add: agree_upto_def) (metis append_take_drop_id)
next
  case (snoc g fs)
  have wf: "rs_span_wf input g" "rs_end g \<le> bound" using snoc.prems(2) by auto
  have ord: "spans_ordered 0 fs" "\<forall>f \<in> set fs. rs_end f \<le> rs_start g"
    using spans_ordered_snoc [OF snoc.prems(1)] snoc.prems(2) by (auto dest: rs_span_wf_le)
  show ?case
  proof (cases "mk j g")
    case (Ok r)
    let ?out = "take (rs_start g) out @ r @ drop (rs_end g) out"
    have ok: "str_ok r" using snoc.prems(4) [of g j r] Ok by simp
    note rep = agree_upto_replace [OF snoc.prems(3) wf ok]
    have len: "rs_start g \<le> length out" using rep(2) snoc.prems(3) wf
      by (auto simp: agree_upto_def dest: rs_span_wf_le)
    have "redact_loop mk (Suc j) ?out (rev fs) =
      rmap (\<lambda>rs. render input 0 (rs_start g) (zip fs (rev rs)) @ drop (rs_start g) ?out)
        (mask_all mk (Suc j) (rev fs))"
      using ord snoc.prems(2,4) rep(2) by (intro snoc.IH) auto
    moreover have "drop (rs_start g) ?out = r @ take (bound - rs_end g) (drop (rs_end g) input) @ drop bound out"
      using len drop_agree [OF snoc.prems(3) wf(2)] by simp
    moreover have "render input 0 bound (zip (fs @ [g]) (rev rs @ [r])) =
        render input 0 (rs_start g) (zip fs (rev rs)) @ r @ take (bound - rs_end g) (drop (rs_end g) input)"
      if "mask_all mk (Suc j) (rev fs) = Ok rs" for rs
      using length_mask_all [OF that] by (simp add: render_snoc)
    ultimately show ?thesis using Ok rep(1)
      by (cases "mask_all mk (Suc j) (rev fs)") simp_all
  qed simp_all
qed

section \<open>The redactor on well-placed findings\<close>

lemma select_findings_ordered: "spans_ordered 0 (select_findings fs)"
  by (simp add: select_findings_def filter_overlaps_ordered)

lemma set_select_findings:
  "f \<in> set (select_findings fs) \<Longrightarrow> f \<in> set fs \<and> rs_effective_action f \<noteq> Allow"
  unfolding select_findings_def using set_filter_overlaps by fastforce

lemma select_findings_covers:
  assumes "f \<in> set fs" and "rs_effective_action f \<noteq> Allow"
  shows "f \<in> set (select_findings fs) \<or>
    (\<exists>g \<in> set (select_findings fs). redact_key g \<le> redact_key f \<and> rs_start f < rs_end g)"
  using filter_overlaps_covers [OF sorted_sort_key [of redact_key], of f "filter (\<lambda>f. rs_effective_action f \<noteq> Allow) fs" 0]
    assms unfolding select_findings_def by auto

text \<open>
  The bytes inside the spans of some findings; findings of which any two that overlap are nested
  or start together.
\<close>

definition covered :: "resolved_finding list \<Rightarrow> nat \<Rightarrow> bool" where
  "covered fs i \<longleftrightarrow> (\<exists>f \<in> set fs. rs_start f \<le> i \<and> i < rs_end f)"

definition laminar :: "resolved_finding list \<Rightarrow> bool" where
  "laminar fs \<longleftrightarrow> (\<forall>f \<in> set fs. \<forall>g \<in> set fs.
     rs_start g < rs_start f \<and> rs_start f < rs_end g \<longrightarrow> rs_end f \<le> rs_end g)"

lemma select_findings_covered:
  assumes "laminar fs" and "\<forall>f \<in> set fs. rs_span_wf input f"
    and "f \<in> set fs" and "rs_effective_action f \<noteq> Allow" and "rs_start f \<le> i" and "i < rs_end f"
  shows "covered (select_findings fs) i"
proof -
  from select_findings_covers [OF assms(3,4)] show ?thesis
  proof
    assume "f \<in> set (select_findings fs)"
    with assms(5,6) show ?thesis by (auto simp: covered_def)
  next
    assume "\<exists>g \<in> set (select_findings fs). redact_key g \<le> redact_key f \<and> rs_start f < rs_end g"
    then obtain g where g: "g \<in> set (select_findings fs)" "redact_key g \<le> redact_key f"
      "rs_start f < rs_end g" by blast
    have "g \<in> set fs" using g(1) by (blast dest: set_select_findings)
    with assms(2,3) have "rs_start f \<le> rs_end f" "rs_start g \<le> rs_end g"
      by (auto dest: rs_span_wf_le)
    with g(2) have "rs_start g < rs_start f \<or> rs_start g = rs_start f \<and> rs_end f \<le> rs_end g"
      by (auto simp: redact_key_le_iff)
    with assms(1,3) g(3) \<open>g \<in> set fs\<close> have "rs_start g \<le> rs_start f \<and> rs_end f \<le> rs_end g"
      by (auto simp: laminar_def)
    with assms(5,6) have "rs_start g \<le> i \<and> i < rs_end g" by linarith
    with g(1) show ?thesis unfolding covered_def by blast
  qed
qed

lemma rs_span_wf_str_ok: "str_ok input \<Longrightarrow> rs_span_wf input f \<Longrightarrow> str_ok (rs_matched f)"
  unfolding rs_span_wf_def by (rule str_slice_str_ok)

lemma redact_text_eq:
  assumes "str_ok input" and "\<forall>f \<in> set findings. rs_span_wf input f"
  shows "redact_text C U H tz rng input findings =
    rmap (\<lambda>rs. render input 0 (length input) (zip (select_findings findings) (rev rs)))
      (mask_all (finding_mask C U H tz rng) 0 (rev (select_findings findings)))"
proof (cases "filter (\<lambda>f. rs_effective_action f \<noteq> Allow) findings = []")
  case True
  then show ?thesis by (simp add: redact_text_def select_findings_def)
next
  case False
  have "redact_loop (finding_mask C U H tz rng) 0 input (rev (select_findings findings)) =
    rmap (\<lambda>rs. render input 0 (length input) (zip (select_findings findings) (rev rs)) @
        drop (length input) input)
      (mask_all (finding_mask C U H tz rng) 0 (rev (select_findings findings)))"
    using assms
    by (intro redact_loop_render select_findings_ordered agree_upto_refl)
      (auto simp: finding_mask_def dest: set_select_findings rs_span_wf_le
        intro: apply_mask_str_ok rs_span_wf_str_ok)
  with False show ?thesis by (simp add: redact_text_def)
qed

lemma mask_all_Panic_iff:
  assumes "hash_sound H" and "\<forall>f \<in> set fs. mask_safe f"
  shows "mask_all (finding_mask C U H tz rng) j fs \<noteq> Panic"
  using assms(2)
  by (induction fs arbitrary: j) (auto simp: rres_iffs finding_mask_panic_iff [OF assms(1)])

lemma redact_text_no_panic:
  assumes "hash_sound H" and "str_ok input"
    and "\<forall>f \<in> set findings. rs_span_wf input f \<and> (rs_effective_action f \<noteq> Allow \<longrightarrow> mask_safe f)"
  shows "redact_text C U H tz rng input findings \<noteq> Panic"
proof -
  have "\<forall>f \<in> set (rev (select_findings findings)). mask_safe f"
    using assms(3) by (auto dest: set_select_findings)
  moreover have "\<forall>f \<in> set findings. rs_span_wf input f" using assms(3) by blast
  ultimately show ?thesis
    by (simp add: redact_text_eq [OF assms(2)] mask_all_Panic_iff [OF assms(1)])
qed

text \<open>Tokenisation is the only mask that can fail, and only for these reasons.\<close>

lemma finding_mask_Err:
  assumes "finding_mask C U H tz rng j f = Err e"
  shows "rs_masking f = Tokenize \<and> (tz = None \<and> e = RequiredButDisabled \<or>
    (\<exists>t. tz = Some t \<and> (e = Encrypt \<or> (\<exists>m. e = SerializeError m))))"
  using assms
  by (cases "rs_masking f"; cases tz)
    (auto simp: finding_mask_def apply_mask_def tokenize_def Let_def or_panic_def rres_iffs
      split: option.splits sum.splits)

section \<open>What the redactor gives to its clients\<close>

lemma resolve_finding_wf:
  "rs_span_wf input (resolve_finding who dir f) \<longleftrightarrow> finding_wf input f"
  by (simp add: rs_span_wf_def finding_wf_def resolve_finding_def)

context span_source
begin

lemma resolved_wf:
  "r \<in> set (po_findings (policy_resolve who (scan src pointer) dir)) \<Longrightarrow> rs_span_wf src r"
  by (auto simp: policy_resolve_def resolve_finding_wf scan_wf)

lemma resolved_pointer:
  "r \<in> set (po_findings (policy_resolve who (scan src pointer) dir)) \<Longrightarrow> rs_pointer r = pointer"
  by (auto simp: policy_resolve_def resolve_finding_def scan_pointer)

lemma redact_resolved_eq:
  assumes "str_ok src" and fs: "fs = po_findings (policy_resolve who (scan src pointer) dir)"
  shows "redact_text C U H tz rng src fs =
    rmap (\<lambda>rs. render src 0 (length src) (zip (select_findings fs) (rev rs)))
      (mask_all (finding_mask C U H tz rng) 0 (rev (select_findings fs)))"
  using assms(1) resolved_wf unfolding fs by (intro redact_text_eq) auto

lemma redact_resolved_no_panic:
  assumes "hash_sound H" and "str_ok src" and "list_all is_ascii src"
  shows "redact_text C U H tz rng src (po_findings (policy_resolve who (scan src pointer) dir)) \<noteq> Panic"
proof (rule redact_text_no_panic [OF assms(1,2)], intro ballI conjI impI)
  fix f assume f: "f \<in> set (po_findings (policy_resolve who (scan src pointer) dir))"
  show wf: "rs_span_wf src f" using f by (rule resolved_wf)
  then have "set (rs_matched f) \<subseteq> set src"
    by (auto simp: rs_span_wf_def str_slice_Some_iff dest!: in_set_takeD in_set_dropD)
  with assms(3) show "mask_safe f" by (intro ascii_mask_safe) (auto simp: list_all_iff)
qed

end

end
