(* ===== verification/Core_Json.thy ===== *)
theory Core_Json
  imports Rust_Str Complex_Main
begin

text \<open>
  JSON values as \<open>serde_json::Value\<close> has them, the string nodes of a value with their JSON
  pointers (\<open>collect_string_nodes\<close> of \<open>src/proxy.rs\<close>), and what RFC 6901 says a pointer denotes.
  \<open>Value::pointer_mut\<close>, parsing and printing are parameters (\<open>json_api\<close>). Writing every string
  node back through its pointer is shown to be a structural map, for any keys: the escaping of
  \<open>collect_string_nodes\<close> and the unescaping of the RFC cancel.
\<close>

section \<open>Values\<close>

datatype json_number = PosInt nat | NegInt int | NFloat real

datatype json =
    JNull
  | JBool bool
  | JNum json_number
  | JStr string
  | JArr "json list"
  | JObj "(string \<times> json) list"

text \<open>A \<open>Map\<close> has each key once.\<close>

fun json_wf :: "json \<Rightarrow> bool" where
  "json_wf (JArr xs) \<longleftrightarrow> (\<forall>x \<in> set xs. json_wf x)"
| "json_wf (JObj m) \<longleftrightarrow> distinct (map fst m) \<and> (\<forall>(k, x) \<in> set m. json_wf x)"
| "json_wf _ \<longleftrightarrow> True"

text \<open>The decimal digits of a number, as \<open>format!\<close> writes them.\<close>

fun show_nat :: "nat \<Rightarrow> string" where
  "show_nat n = (if n < 10 then [char_of (48 + n)] else show_nat (n div 10) @ [char_of (48 + n mod 10)])"

declare show_nat.simps [simp del]

section \<open>Accessors of \<open>serde_json::Value\<close>\<close>

fun json_get :: "json \<Rightarrow> string \<Rightarrow> json option" where
  "json_get (JObj m) key = map_of m key"
| "json_get _ key = None"

fun json_as_str :: "json \<Rightarrow> string option" where
  "json_as_str (JStr s) = Some s"
| "json_as_str _ = None"

fun json_as_u64 :: "json \<Rightarrow> nat option" where
  "json_as_u64 (JNum (PosInt n)) = Some n"
| "json_as_u64 _ = None"

fun json_as_bool :: "json \<Rightarrow> bool option" where
  "json_as_bool (JBool b) = Some b"
| "json_as_bool _ = None"

fun json_as_i64 :: "json \<Rightarrow> int option" where
  "json_as_i64 (JNum (PosInt n)) = (if n < 2 ^ 63 then Some (int n) else None)"
| "json_as_i64 (JNum (NegInt i)) = Some i"
| "json_as_i64 _ = None"

section \<open>String nodes\<close>

definition escape_key :: "string \<Rightarrow> string" where
  "escape_key key = str_replace_char CHR ''/'' ''~1'' (str_replace_char CHR ''~'' ''~0'' key)"

fun collect_string_nodes :: "json \<Rightarrow> string \<Rightarrow> (string \<times> string) list"
  and collect_items :: "nat \<Rightarrow> json list \<Rightarrow> string \<Rightarrow> (string \<times> string) list"
  and collect_members :: "(string \<times> json) list \<Rightarrow> string \<Rightarrow> (string \<times> string) list" where
  "collect_string_nodes (JStr s) pointer = [(pointer, s)]"
| "collect_string_nodes (JArr items) pointer = collect_items 0 items pointer"
| "collect_string_nodes (JObj m) pointer = collect_members m pointer"
| "collect_string_nodes _ pointer = []"
| "collect_items index [] pointer = []"
| "collect_items index (item # items) pointer =
     collect_string_nodes item (pointer @ ''/'' @ show_nat index) @
     collect_items (Suc index) items pointer"
| "collect_members [] pointer = []"
| "collect_members ((key, item) # m) pointer =
     collect_string_nodes item (pointer @ ''/'' @ escape_key key) @ collect_members m pointer"

section \<open>Pointers\<close>

text \<open>
  RFC 6901: a pointer is empty or a sequence of tokens, each after a slash; in a token \<open>~1\<close> stands
  for a slash and then \<open>~0\<close> for a tilde; a token names a member of an object, or an item of an
  array by its index without leading zeros.
\<close>

fun unescape_pair :: "char \<Rightarrow> char \<Rightarrow> string \<Rightarrow> string" where
  "unescape_pair d r (a # b # s) =
     (if a = CHR ''~'' \<and> b = d then r # unescape_pair d r s else a # unescape_pair d r (b # s))"
| "unescape_pair d r s = s"

definition unescape_token :: "string \<Rightarrow> string" where
  "unescape_token t = unescape_pair CHR ''0'' CHR ''~'' (unescape_pair CHR ''1'' CHR ''/'' t)"

definition pointer_tokens :: "string \<Rightarrow> string list option" where
  "pointer_tokens p =
     (if p = [] then Some []
      else if hd p = CHR ''/'' then Some (map unescape_token (tl (split_on CHR ''/'' p)))
      else None)"

definition digits_value :: "string \<Rightarrow> nat" where
  "digits_value s = foldl (\<lambda>n c. 10 * n + (byte_val c - 48)) 0 s"

definition parse_index :: "string \<Rightarrow> nat option" where
  "parse_index s =
     (if s = [] \<or> \<not> list_all is_ascii_digit s \<or> (hd s = CHR ''0'' \<and> tl s \<noteq> []) then None
      else Some (digits_value s))"

fun set_tokens :: "json \<Rightarrow> string list \<Rightarrow> string \<Rightarrow> json option" where
  "set_tokens v [] s = Some (JStr s)"
| "set_tokens (JObj m) (t # ts) s =
     (case map_of m t of
        None \<Rightarrow> None
      | Some w \<Rightarrow> map_option (\<lambda>w'. JObj (hm_insert t w' m)) (set_tokens w ts s))"
| "set_tokens (JArr xs) (t # ts) s =
     (case parse_index t of
        None \<Rightarrow> None
      | Some i \<Rightarrow> if i < length xs then map_option (\<lambda>w'. JArr (xs[i := w'])) (set_tokens (xs ! i) ts s)
                 else None)"
| "set_tokens _ (t # ts) s = None"

definition rfc_pointer_set :: "json \<Rightarrow> string \<Rightarrow> string \<Rightarrow> json option" where
  "rfc_pointer_set v p s = Option.bind (pointer_tokens p) (\<lambda>ts. set_tokens v ts s)"

text \<open>
  The \<open>serde_json\<close> crate: assignment of a string through \<open>pointer_mut\<close> (\<open>None\<close> when it finds no
  value), parsing (from a slice, and from a \<open>str\<close>) and printing.
\<close>

record json_api =
  js_pointer_set :: "json \<Rightarrow> string \<Rightarrow> string \<Rightarrow> json option"
  js_parse :: "string \<Rightarrow> json option"
  js_print :: "json \<Rightarrow> string option"

definition json_sound :: "json_api \<Rightarrow> bool" where
  "json_sound J \<longleftrightarrow> (\<forall>v p s. js_pointer_set J v p s = rfc_pointer_set v p s) \<and>
     (\<forall>b v. js_parse J b = Some v \<longrightarrow> json_wf v)"

section \<open>Escaping cancels\<close>

lemma escape_key_eq:
  "escape_key k = concat (map (\<lambda>c. if c = CHR ''~'' then ''~0'' else if c = CHR ''/'' then ''~1'' else [c]) k)"
  by (induction k) (auto simp: escape_key_def str_replace_char_def)

lemma unescape_pair_Cons [simp]: "c \<noteq> CHR ''~'' \<Longrightarrow> unescape_pair d r (c # s) = c # unescape_pair d r s"
  by (cases s) auto

lemma unescape_escape_slash:
  "unescape_pair CHR ''1'' CHR ''/'' (escape_key k) = str_replace_char CHR ''~'' ''~0'' k"
  by (induction k) (auto simp: escape_key_eq str_replace_char_def)

lemma unescape_tilde:
  "unescape_pair CHR ''0'' CHR ''~'' (str_replace_char CHR ''~'' ''~0'' k) = k"
  by (induction k) (auto simp: str_replace_char_def)

lemma unescape_escape [simp]: "unescape_token (escape_key k) = k"
  by (simp add: unescape_token_def unescape_escape_slash unescape_tilde)

lemma escape_key_no_slash: "CHR ''/'' \<notin> set (escape_key k)"
  by (auto simp: escape_key_eq split: if_splits)

lemma show_nat_digits: "list_all is_ascii_digit (show_nat n)"
proof (induction n rule: show_nat.induct)
  case (1 n)
  have "is_ascii_digit (char_of (48 + k))" if "k < 10" for k :: nat
    using that by (simp add: is_ascii_digit_def)
  with 1 show ?case by (subst show_nat.simps) simp
qed

lemma show_nat_nonempty [simp]: "show_nat n \<noteq> []"
  by (subst show_nat.simps) simp

lemma digits_value_show_nat [simp]: "digits_value (show_nat n) = n"
proof (induction n rule: show_nat.induct)
  case (1 n)
  have "n mod 10 < 10" by simp
  with 1 show ?case
    by (subst show_nat.simps) (auto simp: digits_value_def)
qed

lemma show_nat_no_leading_zero: "hd (show_nat n) = CHR ''0'' \<Longrightarrow> n = 0"
proof (induction n rule: show_nat.induct)
  case (1 n)
  show ?case
  proof (cases "n < 10")
    case True
    then have "of_char (char_of (48 + n)) = 48 + n" by simp
    moreover have "hd (show_nat n) = char_of (48 + n)" using True by (subst show_nat.simps) simp
    ultimately have "48 + n = of_char CHR ''0''" using "1.prems" by metis
    then show ?thesis by simp
  next
    case False
    then have "hd (show_nat n) = hd (show_nat (n div 10))" by (subst show_nat.simps) simp
    with 1 False show ?thesis by auto
  qed
qed

lemma parse_index_show_nat [simp]: "parse_index (show_nat n) = Some n"
proof -
  have "tl (show_nat n) = []" if "hd (show_nat n) = CHR ''0''"
    using show_nat_no_leading_zero [OF that] by (simp add: show_nat.simps)
  then show ?thesis by (auto simp: parse_index_def show_nat_digits)
qed

lemma digit_plain: "is_ascii_digit c \<Longrightarrow> c \<noteq> CHR ''/'' \<and> c \<noteq> CHR ''~''"
  by (auto simp: is_ascii_digit_def)

lemma unescape_pair_plain: "CHR ''~'' \<notin> set s \<Longrightarrow> unescape_pair d r s = s"
  by (induction s) auto

lemma show_nat_plain: "CHR ''/'' \<notin> set (show_nat n)" "CHR ''~'' \<notin> set (show_nat n)"
  using show_nat_digits [of n] digit_plain by (auto simp: list_all_iff)

lemma unescape_show_nat [simp]: "unescape_token (show_nat n) = show_nat n"
  by (simp add: unescape_token_def unescape_pair_plain show_nat_plain)

section \<open>Writing back through the pointers\<close>

text \<open>A pointer as the code builds it, from its escaped tokens, and the tokens RFC 6901 reads.\<close>

lemma split_on_pointer:
  "(\<And>t. t \<in> set ts \<Longrightarrow> CHR ''/'' \<notin> set t) \<Longrightarrow>
     split_on CHR ''/'' (concat (map (\<lambda>t. CHR ''/'' # t) ts)) = (if ts = [] then [[]] else [] # ts)"
proof (induction ts)
  case (Cons t ts)
  then show ?case by (cases ts) (auto simp: split_on_append split_on_absent)
qed simp

lemma pointer_tokens_concat:
  assumes "\<And>t. t \<in> set ts \<Longrightarrow> CHR ''/'' \<notin> set t"
  shows "pointer_tokens (concat (map (\<lambda>t. CHR ''/'' # t) ts)) = Some (map unescape_token ts)"
  using split_on_pointer [of ts] assms by (cases ts) (auto simp: pointer_tokens_def)

text \<open>The same nodes, with the list of unescaped tokens in place of the pointer.\<close>

fun token_nodes :: "json \<Rightarrow> (string list \<times> string) list"
  and token_items :: "nat \<Rightarrow> json list \<Rightarrow> (string list \<times> string) list"
  and token_members :: "(string \<times> json) list \<Rightarrow> (string list \<times> string) list" where
  "token_nodes (JStr s) = [([], s)]"
| "token_nodes (JArr items) = token_items 0 items"
| "token_nodes (JObj m) = token_members m"
| "token_nodes _ = []"
| "token_items index [] = []"
| "token_items index (item # items) =
     map (apfst (Cons (show_nat index))) (token_nodes item) @ token_items (Suc index) items"
| "token_members [] = []"
| "token_members ((key, item) # m) =
     map (apfst (Cons key)) (token_nodes item) @ token_members m"

lemma collect_tokens:
  "(\<And>t. t \<in> set pre \<Longrightarrow> CHR ''/'' \<notin> set t) \<Longrightarrow>
     map (apfst pointer_tokens) (collect_string_nodes v (concat (map (\<lambda>t. CHR ''/'' # t) pre))) =
     map (apfst (\<lambda>ts. Some (map unescape_token pre @ ts))) (token_nodes v)"
  "(\<And>t. t \<in> set pre \<Longrightarrow> CHR ''/'' \<notin> set t) \<Longrightarrow>
     map (apfst pointer_tokens) (collect_items index items (concat (map (\<lambda>t. CHR ''/'' # t) pre))) =
     map (apfst (\<lambda>ts. Some (map unescape_token pre @ ts))) (token_items index items)"
  "(\<And>t. t \<in> set pre \<Longrightarrow> CHR ''/'' \<notin> set t) \<Longrightarrow>
     map (apfst pointer_tokens) (collect_members m (concat (map (\<lambda>t. CHR ''/'' # t) pre))) =
     map (apfst (\<lambda>ts. Some (map unescape_token pre @ ts))) (token_members m)"
proof (induction v and index items and m arbitrary: pre and pre and pre
    rule: token_nodes_token_items_token_members.induct, goal_cases)
  case (1 s pre)
  then show ?case by (simp add: pointer_tokens_concat)
next
  case (8 index item items pre)
  have "map (apfst pointer_tokens)
      (collect_string_nodes item (concat (map (\<lambda>t. CHR ''/'' # t) (pre @ [show_nat index])))) =
    map (apfst (\<lambda>ts. Some (map unescape_token (pre @ [show_nat index]) @ ts))) (token_nodes item)"
    by (rule 8(1)) (use 8(3) show_nat_plain in auto)
  with 8(2) [OF 8(3)] show ?case by (simp add: apfst_def map_prod_def comp_def case_prod_beta)
next
  case (10 key item m pre)
  have "map (apfst pointer_tokens)
      (collect_string_nodes item (concat (map (\<lambda>t. CHR ''/'' # t) (pre @ [escape_key key])))) =
    map (apfst (\<lambda>ts. Some (map unescape_token (pre @ [escape_key key]) @ ts))) (token_nodes item)"
    by (rule 10(1)) (use 10(3) escape_key_no_slash in auto)
  with 10(2) [OF 10(3)] show ?case by (simp add: apfst_def map_prod_def comp_def case_prod_beta)
qed simp_all

lemma length_token_nodes:
  "length (collect_string_nodes v pointer) = length (token_nodes v)"
  "length (collect_items index items pointer) = length (token_items index items)"
  "length (collect_members m pointer) = length (token_members m)"
  by (induction v and index items and m arbitrary: pointer and pointer and pointer
      rule: token_nodes_token_items_token_members.induct) auto

text \<open>
  A write-back: for each pointer a new string, or nothing for a node that is left alone. The
  specification \<open>refill\<close> replaces the strings of a value in the order of its nodes.
\<close>

definition write_node :: "(json \<Rightarrow> 'p \<Rightarrow> string \<Rightarrow> json option) \<Rightarrow> 'p \<times> string option \<Rightarrow> json \<Rightarrow> json" where
  "write_node set_at = (\<lambda>(p, r) v.
     case r of None \<Rightarrow> v | Some s \<Rightarrow> (case set_at v p s of Some v' \<Rightarrow> v' | None \<Rightarrow> v))"

definition write_nodes :: "(json \<Rightarrow> 'p \<Rightarrow> string \<Rightarrow> json option) \<Rightarrow> ('p \<times> string option) list \<Rightarrow> json \<Rightarrow> json" where
  "write_nodes set_at pts v = fold (write_node set_at) pts v"

fun refill :: "json \<Rightarrow> string option list \<Rightarrow> json"
  and refill_items :: "json list \<Rightarrow> string option list \<Rightarrow> json list"
  and refill_members :: "(string \<times> json) list \<Rightarrow> string option list \<Rightarrow> (string \<times> json) list" where
  "refill (JStr s) rs = JStr (case rs of Some s' # _ \<Rightarrow> s' | _ \<Rightarrow> s)"
| "refill (JArr xs) rs = JArr (refill_items xs rs)"
| "refill (JObj m) rs = JObj (refill_members m rs)"
| "refill v rs = v"
| "refill_items [] rs = []"
| "refill_items (x # xs) rs =
     refill x (take (length (token_nodes x)) rs) # refill_items xs (drop (length (token_nodes x)) rs)"
| "refill_members [] rs = []"
| "refill_members ((k, x) # m) rs =
     (k, refill x (take (length (token_nodes x)) rs)) # refill_members m (drop (length (token_nodes x)) rs)"

lemma write_nodes_simps [simp]:
  "write_nodes set_at [] v = v"
  "write_nodes set_at (pt # pts) v = write_nodes set_at pts (write_node set_at pt v)"
  "write_nodes set_at (pts @ qts) v = write_nodes set_at qts (write_nodes set_at pts v)"
  by (simp_all add: write_nodes_def)

lemma write_nodes_JArr:
  "i < length xs \<Longrightarrow> write_nodes set_tokens (map (apfst (Cons (show_nat i))) pts) (JArr xs) =
     JArr (xs[i := write_nodes set_tokens pts (xs ! i)])"
proof (induction pts arbitrary: xs)
  case (Cons pt pts)
  have "write_node set_tokens (apfst (Cons (show_nat i)) pt) (JArr xs) =
      JArr (xs[i := write_node set_tokens pt (xs ! i)])"
    using Cons.prems by (cases pt) (auto simp: write_node_def split: option.splits)
  with Cons show ?case by simp
qed simp

lemma hm_insert_twice [simp]: "hm_insert k x (hm_insert k y m) = hm_insert k x m"
  by (induction k y m rule: hm_insert.induct) auto

lemma hm_insert_same: "map_of m k = Some w \<Longrightarrow> hm_insert k w m = m"
  by (induction k w m rule: hm_insert.induct) (auto split: if_splits)

lemma map_of_hm_insert [simp]: "map_of (hm_insert k v m) = (map_of m)(k \<mapsto> v)"
  using hm_get_insert [of k v m] by (auto simp: hm_get_def)

lemma write_nodes_JObj:
  "map_of m k = Some w \<Longrightarrow> write_nodes set_tokens (map (apfst (Cons k)) pts) (JObj m) =
     JObj (hm_insert k (write_nodes set_tokens pts w) m)"
proof (induction pts arbitrary: m w)
  case Nil
  then show ?case by (simp add: hm_insert_same)
next
  case (Cons pt pts)
  have "write_node set_tokens (apfst (Cons k) pt) (JObj m) =
      JObj (hm_insert k (write_node set_tokens pt w) m)"
    using Cons.prems by (cases pt) (auto simp: write_node_def hm_insert_same split: option.splits)
  with Cons.IH [of "hm_insert k (write_node set_tokens pt w) m"] show ?case by simp
qed

lemma hm_insert_middle:
  "k \<notin> fst ` set pre \<Longrightarrow> hm_insert k x (pre @ (k, w) # m) = pre @ (k, x) # m"
  by (induction pre) auto

lemma zip_nodes_append:
  "length rs = length ps + length qs \<Longrightarrow>
     zip (ps @ qs) rs = zip ps (take (length ps) rs) @ zip qs (drop (length ps) rs)"
  by (simp add: zip_append1)

lemma map_zip_Cons: "zip (map (f \<circ> fst) ns) rs = map (apfst f) (zip (map fst ns) rs)"
proof (induction ns arbitrary: rs)
  case (Cons n ns)
  then show ?case by (cases rs) simp_all
qed simp

lemma write_nodes_refill:
  "json_wf v \<Longrightarrow> length rs = length (token_nodes v) \<Longrightarrow>
     write_nodes set_tokens (zip (map fst (token_nodes v)) rs) v = refill v rs"
  "(\<forall>x \<in> set items. json_wf x) \<Longrightarrow> length rs = length (token_items index items) \<Longrightarrow> index = length pre \<Longrightarrow>
     write_nodes set_tokens (zip (map fst (token_items index items)) rs) (JArr (pre @ items)) =
     JArr (pre @ refill_items items rs)"
  "(\<forall>(k, x) \<in> set m. json_wf x) \<Longrightarrow> distinct (map fst (prem @ m)) \<Longrightarrow> length rs = length (token_members m) \<Longrightarrow>
     write_nodes set_tokens (zip (map fst (token_members m)) rs) (JObj (prem @ m)) =
     JObj (prem @ refill_members m rs)"
proof (induction v and index items and m arbitrary: rs and rs pre and rs prem
    rule: token_nodes_token_items_token_members.induct, goal_cases)
  case (1 s rs)
  then show ?case by (cases rs) (auto simp: write_node_def split: option.splits)
next
  case (2 items rs)
  then show ?case using "2"(1) [of rs "[]"] by simp
next
  case (3 m rs)
  then show ?case using "3"(1) [of "[]" rs] by simp
next
  case (8 index item items rs pre)
  let ?n = "length (token_nodes item)"
  have "write_nodes set_tokens (zip (map fst (token_nodes item)) (take ?n rs)) item = refill item (take ?n rs)"
    using 8 by (intro 8(1)) auto
  then have "write_nodes set_tokens (map (apfst (Cons (show_nat index))) (zip (map fst (token_nodes item)) (take ?n rs)))
      (JArr (pre @ item # items)) = JArr ((pre @ [refill item (take ?n rs)]) @ items)"
    using 8 by (subst write_nodes_JArr) auto
  moreover have "write_nodes set_tokens (zip (map fst (token_items (Suc index) items)) (drop ?n rs))
      (JArr ((pre @ [refill item (take ?n rs)]) @ items)) =
    JArr ((pre @ [refill item (take ?n rs)]) @ refill_items items (drop ?n rs))"
    using 8 by (intro 8(2)) auto
  ultimately show ?case using 8(4)
    by (simp add: zip_nodes_append map_zip_Cons comp_def [symmetric])
next
  case (10 key item m rs prem)
  let ?n = "length (token_nodes item)"
  have "write_nodes set_tokens (zip (map fst (token_nodes item)) (take ?n rs)) item = refill item (take ?n rs)"
    using 10 by (intro 10(1)) auto
  moreover have "map_of (prem @ (key, item) # m) key = Some item"
    using 10(4) by (auto simp: map_add_def dest: map_of_SomeD split: option.splits) force
  ultimately have "write_nodes set_tokens (map (apfst (Cons key)) (zip (map fst (token_nodes item)) (take ?n rs)))
      (JObj (prem @ (key, item) # m)) = JObj ((prem @ [(key, refill item (take ?n rs))]) @ m)"
    using 10(4) by (subst write_nodes_JObj) (auto simp: hm_insert_middle)
  moreover have "write_nodes set_tokens (zip (map fst (token_members m)) (drop ?n rs))
      (JObj ((prem @ [(key, refill item (take ?n rs))]) @ m)) =
    JObj ((prem @ [(key, refill item (take ?n rs))]) @ refill_members m (drop ?n rs))"
    using 10 by (intro 10(2)) auto
  ultimately show ?case using 10(5)
    by (simp add: zip_nodes_append map_zip_Cons comp_def [symmetric])
qed (simp_all)

lemma write_nodes_pointers:
  assumes "json_sound J" and "map pointer_tokens ps = map Some tss"
  shows "write_nodes (js_pointer_set J) (zip ps rs) v = write_nodes set_tokens (zip tss rs) v"
  using assms(2)
proof (induction ps arbitrary: tss rs v)
  case (Cons p ps)
  then obtain ts tss' where ts: "tss = ts # tss'" "pointer_tokens p = Some ts"
    "map pointer_tokens ps = map Some tss'" by auto
  have "js_pointer_set J v p s = set_tokens v ts s" for v s
    using assms(1) ts(2) by (simp add: json_sound_def rfc_pointer_set_def)
  then have "write_node (js_pointer_set J) (p, r) v = write_node set_tokens (ts, r) v" for r v
    by (cases r) (simp_all add: write_node_def)
  with Cons.IH [OF ts(3)] ts(1) show ?case by (cases rs) simp_all
qed simp

theorem write_back_refill:
  assumes "json_sound J" and "json_wf v" and "length rs = length (collect_string_nodes v [])"
  shows "write_nodes (js_pointer_set J) (zip (map fst (collect_string_nodes v [])) rs) v = refill v rs"
proof -
  have "map (apfst pointer_tokens) (collect_string_nodes v []) = map (apfst Some) (token_nodes v)"
    using collect_tokens(1) [of "[]" v] by simp
  then have "map fst (map (apfst pointer_tokens) (collect_string_nodes v [])) =
      map fst (map (apfst Some) (token_nodes v))" by (rule arg_cong)
  then have "map pointer_tokens (map fst (collect_string_nodes v [])) = map Some (map fst (token_nodes v))"
    by (simp add: comp_def)
  from write_nodes_pointers [OF assms(1) this] show ?thesis
    using write_nodes_refill(1) [OF assms(2)] assms(3) by (simp add: length_token_nodes)
qed

text \<open>The nodes of a refilled value are the nodes it had, with the new strings.\<close>

definition refill_node :: "string \<times> string \<Rightarrow> string option \<Rightarrow> string \<times> string" where
  "refill_node = (\<lambda>(p, s) r. (p, case r of Some s' \<Rightarrow> s' | None \<Rightarrow> s))"

lemma map2_append_take_drop:
  "length rs = length xs + length ys \<Longrightarrow>
     map2 f (xs @ ys) rs = map2 f xs (take (length xs) rs) @ map2 f ys (drop (length xs) rs)"
  by (simp add: zip_append1)

lemma collect_refill:
  "length rs = length (token_nodes v) \<Longrightarrow>
     collect_string_nodes (refill v rs) pointer = map2 refill_node (collect_string_nodes v pointer) rs"
  "length rs = length (token_items index items) \<Longrightarrow>
     collect_items index (refill_items items rs) pointer =
     map2 refill_node (collect_items index items pointer) rs"
  "length rs = length (token_members m) \<Longrightarrow>
     collect_members (refill_members m rs) pointer = map2 refill_node (collect_members m pointer) rs"
proof (induction v and index items and m arbitrary: rs pointer and rs pointer and rs pointer
    rule: token_nodes_token_items_token_members.induct, goal_cases)
  case (1 s rs pointer)
  then show ?case by (cases rs) (auto simp: refill_node_def split: option.splits)
next
  case (8 index item items rs pointer)
  then show ?case by (simp add: map2_append_take_drop length_token_nodes)
next
  case (10 key item m rs pointer)
  then show ?case by (simp add: map2_append_take_drop length_token_nodes)
qed simp_all

text \<open>The value with its strings blanked: what redaction does not touch.\<close>

fun json_shape :: "json \<Rightarrow> json" where
  "json_shape (JStr s) = JStr []"
| "json_shape (JArr xs) = JArr (map json_shape xs)"
| "json_shape (JObj m) = JObj (map (\<lambda>(k, x). (k, json_shape x)) m)"
| "json_shape v = v"

lemma json_shape_refill:
  "json_shape (refill v rs) = json_shape v"
  "map json_shape (refill_items items rs) = map json_shape items"
  "map (\<lambda>(k, x). (k, json_shape x)) (refill_members m rs) = map (\<lambda>(k, x). (k, json_shape x)) m"
  by (induction v rs and items rs and m rs rule: refill_refill_items_refill_members.induct) simp_all

end
