(* ===== verification/Gw_Upstreams.thy ===== *)
theory Gw_Upstreams
  imports Core_Redact Core_Json
begin

text \<open>
  \<open>src/opa.rs\<close> and \<open>src/presidio.rs\<close>: the two HTTP services the gateway consults. A service is
  the parameter that answers a request, with the parser of its JSON body; the clients around it
  are written out: what is sent, which answers are errors, how an OPA decision is merged and how
  Presidio's character offsets become byte spans.
\<close>

section \<open>HTTP answers\<close>

text \<open>A transport failure, or a status with the body text (\<open>None\<close> when it cannot be read).\<close>

datatype http_reply = TransportError string | HttpReply nat "string option"

definition status_is_success :: "nat \<Rightarrow> bool" where
  "status_is_success st \<longleftrightarrow> 200 \<le> st \<and> st < 300"

section \<open>OPA\<close>

datatype opa_error = OpaBuildClient string | OpaRequest string | OpaResponse nat string

record opa_authorizer =
  oa_url :: string
  oa_healthcheck_url :: string
  oa_fail_open :: bool
  oa_timeout_ms :: nat

record opa_input =
  oi_principal :: principal
  oi_direction :: direction
  oi_path :: string
  oi_session_escalated :: bool
  oi_current_decision :: decision_action
  oi_findings :: "resolved_finding list"

record opa_decision =
  od_action :: decision_action
  od_reason :: "string option"

text \<open>\<open>build\<close> of the HTTP client is the parameter \<open>build_error\<close>.\<close>

definition opa_from_config :: "string option \<Rightarrow> opa_config \<Rightarrow> opa_error + opa_authorizer option" where
  "opa_from_config build_error config =
     (if \<not> oc_enabled config then Inr None
      else (case build_error of
          Some e \<Rightarrow> Inl (OpaBuildClient e)
        | None \<Rightarrow>
            Inr (Some \<lparr>oa_url = oc_url config,
              oa_healthcheck_url = (case oc_healthcheck_url config of
                  Some u \<Rightarrow> u
                | None \<Rightarrow> trim_end_matches CHR ''/'' (oc_url config) @ ''/health''),
              oa_fail_open = oc_fail_open config, oa_timeout_ms = oc_timeout_ms config\<rparr>)))"

record opa_service =
  os_post :: "string \<Rightarrow> opa_input \<Rightarrow> http_reply"
  os_parse :: "string option \<Rightarrow> string + opa_decision option"

definition opa_evaluate ::
  "opa_service \<Rightarrow> opa_authorizer \<Rightarrow> opa_input \<Rightarrow> opa_error + opa_decision option" where
  "opa_evaluate S a input =
     (case os_post S (oa_url a) input of
        TransportError e \<Rightarrow> Inl (OpaRequest e)
      | HttpReply status body \<Rightarrow>
          if \<not> status_is_success status
          then Inl (OpaResponse status (case body of Some b \<Rightarrow> b | None \<Rightarrow> []))
          else (case os_parse S body of Inl e \<Rightarrow> Inl (OpaRequest e) | Inr r \<Rightarrow> Inr r))"

definition opa_merge :: "opa_decision \<Rightarrow> policy_outcome \<Rightarrow> policy_outcome" where
  "opa_merge d base =
     \<lparr>po_decision = combine (po_decision base) (od_action d), po_findings = po_findings base,
      po_source = ''opa'', po_reason = od_reason d\<rparr>"

lemma opa_merge_ge: "rank (po_decision base) \<le> rank (po_decision (opa_merge d base))"
  by (simp add: opa_merge_def decisions.strictness_join)

lemma opa_merge_findings [simp]: "po_findings (opa_merge d base) = po_findings base"
  by (simp add: opa_merge_def)

section \<open>Presidio\<close>

datatype presidio_error = PsBuildClient string | PsRequest string | PsResponse nat string

record presidio_analyzer =
  pz_analyzer_url :: string
  pz_healthcheck_url :: string
  pz_language :: string
  pz_entity_map :: "(string, presidio_entity_config) hmap"
  pz_timeout_ms :: nat

definition presidio_from_config ::
  "string option \<Rightarrow> presidio_config \<Rightarrow> presidio_error + presidio_analyzer option" where
  "presidio_from_config build_error config =
     (if \<not> ps_enabled config then Inr None
      else (case build_error of
          Some e \<Rightarrow> Inl (PsBuildClient e)
        | None \<Rightarrow>
            Inr (Some \<lparr>pz_analyzer_url = ps_analyzer_url config,
              pz_healthcheck_url = (case ps_healthcheck_url config of
                  Some u \<Rightarrow> u | None \<Rightarrow> ps_analyzer_url config),
              pz_language = ps_language config,
              pz_entity_map = hm_from_list (map (\<lambda>e. (pe_entity_type e, e)) (ps_entities config)),
              pz_timeout_ms = ps_timeout_ms config\<rparr>)))"

record analyze_request =
  aq_text :: string
  aq_language :: string
  aq_entities :: "string list"

record analyzer_result =
  az_start :: nat
  az_end :: nat
  az_score :: real
  az_entity_type :: string

record presidio_service =
  pv_post :: "string \<Rightarrow> analyze_request \<Rightarrow> http_reply"
  pv_parse :: "string option \<Rightarrow> string + analyzer_result list"

definition character_boundaries :: "string \<Rightarrow> nat list" where
  "character_boundaries src = map fst (char_indices src) @ [length src]"

definition char_offset_to_byte_index :: "nat list \<Rightarrow> nat \<Rightarrow> nat \<Rightarrow> nat" where
  "char_offset_to_byte_index boundaries char_offset text_len =
     (if char_offset < length boundaries then boundaries ! char_offset else text_len)"

definition entity_metadata :: "presidio_entity_config \<Rightarrow> rule_metadata" where
  "entity_metadata e =
     \<lparr>rm_rule_name = ''presidio:'' @ pe_entity_type e, rm_label = pe_label e,
      rm_severity = pe_severity e, rm_authorized_action = pe_authorized_action e,
      rm_unauthorized_action = pe_unauthorized_action e, rm_min_clearance = pe_min_clearance e,
      rm_masking = pe_masking e\<rparr>"

text \<open>One turn of the loop over the results: a finding, nothing (\<open>continue\<close>), or a panic.\<close>

definition analyzer_finding ::
  "hash_api \<Rightarrow> presidio_analyzer \<Rightarrow> string \<Rightarrow> string \<Rightarrow> analyzer_result \<Rightarrow>
     (presidio_error, detection_finding list) rres" where
  "analyzer_finding H p src pointer item =
     (case hm_get (pz_entity_map p) (az_entity_type item) of
        None \<Rightarrow> Ok []
      | Some entity \<Rightarrow>
          if az_score item < pe_min_score entity then Ok []
          else
            (let start = char_offset_to_byte_index (character_boundaries src) (az_start item) (length src);
                 fin = char_offset_to_byte_index (character_boundaries src) (az_end item) (length src)
             in if start \<ge> fin then Ok []
                else rbind (or_panic (str_slice src start fin)) (\<lambda>matched.
                  Ok [detection_finding_new H start fin matched pointer (entity_metadata entity)])))"

fun analyzer_findings ::
  "hash_api \<Rightarrow> presidio_analyzer \<Rightarrow> string \<Rightarrow> string \<Rightarrow> analyzer_result list \<Rightarrow>
     (presidio_error, detection_finding list) rres" where
  "analyzer_findings H p src pointer [] = Ok []"
| "analyzer_findings H p src pointer (item # items) =
     rbind (analyzer_finding H p src pointer item) (\<lambda>fs.
       rmap (append fs) (analyzer_findings H p src pointer items))"

definition presidio_analyze ::
  "presidio_service \<Rightarrow> hash_api \<Rightarrow> presidio_analyzer \<Rightarrow> string \<Rightarrow> string \<Rightarrow>
     (presidio_error, detection_finding list) rres" where
  "presidio_analyze S H p src pointer =
     (if trim src = [] \<or> pz_entity_map p = [] then Ok []
      else (case pv_post S (pz_analyzer_url p)
                   \<lparr>aq_text = src, aq_language = pz_language p,
                    aq_entities = map fst (pz_entity_map p)\<rparr> of
          TransportError e \<Rightarrow> Err (PsRequest e)
        | HttpReply status body \<Rightarrow>
            if \<not> status_is_success status
            then Err (PsResponse status (case body of Some b \<Rightarrow> b | None \<Rightarrow> []))
            else (case pv_parse S body of
                Inl e \<Rightarrow> Err (PsRequest e)
              | Inr items \<Rightarrow> analyzer_findings H p src pointer items)))"

section \<open>Offsets become spans of the text\<close>

lemma map_fst_char_indices_from:
  "map fst (char_indices_from i chs) = map (\<lambda>j. i + length (concat (take j chs))) [0 ..< length chs]"
proof (induction i chs rule: char_indices_from.induct)
  case (2 i ch chs)
  have "[0 ..< length (ch # chs)] = 0 # map Suc [0 ..< length chs]"
    by (simp add: upt_conv_Cons map_Suc_upt del: upt_Suc)
  with 2 show ?case by (simp add: comp_def add.assoc del: upt_Suc)
qed simp

text \<open>The byte index of the \<open>n\<close>-th character; past the end, the length of the text.\<close>

lemma char_offset_eq:
  "char_offset_to_byte_index (character_boundaries src) n (length src) =
     length (concat (take n (utf8_chars src)))"
proof (cases "n < length (utf8_chars src)")
  case True
  then show ?thesis
    by (simp add: char_offset_to_byte_index_def character_boundaries_def char_indices_def
        map_fst_char_indices_from nth_append)
next
  case False
  then have "take n (utf8_chars src) = utf8_chars src" by simp
  with False show ?thesis
    by (simp add: char_offset_to_byte_index_def character_boundaries_def char_indices_def
        map_fst_char_indices_from nth_append)
qed

lemma char_offset_boundary:
  "is_char_boundary src (char_offset_to_byte_index (character_boundaries src) n (length src))"
  unfolding char_offset_eq
  by (rule utf8_chars_boundary [of _ _ "drop n (utf8_chars src)"]) simp

text \<open>The slice between two character offsets is those characters: no panic, no shift.\<close>

lemma char_offset_slice:
  assumes "a \<le> b"
  shows "str_slice src (char_offset_to_byte_index (character_boundaries src) a (length src))
      (char_offset_to_byte_index (character_boundaries src) b (length src)) =
    Some (concat (drop a (take b (utf8_chars src))))"
proof -
  have split: "take b (utf8_chars src) = take a (utf8_chars src) @ drop a (take b (utf8_chars src))"
    using assms by (metis append_take_drop_id min.absorb1 take_take)
  let ?A = "concat (take a (utf8_chars src))" and ?M = "concat (drop a (take b (utf8_chars src)))"
  have B: "concat (take b (utf8_chars src)) = ?A @ ?M" using split by (metis concat_append)
  have "src = concat (take b (utf8_chars src)) @ concat (drop b (utf8_chars src))"
    by (metis append_take_drop_id concat_append concat_utf8_chars)
  then have src: "src = ?A @ ?M @ concat (drop b (utf8_chars src))" using B by simp
  have len: "length (concat (take b (utf8_chars src))) = length ?A + length ?M" using B by simp
  have "take (length ?M) (drop (length ?A) src) = ?M" by (subst src) simp
  with char_offset_boundary [of src a] char_offset_boundary [of src b] len show ?thesis
    by (simp add: str_slice_Some_iff char_offset_eq)
qed

lemma char_offset_mono:
  "char_offset_to_byte_index (character_boundaries src) a (length src) <
     char_offset_to_byte_index (character_boundaries src) b (length src) \<Longrightarrow> a \<le> b"
proof (rule ccontr)
  assume lt: "char_offset_to_byte_index (character_boundaries src) a (length src) <
     char_offset_to_byte_index (character_boundaries src) b (length src)" and "\<not> a \<le> b"
  then have "take a (utf8_chars src) = take b (utf8_chars src) @ drop b (take a (utf8_chars src))"
    by (metis append_take_drop_id min.absorb1 nat_le_linear take_take)
  then have "concat (take a (utf8_chars src)) = concat (take b (utf8_chars src)) @ concat (drop b (take a (utf8_chars src)))"
    by (metis concat_append)
  with lt show False by (simp add: char_offset_eq)
qed

lemma analyzer_finding_wf:
  assumes "analyzer_finding H p src pointer item = Ok fs" and "f \<in> set fs"
  shows "finding_wf src f \<and> df_pointer f = pointer \<and> df_start f < df_end f"
  using assms
  by (auto simp: analyzer_finding_def Let_def rres_iffs finding_wf_def detection_finding_new_def
      split: option.splits if_splits)

lemma analyzer_finding_not_Panic: "analyzer_finding H p src pointer item \<noteq> Panic"
proof -
  have "str_slice src (char_offset_to_byte_index (character_boundaries src) a (length src))
      (char_offset_to_byte_index (character_boundaries src) b (length src)) \<noteq> None"
    if "char_offset_to_byte_index (character_boundaries src) a (length src) <
      char_offset_to_byte_index (character_boundaries src) b (length src)" for a b
    using char_offset_slice [OF char_offset_mono [OF that]] by simp
  from this [of "az_start item" "az_end item"] show ?thesis
    by (auto simp: analyzer_finding_def Let_def or_panic_def not_le split: option.splits)
qed

lemma analyzer_findings_wf:
  "analyzer_findings H p src pointer items = Ok fs \<Longrightarrow> f \<in> set fs \<Longrightarrow>
     finding_wf src f \<and> df_pointer f = pointer"
  by (induction items arbitrary: fs) (auto simp: rres_iffs dest: analyzer_finding_wf)

lemma analyzer_findings_not_Panic: "analyzer_findings H p src pointer items \<noteq> Panic"
  by (induction items) (auto simp: rres_iffs analyzer_finding_not_Panic)

lemma presidio_analyze_not_Panic: "presidio_analyze S H p src pointer \<noteq> Panic"
  by (auto simp: presidio_analyze_def analyzer_findings_not_Panic
      split: http_reply.splits sum.splits)

text \<open>What Presidio contributes to a scan: its findings, none when it fails.\<close>

definition presidio_found ::
  "presidio_service \<Rightarrow> hash_api \<Rightarrow> presidio_analyzer \<Rightarrow> string \<Rightarrow> string \<Rightarrow> detection_finding list" where
  "presidio_found S H p src pointer =
     (case presidio_analyze S H p src pointer of Ok fs \<Rightarrow> fs | _ \<Rightarrow> [])"

lemma presidio_found_wf:
  assumes "f \<in> set (presidio_found S H p src pointer)"
  shows "finding_wf src f \<and> df_pointer f = pointer"
proof -
  from assms obtain fs where "presidio_analyze S H p src pointer = Ok fs" "f \<in> set fs"
    by (cases "presidio_analyze S H p src pointer") (auto simp: presidio_found_def)
  then show ?thesis
    by (auto simp: presidio_analyze_def dest: analyzer_findings_wf
        split: if_splits http_reply.splits sum.splits)
qed

interpretation presidio: span_source "presidio_found S H p" for S H p
  by unfold_locales (use presidio_found_wf in blast)+

text \<open>Two sources of well-placed findings make one.\<close>

lemma span_source_append:
  assumes "span_source a" and "span_source b"
  shows "span_source (\<lambda>src pointer. a src pointer @ b src pointer)"
  using span_source.scan_wf [OF assms(1)] span_source.scan_wf [OF assms(2)]
    span_source.scan_pointer [OF assms(1)] span_source.scan_pointer [OF assms(2)]
  by unfold_locales auto

end
