(* ===== verification/Core_Redact_Api.thy ===== *)
theory Core_Redact_Api
  imports Core_Redact Core_Json
begin

text \<open>
  \<open>crates/ctxward-core/src/redact_api.rs\<close>: the scrubber of the browser extension. No tokenizer is
  passed, so no random UUID is drawn. A panic of the redactor is \<open>None\<close>. Parsing of the detection
  configuration is a parameter.
\<close>

section \<open>The operations\<close>

text \<open>The detector with the crates it runs on.\<close>

record scan_api =
  sc_regex :: regex_api
  sc_hash :: hash_api
  sc_crypto :: crypto_api
  sc_unicode :: unicode_api
  sc_json :: json_api

definition redact_found :: "scan_api \<Rightarrow> detection_finding list \<Rightarrow> principal \<Rightarrow> string \<Rightarrow> string option" where
  "redact_found A findings who s =
     (case redact_text (sc_crypto A) (sc_unicode A) (sc_hash A) None (\<lambda>_. []) s
            (po_findings (policy_resolve who findings Request)) of
        Ok redacted \<Rightarrow> Some redacted
      | Err _ \<Rightarrow> Some s
      | Panic \<Rightarrow> None)"

definition redact_string :: "scan_api \<Rightarrow> detector \<Rightarrow> principal \<Rightarrow> string \<Rightarrow> string option" where
  "redact_string A d who s =
     (let findings = scan_text (sc_regex A) (sc_hash A) d s ''/'' in
      if findings = [] then Some s else redact_found A findings who s)"

fun redact_value :: "scan_api \<Rightarrow> detector \<Rightarrow> principal \<Rightarrow> json \<Rightarrow> json option"
  and redact_items :: "scan_api \<Rightarrow> detector \<Rightarrow> principal \<Rightarrow> json list \<Rightarrow> json list option"
  and redact_members :: "scan_api \<Rightarrow> detector \<Rightarrow> principal \<Rightarrow> (string \<times> json) list \<Rightarrow>
    (string \<times> json) list option" where
  "redact_value A d who (JStr s) = map_option JStr (redact_string A d who s)"
| "redact_value A d who (JArr items) = map_option JArr (redact_items A d who items)"
| "redact_value A d who (JObj m) = map_option JObj (redact_members A d who m)"
| "redact_value A d who v = Some v"
| "redact_items A d who [] = Some []"
| "redact_items A d who (item # items) =
     Option.bind (redact_value A d who item) (\<lambda>item'.
       map_option (Cons item') (redact_items A d who items))"
| "redact_members A d who [] = Some []"
| "redact_members A d who ((k, v) # m) =
     Option.bind (redact_value A d who v) (\<lambda>v'.
       map_option (Cons (k, v')) (redact_members A d who m))"

definition extension_principal :: principal where
  "extension_principal = local_principal ''extension''"

definition redact_json ::
  "scan_api \<Rightarrow> (string \<Rightarrow> detection_config option) \<Rightarrow> string \<Rightarrow> string \<Rightarrow> string option" where
  "redact_json A parse_config detection_config_json body =
     (case parse_config detection_config_json of
        None \<Rightarrow> Some body
      | Some config \<Rightarrow>
          (case detector_new (sc_regex A) config of
             Inl _ \<Rightarrow> Some body
           | Inr d \<Rightarrow>
               (case js_parse (sc_json A) body of
                  Some value \<Rightarrow>
                    map_option (\<lambda>v. case js_print (sc_json A) v of Some s \<Rightarrow> s | None \<Rightarrow> body)
                      (redact_value A d extension_principal value)
                | None \<Rightarrow>
                    redact_found A (scan_text (sc_regex A) (sc_hash A) d body ''/'')
                      extension_principal body)))"

section \<open>What the scrubber guarantees\<close>

text \<open>Only strings change, each is its own redaction, and the nodes keep their pointers.\<close>

lemma redact_value_nodes:
  "redact_value A d who v = Some v' \<Longrightarrow> json_shape v' = json_shape v \<and>
     list_all2 (\<lambda>(p, s) (p', s'). p' = p \<and> redact_string A d who s = Some s')
       (collect_string_nodes v pointer) (collect_string_nodes v' pointer)"
  "redact_items A d who items = Some items' \<Longrightarrow> map json_shape items' = map json_shape items \<and>
     list_all2 (\<lambda>(p, s) (p', s'). p' = p \<and> redact_string A d who s = Some s')
       (collect_items index items pointer) (collect_items index items' pointer)"
  "redact_members A d who m = Some m' \<Longrightarrow>
     map (\<lambda>(k, x). (k, json_shape x)) m' = map (\<lambda>(k, x). (k, json_shape x)) m \<and>
     list_all2 (\<lambda>(p, s) (p', s'). p' = p \<and> redact_string A d who s = Some s')
       (collect_members m pointer) (collect_members m' pointer)"
  by (induction A d who v and A d who items and A d who m
      arbitrary: v' pointer and items' index pointer and m' pointer
      rule: redact_value_redact_items_redact_members.induct)
    (auto simp: bind_eq_Some_conv intro!: list_all2_appendI)

text \<open>On ASCII text the redactor does not panic, so a string is always produced.\<close>

lemma redact_string_total:
  assumes "regex_sound (sc_regex A)" and "hash_sound (sc_hash A)" and "list_all is_ascii s"
  shows "\<exists>s'. redact_string A d who s = Some s'"
proof -
  have "span_source (scan_text (sc_regex A) (sc_hash A) d)"
    using assms(1) by (rule scan_text_span_source)
  moreover have "str_ok s" using assms(3) by (cases s) (auto simp: is_ascii_not_cont)
  ultimately show ?thesis
    using span_source.redact_resolved_no_panic [OF _ assms(2) _ assms(3)]
    by (auto simp: redact_string_def redact_found_def Let_def split: rres.splits)
qed

text \<open>
  A finding masked by \<open>tokenize\<close> has no tokenizer here: the error is dropped and the whole string
  is returned as it came.
\<close>

lemma redact_string_tokenize_unchanged:
  assumes "str_ok s" and "regex_sound (sc_regex A)"
    and "scan_text (sc_regex A) (sc_hash A) d s ''/'' = [f]"
    and "rm_masking (df_metadata f) = Tokenize" and "finding_action who f \<noteq> Allow"
  shows "redact_string A d who s = Some s"
proof -
  have "span_source (scan_text (sc_regex A) (sc_hash A) d)"
    using assms(2) by (rule scan_text_span_source)
  then have "finding_wf s f" using assms(3) span_source.scan_wf [of _ f s "''/''"] by simp
  moreover have "select_findings [resolve_finding who Request f] = [resolve_finding who Request f]"
    using assms(5) by (simp add: select_findings_def resolve_finding_def)
  ultimately have "redact_text (sc_crypto A) (sc_unicode A) (sc_hash A) None (\<lambda>_. []) s
      [resolve_finding who Request f] = Err RequiredButDisabled"
    using assms(1,4)
    by (simp add: redact_text_eq resolve_finding_wf)
      (simp add: finding_mask_def apply_mask_def resolve_finding_def)
  then show ?thesis by (simp add: redact_string_def redact_found_def assms(3) policy_resolve_def)
qed

end
