(* ===== verification/Gw_Attach.thy ===== *)
theory Gw_Attach
  imports Gw_Multipart Gw_Upstreams Core_Redact_Api "HOL-Library.List_Lexorder"
begin

text \<open>
  The attachment engine of \<open>src/attachments.rs\<close>: extraction of the text of an attachment, the
  bounded scan, the rewriting of text, PDF and office documents, and \<open>scan_request\<close>. The crates
  \<open>lopdf\<close>, \<open>pdf_extract\<close>, \<open>zip\<close> and \<open>quick_xml\<close> are parameters (\<open>doc_api\<close>): a document loaded in
  memory, and a zip writer, is an opaque value. Random UUIDs come from a source that is given the
  path of call indices that leads to the draw.
\<close>

section \<open>Parameters and data\<close>

type_synonym uuid_source = "nat list \<Rightarrow> string"

type_synonym opaque = string

datatype xml_event = XText string | XCData string | XOther string

text \<open>What is handed to the XML writer: an event as it was read, or a text made from a string.\<close>

datatype xml_output = WEvent xml_event | WText string | WCData string

record zip_entry =
  ze_name :: string
  ze_is_dir :: bool
  ze_size :: nat
  ze_compressed_size :: nat
  ze_compression :: opaque
  ze_last_modified :: opaque
  ze_unix_mode :: "nat option"
  ze_text :: "string + string"
  ze_raw :: opaque

record zip_options =
  zo_compression :: opaque
  zo_last_modified :: opaque
  zo_large_file :: bool
  zo_unix_mode :: "nat option"

datatype zip_op =
    AddDirectory string zip_options
  | StartFile string zip_options
  | WriteAll string
  | RawCopyFile zip_entry

record doc_api =
  dx_pdf_load :: "string \<Rightarrow> string + opaque"
  dx_pdf_pages :: "opaque \<Rightarrow> nat list"
  dx_pdf_text :: "opaque \<Rightarrow> nat \<Rightarrow> string + string"
  dx_pdf_replace :: "opaque \<Rightarrow> nat \<Rightarrow> string \<Rightarrow> string \<Rightarrow> string + (nat \<times> opaque)"
  dx_pdf_save :: "opaque \<Rightarrow> string + string"
  dx_pdf_extract :: "string \<Rightarrow> string + string"
  dx_zip_open :: "string \<Rightarrow> string + (string + zip_entry) list"
  dx_zip_new :: opaque
  dx_zip_put :: "opaque \<Rightarrow> zip_op \<Rightarrow> string + opaque"
  dx_zip_finish :: "opaque \<Rightarrow> string + string"
  dx_xml_read :: "string \<Rightarrow> xml_event list \<times> string option"
  dx_xml_decode :: "string \<Rightarrow> string + string"
  dx_xml_write :: "xml_output \<Rightarrow> string + string"
  dx_cdata_escaped :: "string \<Rightarrow> string list"
  dx_presidio_text :: "presidio_error \<Rightarrow> string"
  dx_show_target :: "nat \<Rightarrow> string \<Rightarrow> string"

text \<open>\<open>map_err(..)\<close> on the result of a crate.\<close>

definition from_sum :: "(string \<Rightarrow> attachment_error) \<Rightarrow> string + 'a \<Rightarrow> (attachment_error, 'a) rres" where
  "from_sum mk r = (case r of Inl e \<Rightarrow> Err (mk e) | Inr x \<Rightarrow> Ok x)"

record pdf_page =
  pg_number :: nat
  pg_pointer :: string
  pg_text :: string

record pdf_document =
  pd_original :: string
  pd_pages :: "pdf_page list"

record ooxml_text_node =
  xn_pointer :: string
  xn_event_index :: nat
  xn_text :: string

record ooxml_entry =
  xe_path :: string
  xe_xml :: string
  xe_nodes :: "ooxml_text_node list"

record ooxml_document =
  xd_original :: string
  xd_entries :: "ooxml_entry list"

datatype attachment_content =
    ContentNone
  | ContentText string
  | ExtractedText string
  | ContentPdf pdf_document
  | ContentOoxml ooxml_document

datatype rewrite_plan = PlanNone | PlanText | PlanPdf pdf_document | PlanOoxml ooxml_document

fun rewrite_plan_from_content :: "attachment_content \<Rightarrow> rewrite_plan" where
  "rewrite_plan_from_content (ContentText _) = PlanText"
| "rewrite_plan_from_content (ContentPdf d) = PlanPdf d"
| "rewrite_plan_from_content (ContentOoxml d) = PlanOoxml d"
| "rewrite_plan_from_content (ExtractedText _) = PlanNone"
| "rewrite_plan_from_content ContentNone = PlanNone"

fun is_rewritable :: "rewrite_plan \<Rightarrow> bool" where
  "is_rewritable PlanNone = False"
| "is_rewritable PlanText = True"
| "is_rewritable (PlanPdf _) = True"
| "is_rewritable (PlanOoxml _) = True"

record scanned_part =
  sp_raw :: multipart_part
  sp_pointer :: string
  sp_rewrite_plan :: rewrite_plan
  sp_rewritten_body :: "string option"

record attachment_scan_result =
  sr_sanitized_body :: string
  sr_policy :: policy_outcome

text \<open>The dependencies of a scan: \<open>AttachmentScanDeps\<close> and the parameters they call.\<close>

record attach_deps =
  dp_scan :: scan_api
  dp_presidio_service :: presidio_service
  dp_docs :: doc_api
  dp_detector :: detector
  dp_presidio :: "presidio_analyzer option"
  dp_tokenizer :: "tokenizer option"

definition deps_redact :: "attach_deps \<Rightarrow> (nat \<Rightarrow> string) \<Rightarrow> string \<Rightarrow> resolved_finding list \<Rightarrow> (attachment_error, string) rres" where
  "deps_redact D rng src findings =
     rmap_err AttTokenization (redact_text (sc_crypto (dp_scan D)) (sc_unicode (dp_scan D)) (sc_hash (dp_scan D))
       (dp_tokenizer D) rng src findings)"

section \<open>Extraction\<close>

definition is_ooxml_attachment :: "string \<Rightarrow> string option \<Rightarrow> bool" where
  "is_ooxml_attachment media file_name \<longleftrightarrow>
     contains_str media ''wordprocessingml.document'' \<or> contains_str media ''spreadsheetml.sheet'' \<or>
     contains_str media ''presentationml.presentation'' \<or>
     (case file_name of
        None \<Rightarrow> False
      | Some n \<Rightarrow> (let name = to_ascii_lowercase n in
          ends_with name ''.docx'' \<or> ends_with name ''.xlsx'' \<or> ends_with name ''.pptx''))"

definition is_ooxml_xml_entry :: "string \<Rightarrow> bool" where
  "is_ooxml_xml_entry path0 \<longleftrightarrow>
     (let path = to_ascii_lowercase path0 in
      ends_with path ''.xml'' \<and>
      (starts_with path ''word/'' \<or> starts_with path ''xl/'' \<or> starts_with path ''ppt/''))"

text \<open>The loop of \<open>collect_ooxml_text_nodes\<close> over the events; the reader's error comes last.\<close>

fun collect_text_events ::
  "doc_api \<Rightarrow> string \<Rightarrow> nat \<Rightarrow> nat \<Rightarrow> xml_event list \<Rightarrow> (attachment_error, ooxml_text_node list) rres" where
  "collect_text_events X base event_index text_index [] = Ok []"
| "collect_text_events X base event_index text_index (XOther _ # es) =
     collect_text_events X base event_index text_index es"
| "collect_text_events X base event_index text_index (XText t # es) =
     rbind (from_sum XmlError (dx_xml_decode X t)) (\<lambda>decoded.
       if trim decoded = [] then collect_text_events X base (Suc event_index) text_index es
       else rmap (Cons \<lparr>xn_pointer = base @ ''#text/'' @ show_nat text_index, xn_event_index = event_index,
               xn_text = decoded\<rparr>)
            (collect_text_events X base (Suc event_index) (Suc text_index) es))"
| "collect_text_events X base event_index text_index (XCData t # es) =
     rbind (from_sum XmlError (dx_xml_decode X t)) (\<lambda>decoded.
       if trim decoded = [] then collect_text_events X base (Suc event_index) text_index es
       else rmap (Cons \<lparr>xn_pointer = base @ ''#text/'' @ show_nat text_index, xn_event_index = event_index,
               xn_text = decoded\<rparr>)
            (collect_text_events X base (Suc event_index) (Suc text_index) es))"

definition collect_ooxml_text_nodes ::
  "doc_api \<Rightarrow> string \<Rightarrow> string \<Rightarrow> string \<Rightarrow> (attachment_error, ooxml_text_node list) rres" where
  "collect_ooxml_text_nodes X xml attachment_pointer entry_path =
     (let (events, failure) = dx_xml_read X xml in
      rbind (collect_text_events X (attachment_pointer @ ''/'' @ entry_path) 0 0 events) (\<lambda>nodes.
        case failure of Some e \<Rightarrow> Err (XmlError e) | None \<Rightarrow> Ok nodes))"

fun extract_entries ::
  "doc_api \<Rightarrow> string \<Rightarrow> (string + zip_entry) list \<Rightarrow> (attachment_error, ooxml_entry list) rres" where
  "extract_entries X attachment_pointer [] = Ok []"
| "extract_entries X attachment_pointer (r # rs) =
     rbind (from_sum ZipError r) (\<lambda>f.
       if \<not> is_ooxml_xml_entry (ze_name f) then extract_entries X attachment_pointer rs
       else rbind (from_sum XmlError (ze_text f)) (\<lambda>xml.
            rbind (collect_ooxml_text_nodes X xml attachment_pointer (ze_name f)) (\<lambda>nodes.
            rmap (Cons \<lparr>xe_path = ze_name f, xe_xml = xml, xe_nodes = nodes\<rparr>)
              (extract_entries X attachment_pointer rs))))"

definition extract_ooxml_document :: "doc_api \<Rightarrow> string \<Rightarrow> string \<Rightarrow> (attachment_error, ooxml_document) rres" where
  "extract_ooxml_document X bytes attachment_pointer =
     rbind (from_sum ZipError (dx_zip_open X bytes)) (\<lambda>archive.
       rmap (\<lambda>entries. \<lparr>xd_original = bytes, xd_entries = entries\<rparr>)
         (extract_entries X attachment_pointer archive))"

fun extract_pages :: "doc_api \<Rightarrow> opaque \<Rightarrow> string \<Rightarrow> nat list \<Rightarrow> (attachment_error, pdf_page list) rres" where
  "extract_pages X doc attachment_pointer [] = Ok []"
| "extract_pages X doc attachment_pointer (n # ns) =
     rbind (from_sum PdfError (dx_pdf_text X doc n)) (\<lambda>t.
       if trim t = [] then extract_pages X doc attachment_pointer ns
       else rmap (Cons \<lparr>pg_number = n, pg_pointer = attachment_pointer @ ''/page/'' @ show_nat n, pg_text = t\<rparr>)
         (extract_pages X doc attachment_pointer ns))"

definition extract_pdf_document :: "doc_api \<Rightarrow> string \<Rightarrow> string \<Rightarrow> (attachment_error, pdf_document) rres" where
  "extract_pdf_document X bytes attachment_pointer =
     rbind (from_sum PdfError (dx_pdf_load X bytes)) (\<lambda>doc.
       rmap (\<lambda>pages. \<lparr>pd_original = bytes, pd_pages = pages\<rparr>)
         (extract_pages X doc attachment_pointer (dx_pdf_pages X doc)))"

definition extract_attachment_content ::
  "doc_api \<Rightarrow> string \<Rightarrow> string \<Rightarrow> string option \<Rightarrow> string \<Rightarrow> (attachment_error, attachment_content) rres" where
  "extract_attachment_content X bytes media file_name attachment_pointer =
     (let lower = to_ascii_lowercase media in
      if starts_with lower ''text/'' \<or>
         lower \<in> {''application/json'', ''application/xml'', ''text/xml'', ''text/csv''}
      then Ok (ContentText (from_utf8_lossy bytes))
      else if lower = ''application/pdf'' then
        (case extract_pdf_document X bytes attachment_pointer of
           Panic \<Rightarrow> Panic
         | Ok d \<Rightarrow> if pd_pages d \<noteq> [] then Ok (ContentPdf d)
                  else rmap ExtractedText (from_sum PdfError (dx_pdf_extract X bytes))
         | Err _ \<Rightarrow> rmap ExtractedText (from_sum PdfError (dx_pdf_extract X bytes)))
      else if is_ooxml_attachment lower file_name
           then rmap ContentOoxml (extract_ooxml_document X bytes attachment_pointer)
           else Ok ContentNone)"

section \<open>Scanning\<close>

definition limit_text :: "string \<Rightarrow> nat \<Rightarrow> string" where
  "limit_text input max_chars = concat (take max_chars (utf8_chars input))"

definition scan_text_with_engines ::
  "attach_deps \<Rightarrow> string \<Rightarrow> string \<Rightarrow> (attachment_error, detection_finding list) rres" where
  "scan_text_with_engines D src pointer =
     (if trim src = [] then Ok []
      else
        let findings = scan_text (sc_regex (dp_scan D)) (sc_hash (dp_scan D)) (dp_detector D) src pointer in
        case dp_presidio D of
          None \<Rightarrow> Ok findings
        | Some p \<Rightarrow> rmap (append findings)
            (rmap_err (\<lambda>e. AttPresidio (dx_presidio_text (dp_docs D) e))
              (presidio_analyze (dp_presidio_service D) (sc_hash (dp_scan D)) p src pointer)))"

definition scan_limited_text ::
  "attach_deps \<Rightarrow> string \<Rightarrow> string \<Rightarrow> nat \<Rightarrow> (attachment_error, detection_finding list) rres" where
  "scan_limited_text D src pointer max_text_chars = scan_text_with_engines D (limit_text src max_text_chars) pointer"

text \<open>
  The loop of \<open>scan_pdf_document\<close> and \<open>scan_ooxml_document\<close> over the texts with their pointers: the
  characters left are counted down, and the scan stops when there are none.
\<close>

fun scan_budget ::
  "attach_deps \<Rightarrow> nat \<Rightarrow> (string \<times> string) list \<Rightarrow> (attachment_error, detection_finding list) rres" where
  "scan_budget D remaining [] = Ok []"
| "scan_budget D remaining ((src, pointer) # rest) =
     (if remaining = 0 then Ok []
      else
        let limited = limit_text src remaining in
        rbind (scan_text_with_engines D limited pointer) (\<lambda>found.
          rmap (append found) (scan_budget D (remaining - length (utf8_chars limited)) rest)))"

definition scan_pdf_document ::
  "attach_deps \<Rightarrow> pdf_document \<Rightarrow> nat \<Rightarrow> (attachment_error, detection_finding list) rres" where
  "scan_pdf_document D d max_text_chars =
     scan_budget D max_text_chars (map (\<lambda>p. (pg_text p, pg_pointer p)) (pd_pages d))"

definition scan_ooxml_document ::
  "attach_deps \<Rightarrow> ooxml_document \<Rightarrow> nat \<Rightarrow> (attachment_error, detection_finding list) rres" where
  "scan_ooxml_document D d max_text_chars =
     scan_budget D max_text_chars
       (map (\<lambda>n. (xn_text n, xn_pointer n)) (concat (map xe_nodes (xd_entries d))))"

fun scan_attachment_content ::
  "attach_deps \<Rightarrow> attachment_content \<Rightarrow> string \<Rightarrow> nat \<Rightarrow> (attachment_error, detection_finding list) rres" where
  "scan_attachment_content D ContentNone pointer n = Ok []"
| "scan_attachment_content D (ContentText t) pointer n = scan_limited_text D t pointer n"
| "scan_attachment_content D (ExtractedText t) pointer n = scan_limited_text D t pointer n"
| "scan_attachment_content D (ContentPdf d) pointer n = scan_pdf_document D d n"
| "scan_attachment_content D (ContentOoxml d) pointer n = scan_ooxml_document D d n"

definition finding_targets_part :: "resolved_finding \<Rightarrow> string \<Rightarrow> bool" where
  "finding_targets_part f part_pointer \<longleftrightarrow> part_pointer \<noteq> [] \<and>
     (rs_pointer f = part_pointer \<or> starts_with (rs_pointer f) (part_pointer @ ''/'') \<or>
      starts_with (rs_pointer f) (part_pointer @ ''#''))"

section \<open>Rewriting\<close>

text \<open>The masks of one page, keyed by the matched text; a mask that changes nothing is left out.\<close>

fun page_replacements ::
  "attach_deps \<Rightarrow> (nat \<Rightarrow> string) \<Rightarrow> string \<Rightarrow> nat \<Rightarrow> resolved_finding list \<Rightarrow> (string, string) hmap \<Rightarrow>
     (attachment_error, (string, string) hmap) rres" where
  "page_replacements D rng pointer j [] repl = Ok repl"
| "page_replacements D rng pointer j (f # fs) repl =
     (if rs_pointer f \<noteq> pointer \<or> rs_effective_action f = Allow
      then page_replacements D rng pointer (Suc j) fs repl
      else rbind (rmap_err AttTokenization (finding_mask (sc_crypto (dp_scan D)) (sc_unicode (dp_scan D))
               (sc_hash (dp_scan D)) (dp_tokenizer D) rng j f)) (\<lambda>r.
           page_replacements D rng pointer (Suc j) fs
             (if r \<noteq> rs_matched f then hm_insert (rs_matched f) r repl else repl)))"

fun pages_replacements ::
  "attach_deps \<Rightarrow> uuid_source \<Rightarrow> resolved_finding list \<Rightarrow> nat \<Rightarrow> pdf_page list \<Rightarrow>
     (nat, (string, string) hmap) hmap \<Rightarrow> (attachment_error, (nat, (string, string) hmap) hmap) rres" where
  "pages_replacements D rng findings i [] by_page = Ok by_page"
| "pages_replacements D rng findings i (p # ps) by_page =
     rbind (page_replacements D (\<lambda>j. rng [i, j]) (pg_pointer p) 0 findings []) (\<lambda>repl.
       pages_replacements D rng findings (Suc i) ps
         (if repl \<noteq> [] then hm_insert (pg_number p) repl by_page else by_page))"

text \<open>Longer matches first, then in byte order (the keys of a \<open>BTreeMap\<close> are distinct).\<close>

definition replacement_order :: "(string, string) hmap \<Rightarrow> (string \<times> string) list" where
  "replacement_order repl = sort_key (\<lambda>(m, _). (- int (length m), map byte_val m :: nat list)) repl"

fun replace_targets ::
  "doc_api \<Rightarrow> nat \<Rightarrow> (string \<times> string) list \<Rightarrow> nat \<times> opaque \<Rightarrow> (attachment_error, nat \<times> opaque) rres" where
  "replace_targets X page [] st = Ok st"
| "replace_targets X page ((matched, replacement) # rest) (replaced_total, doc) =
     rbind (from_sum PdfRewrite (dx_pdf_replace X doc page matched replacement)) (\<lambda>(replaced, doc').
       if replaced = 0 then Err (PdfRewrite (dx_show_target X page matched))
       else replace_targets X page rest (replaced_total + replaced, doc'))"

fun replace_pages ::
  "doc_api \<Rightarrow> (nat, (string, string) hmap) hmap \<Rightarrow> pdf_page list \<Rightarrow> nat \<times> opaque \<Rightarrow>
     (attachment_error, nat \<times> opaque) rres" where
  "replace_pages X by_page [] st = Ok st"
| "replace_pages X by_page (p # ps) st =
     (case hm_get by_page (pg_number p) of
        None \<Rightarrow> replace_pages X by_page ps st
      | Some repl \<Rightarrow> rbind (replace_targets X (pg_number p) (replacement_order repl) st)
          (replace_pages X by_page ps))"

definition pdf_rewrite ::
  "attach_deps \<Rightarrow> uuid_source \<Rightarrow> pdf_document \<Rightarrow> resolved_finding list \<Rightarrow> (attachment_error, string option) rres" where
  "pdf_rewrite D rng d findings =
     rbind (pages_replacements D rng findings 0 (pd_pages d) []) (\<lambda>by_page.
       if by_page = [] then Ok None
       else rbind (from_sum PdfRewrite (dx_pdf_load (dp_docs D) (pd_original d))) (\<lambda>doc.
            rbind (replace_pages (dp_docs D) by_page (pd_pages d) (0, doc)) (\<lambda>(replaced_total, doc').
              if replaced_total = 0 then Ok None
              else rmap Some (from_sum PdfRewrite (dx_pdf_save (dp_docs D) doc')))))"

fun write_xml_all :: "doc_api \<Rightarrow> xml_output list \<Rightarrow> (attachment_error, string) rres" where
  "write_xml_all X [] = Ok []"
| "write_xml_all X (w # ws) =
     rbind (from_sum XmlError (dx_xml_write X w)) (\<lambda>b. rmap (append b) (write_xml_all X ws))"

fun rewrite_events :: "doc_api \<Rightarrow> (nat, string) hmap \<Rightarrow> nat \<Rightarrow> xml_event list \<Rightarrow> xml_output list" where
  "rewrite_events X repl event_index [] = []"
| "rewrite_events X repl event_index (XText t # es) =
     (case hm_get repl event_index of Some r \<Rightarrow> [WText r] | None \<Rightarrow> [WEvent (XText t)]) @
     rewrite_events X repl (Suc event_index) es"
| "rewrite_events X repl event_index (XCData t # es) =
     (case hm_get repl event_index of
        Some r \<Rightarrow> map WCData (dx_cdata_escaped X r) | None \<Rightarrow> [WEvent (XCData t)]) @
     rewrite_events X repl (Suc event_index) es"
| "rewrite_events X repl event_index (XOther t # es) =
     WEvent (XOther t) # rewrite_events X repl event_index es"

definition rewrite_ooxml_xml :: "doc_api \<Rightarrow> string \<Rightarrow> (nat, string) hmap \<Rightarrow> (attachment_error, string) rres" where
  "rewrite_ooxml_xml X xml repl =
     (let (events, failure) = dx_xml_read X xml in
      rbind (write_xml_all X (rewrite_events X repl 0 events)) (\<lambda>out.
        case failure of Some e \<Rightarrow> Err (XmlError e) | None \<Rightarrow> Ok out))"

definition zip_file_options :: "zip_entry \<Rightarrow> nat \<Rightarrow> zip_options" where
  "zip_file_options f uncompressed_size =
     \<lparr>zo_compression = ze_compression f, zo_last_modified = ze_last_modified f,
      zo_large_file = (uncompressed_size > 2 ^ 32 - 1 \<or> ze_compressed_size f > 2 ^ 32 - 1),
      zo_unix_mode = ze_unix_mode f\<rparr>"

definition zip_put_all :: "doc_api \<Rightarrow> zip_op list \<Rightarrow> opaque \<Rightarrow> (attachment_error, opaque) rres" where
  "zip_put_all X ops w =
     fold (\<lambda>op acc. rbind acc (\<lambda>w. from_sum ZipWrite (dx_zip_put X w op))) ops (Ok w)"

definition zip_entry_ops :: "(string, string) hmap \<Rightarrow> zip_entry \<Rightarrow> zip_op list" where
  "zip_entry_ops rewritten f =
     (let options = zip_file_options f
            (case hm_get rewritten (ze_name f) of Some b \<Rightarrow> length b | None \<Rightarrow> ze_size f)
      in if ze_is_dir f then [AddDirectory (ze_name f) options]
         else (case hm_get rewritten (ze_name f) of
             Some b \<Rightarrow> [StartFile (ze_name f) options, WriteAll b]
           | None \<Rightarrow> [RawCopyFile f]))"

fun rebuild_entries ::
  "doc_api \<Rightarrow> (string, string) hmap \<Rightarrow> (string + zip_entry) list \<Rightarrow> opaque \<Rightarrow> (attachment_error, opaque) rres" where
  "rebuild_entries X rewritten [] w = Ok w"
| "rebuild_entries X rewritten (r # rs) w =
     rbind (from_sum ZipError r) (\<lambda>f.
     rbind (zip_put_all X (zip_entry_ops rewritten f) w) (rebuild_entries X rewritten rs))"

definition rebuild_ooxml_archive ::
  "doc_api \<Rightarrow> string \<Rightarrow> (string, string) hmap \<Rightarrow> (attachment_error, string) rres" where
  "rebuild_ooxml_archive X original rewritten =
     rbind (from_sum ZipError (dx_zip_open X original)) (\<lambda>archive.
     rbind (rebuild_entries X rewritten archive (dx_zip_new X)) (\<lambda>w.
       from_sum ZipWrite (dx_zip_finish X w)))"

fun node_replacements ::
  "attach_deps \<Rightarrow> uuid_source \<Rightarrow> resolved_finding list \<Rightarrow> nat \<Rightarrow> ooxml_text_node list \<Rightarrow>
     (nat, string) hmap \<Rightarrow> (attachment_error, (nat, string) hmap) rres" where
  "node_replacements D rng findings k [] repl = Ok repl"
| "node_replacements D rng findings k (n # ns) repl =
     (let node_findings = filter (\<lambda>f. rs_pointer f = xn_pointer n) findings in
      if node_findings = [] then node_replacements D rng findings (Suc k) ns repl
      else rbind (deps_redact D (\<lambda>j. rng [k, j]) (xn_text n) node_findings) (\<lambda>rewritten.
           node_replacements D rng findings (Suc k) ns
             (if rewritten \<noteq> xn_text n then hm_insert (xn_event_index n) rewritten repl else repl)))"

fun rewrite_entries ::
  "attach_deps \<Rightarrow> uuid_source \<Rightarrow> resolved_finding list \<Rightarrow> nat \<Rightarrow> ooxml_entry list \<Rightarrow>
     (string, string) hmap \<Rightarrow> (attachment_error, (string, string) hmap) rres" where
  "rewrite_entries D rng findings i [] rewritten = Ok rewritten"
| "rewrite_entries D rng findings i (e # es) rewritten =
     rbind (node_replacements D (\<lambda>p. rng (i # p)) findings 0 (xe_nodes e) []) (\<lambda>repl.
       if repl = [] then rewrite_entries D rng findings (Suc i) es rewritten
       else rbind (rewrite_ooxml_xml (dp_docs D) (xe_xml e) repl) (\<lambda>xml.
            rewrite_entries D rng findings (Suc i) es (hm_insert (xe_path e) xml rewritten)))"

definition ooxml_rewrite ::
  "attach_deps \<Rightarrow> uuid_source \<Rightarrow> ooxml_document \<Rightarrow> resolved_finding list \<Rightarrow> (attachment_error, string option) rres" where
  "ooxml_rewrite D rng d findings =
     rbind (rewrite_entries D rng findings 0 (xd_entries d) []) (\<lambda>rewritten.
       if rewritten = [] then Ok None
       else rmap Some (rebuild_ooxml_archive (dp_docs D) (xd_original d) rewritten))"

fun plan_rewrite ::
  "attach_deps \<Rightarrow> uuid_source \<Rightarrow> rewrite_plan \<Rightarrow> string \<Rightarrow> string \<Rightarrow> resolved_finding list \<Rightarrow>
     (attachment_error, string option) rres" where
  "plan_rewrite D rng PlanNone raw_body part_pointer findings = Ok None"
| "plan_rewrite D rng PlanText raw_body part_pointer findings =
     (let part_findings = filter (\<lambda>f. rs_pointer f = part_pointer) findings in
      if part_findings = [] then Ok None
      else rmap Some (deps_redact D (\<lambda>j. rng [j]) (from_utf8_lossy raw_body) part_findings))"
| "plan_rewrite D rng (PlanPdf d) raw_body part_pointer findings = pdf_rewrite D rng d findings"
| "plan_rewrite D rng (PlanOoxml d) raw_body part_pointer findings = ooxml_rewrite D rng d findings"

section \<open>The request\<close>

record attachment_engine =
  ae_enabled :: bool
  ae_max_bytes :: nat
  ae_max_text_chars :: nat
  ae_allowed_media_types :: "string list"

definition attachment_engine_from_config :: "attachment_config \<Rightarrow> attachment_engine" where
  "attachment_engine_from_config c =
     \<lparr>ae_enabled = att_enabled c, ae_max_bytes = att_max_bytes c, ae_max_text_chars = att_max_text_chars c,
      ae_allowed_media_types = att_allowed_media_types c\<rparr>"

definition is_multipart_form :: "string option \<Rightarrow> bool" where
  "is_multipart_form content_type \<longleftrightarrow>
     (case content_type of
        Some v \<Rightarrow> starts_with (to_ascii_lowercase v) ''multipart/form-data'' | None \<Rightarrow> False)"

text \<open>The first loop of \<open>scan_request\<close>, one part at a time.\<close>

definition scan_part ::
  "attach_deps \<Rightarrow> attachment_engine \<Rightarrow> multipart_part \<Rightarrow>
     (attachment_error, scanned_part \<times> detection_finding list) rres" where
  "scan_part D E part =
     (if \<not> is_attachment part
      then Ok (\<lparr>sp_raw = part, sp_pointer = [], sp_rewrite_plan = PlanNone, sp_rewritten_body = None\<rparr>, [])
      else
        let media = media_type part; pointer = ''/attachments/'' @ pointer_name part in
        if \<not> is_media_type_allowed media (ae_allowed_media_types E)
        then Ok (\<lparr>sp_raw = part, sp_pointer = pointer, sp_rewrite_plan = PlanNone, sp_rewritten_body = None\<rparr>, [])
        else if length (mp_body part) > ae_max_bytes E then Err (AttTooLarge (length (mp_body part)))
        else rbind (extract_attachment_content (dp_docs D) (mp_body part) media (part_file_name part) pointer) (\<lambda>content.
             rmap (\<lambda>found. (\<lparr>sp_raw = part, sp_pointer = pointer,
                 sp_rewrite_plan = rewrite_plan_from_content content, sp_rewritten_body = None\<rparr>, found))
               (scan_attachment_content D content pointer (ae_max_text_chars E))))"

fun scan_parts ::
  "attach_deps \<Rightarrow> attachment_engine \<Rightarrow> multipart_part list \<Rightarrow>
     (attachment_error, scanned_part list \<times> detection_finding list) rres" where
  "scan_parts D E [] = Ok ([], [])"
| "scan_parts D E (p # ps) =
     rbind (scan_part D E p) (\<lambda>(sp, found).
       rmap (\<lambda>(sps, rest). (sp # sps, found @ rest)) (scan_parts D E ps))"

text \<open>The second loop; \<open>None\<close> when a PDF cannot be rewritten (\<open>break\<close> with the review fallback).\<close>

fun rewrite_parts ::
  "attach_deps \<Rightarrow> uuid_source \<Rightarrow> resolved_finding list \<Rightarrow> nat \<Rightarrow> scanned_part list \<Rightarrow>
     (attachment_error, scanned_part list option) rres" where
  "rewrite_parts D rng findings i [] = Ok (Some [])"
| "rewrite_parts D rng findings i (p # ps) =
     (case plan_rewrite D (\<lambda>q. rng (i # q)) (sp_rewrite_plan p) (mp_body (sp_raw p)) (sp_pointer p) findings of
        Ok r \<Rightarrow> rmap (map_option (Cons (p\<lparr>sp_rewritten_body := r\<rparr>))) (rewrite_parts D rng findings (Suc i) ps)
      | Err (PdfRewrite _) \<Rightarrow> Ok None
      | Err e \<Rightarrow> Err e
      | Panic \<Rightarrow> Panic)"

definition review_fallback :: "policy_outcome \<Rightarrow> policy_outcome" where
  "review_fallback policy =
     policy\<lparr>po_decision := Review, po_source := ''attachment_review_fallback'',
       po_reason := Some ''attachment contains sensitive content that cannot be rewritten safely''\<rparr>"

definition non_rewritable_sensitive :: "scanned_part list \<Rightarrow> resolved_finding list \<Rightarrow> bool" where
  "non_rewritable_sensitive parts findings \<longleftrightarrow>
     (\<exists>p \<in> set parts. \<not> is_rewritable (sp_rewrite_plan p) \<and>
        (\<exists>f \<in> set findings. finding_targets_part f (sp_pointer p)))"

definition rebuild_multipart_body :: "string \<Rightarrow> scanned_part list \<Rightarrow> string" where
  "rebuild_multipart_body boundary parts =
     write_parts boundary (map (\<lambda>p. (sp_raw p, sp_rewritten_body p)) parts)"

definition finish_scan ::
  "attach_deps \<Rightarrow> uuid_source \<Rightarrow> string \<Rightarrow> string \<Rightarrow> scanned_part list \<Rightarrow> policy_outcome \<Rightarrow>
     (attachment_error, attachment_scan_result) rres" where
  "finish_scan D rng body boundary parts policy0 =
     (let policy = (if non_rewritable_sensitive parts (po_findings policy0) \<and> po_decision policy0 = Redact
                    then review_fallback policy0 else policy0)
      in if po_decision policy \<noteq> Redact then Ok \<lparr>sr_sanitized_body = body, sr_policy = policy\<rparr>
         else rmap (\<lambda>r. case r of
               None \<Rightarrow> \<lparr>sr_sanitized_body = body, sr_policy = review_fallback policy\<rparr>
             | Some parts' \<Rightarrow> \<lparr>sr_sanitized_body = rebuild_multipart_body boundary parts', sr_policy = policy\<rparr>)
           (rewrite_parts D rng (po_findings policy) 0 parts))"

definition scan_request ::
  "attach_deps \<Rightarrow> attachment_engine \<Rightarrow> uuid_source \<Rightarrow> principal \<Rightarrow> string \<Rightarrow> string option \<Rightarrow>
     (attachment_error, attachment_scan_result option) rres" where
  "scan_request D E rng who body content_type =
     (case content_type of
        None \<Rightarrow> Ok None
      | Some ct \<Rightarrow>
          if \<not> ae_enabled E \<or> \<not> is_multipart_form (Some ct) then Ok None
          else rbind (ok_or MissingBoundary (parse_boundary ct)) (\<lambda>boundary.
               rbind (parse_multipart_parts body boundary) (\<lambda>parts.
               if parts = []
               then Ok (Some \<lparr>sr_sanitized_body = body, sr_policy = \<lparr>po_decision = Allow, po_findings = [],
                      po_source = ''builtin'', po_reason = None\<rparr>\<rparr>)
               else rbind (scan_parts D E parts) (\<lambda>(scanned, findings).
                    rmap Some (finish_scan D rng body boundary scanned (policy_resolve who findings Request))))))"

section \<open>Findings lie in the text they were found in\<close>

text \<open>What the engines find in a text, none when Presidio fails.\<close>

definition attach_scan :: "attach_deps \<Rightarrow> string \<Rightarrow> string \<Rightarrow> detection_finding list" where
  "attach_scan D src pointer =
     (case scan_text_with_engines D src pointer of Ok fs \<Rightarrow> fs | _ \<Rightarrow> [])"

lemma attach_span_source:
  assumes "regex_sound (sc_regex (dp_scan D))"
  shows "span_source (attach_scan D)"
proof -
  have "finding_wf src f \<and> df_pointer f = pointer" if "f \<in> set (attach_scan D src pointer)" for f src pointer
  proof -
    from that obtain fs where fs: "scan_text_with_engines D src pointer = Ok fs" "f \<in> set fs"
      by (cases "scan_text_with_engines D src pointer") (auto simp: attach_scan_def)
    have "f \<in> set (scan_text (sc_regex (dp_scan D)) (sc_hash (dp_scan D)) (dp_detector D) src pointer) \<or>
      (\<exists>p. f \<in> set (presidio_found (dp_presidio_service D) (sc_hash (dp_scan D)) p src pointer))"
      using fs by (auto simp: scan_text_with_engines_def presidio_found_def Let_def rres_iffs
          split: if_splits option.splits) (metis rres.simps(10))+
    with presidio_found_wf span_source.scan_wf [OF scan_text_span_source [OF assms]]
      span_source.scan_pointer [OF scan_text_span_source [OF assms]]
    show ?thesis by blast
  qed
  then show ?thesis by unfold_locales blast+
qed

text \<open>A slice of the first characters of a text is the same slice of the text.\<close>

lemma limit_text_slice:
  assumes "str_slice (limit_text src n) a b = Some m"
  shows "str_slice src a b = Some m"
proof -
  let ?p = "limit_text src n"
  have cut: "utf8_chars src = take n (utf8_chars src) @ drop n (utf8_chars src)" by simp
  obtain t where src: "src = ?p @ t"
    by (metis append_take_drop_id concat_append concat_utf8_chars limit_text_def)
  have len: "is_char_boundary src (length ?p)"
    using utf8_chars_boundary [OF cut] by (simp add: limit_text_def)
  have "is_char_boundary src i" if "is_char_boundary ?p i" for i
  proof (cases "i = length ?p")
    case False
    with that show ?thesis by (subst src) (auto simp: is_char_boundary_def nth_append)
  qed (simp add: len)
  moreover have "a \<le> b" "is_char_boundary ?p a" "is_char_boundary ?p b" "m = take (b - a) (drop a ?p)" "b \<le> length ?p"
    using assms by (auto simp: str_slice_Some_iff dest: is_char_boundary_le)
  moreover from this(1,5) have "take (b - a) (drop a ?p) = take (b - a) (drop a src)"
    by (subst (2) src) simp
  ultimately show ?thesis by (simp add: str_slice_Some_iff)
qed

section \<open>The parts of a request\<close>

lemma scan_parts_Ok:
  assumes "scan_parts D E ps = Ok (sps, fs)"
  shows "\<exists>founds. sps = map fst founds \<and> fs = concat (map snd founds) \<and>
    list_all2 (\<lambda>p x. scan_part D E p = Ok x) ps founds"
  using assms
proof (induction ps arbitrary: sps fs)
  case (Cons p ps)
  from Cons.prems obtain sp found sps' rest where p: "scan_part D E p = Ok (sp, found)"
    and r: "scan_parts D E ps = Ok (sps', rest)" and eq: "sps = sp # sps'" "fs = found @ rest"
    by (auto simp: rres_iffs)
  from Cons.IH [OF r] obtain founds where "sps' = map fst founds" "rest = concat (map snd founds)"
    "list_all2 (\<lambda>p x. scan_part D E p = Ok x) ps founds" by blast
  with p eq show ?case by (intro exI [of _ "(sp, found) # founds"]) simp
qed simp

lemma scan_part_raw:
  "scan_part D E p = Ok (sp, found) \<Longrightarrow> sp_raw sp = p \<and> sp_rewritten_body sp = None"
  by (auto simp: scan_part_def Let_def rres_iffs split: if_splits)

text \<open>The findings of a part that is plain text, or is not rewritten, carry its pointer.\<close>

definition flat_plan :: "rewrite_plan \<Rightarrow> bool" where
  "flat_plan plan \<longleftrightarrow> plan = PlanNone \<or> plan = PlanText"

lemma scan_part_flat:
  assumes "regex_sound (sc_regex (dp_scan D))" and "scan_part D E p = Ok (sp, found)"
    and "flat_plan (sp_rewrite_plan sp)"
  shows "\<forall>f \<in> set found. df_pointer f = sp_pointer sp"
    and "sp_rewrite_plan sp = PlanText \<Longrightarrow>
      found = attach_scan D (limit_text (from_utf8_lossy (mp_body p)) (ae_max_text_chars E)) (sp_pointer sp)"
proof -
  have scan: "found = attach_scan D src ptr" if "scan_text_with_engines D src ptr = Ok found" for src ptr
    using that by (simp add: attach_scan_def)
  have content: "c = ContentText (from_utf8_lossy (mp_body p))"
    if "extract_attachment_content X (mp_body p) m fn ptr = Ok c" "rewrite_plan_from_content c = PlanText" for X m fn ptr c
    using that by (cases c) (auto simp: extract_attachment_content_def Let_def rres_iffs split: if_splits rres.splits)
  from assms(2) consider (none) "found = []" "sp_rewrite_plan sp = PlanNone"
    | (content) X m fn c where "extract_attachment_content X (mp_body p) m fn (sp_pointer sp) = Ok c"
      "sp_rewrite_plan sp = rewrite_plan_from_content c"
      "scan_attachment_content D c (sp_pointer sp) (ae_max_text_chars E) = Ok found"
    by (auto simp: scan_part_def Let_def rres_iffs split: if_splits)
  then show "\<forall>f \<in> set found. df_pointer f = sp_pointer sp"
  proof cases
    case content
    with assms(3) show ?thesis
      by (cases c) (auto simp: flat_plan_def scan_limited_text_def dest!: scan
          intro: span_source.scan_pointer [OF attach_span_source [OF assms(1)]])
  qed simp
  assume plan: "sp_rewrite_plan sp = PlanText"
  from assms(2) plan obtain X m fn c where
    c: "extract_attachment_content X (mp_body p) m fn (sp_pointer sp) = Ok c"
      "sp_rewrite_plan sp = rewrite_plan_from_content c"
      "scan_attachment_content D c (sp_pointer sp) (ae_max_text_chars E) = Ok found"
    by (auto simp: scan_part_def Let_def rres_iffs split: if_splits)
  have "c = ContentText (from_utf8_lossy (mp_body p))" using content [OF c(1)] c(2) plan by simp
  with c(3) show "found = attach_scan D (limit_text (from_utf8_lossy (mp_body p)) (ae_max_text_chars E)) (sp_pointer sp)"
    by (simp add: scan_limited_text_def scan)
qed

text \<open>
  With a pointer of its own, a part is redacted with its own findings.
\<close>

definition own_pointers :: "scanned_part list \<Rightarrow> bool" where
  "own_pointers sps \<longleftrightarrow> (\<forall>sp \<in> set sps. flat_plan (sp_rewrite_plan sp)) \<and> distinct (map sp_pointer sps)"

lemma filter_concat_own:
  assumes "x \<in> set xs" and "distinct (map ptr xs)" and "\<forall>y \<in> set xs. \<forall>f \<in> set (snd y). df_pointer f = ptr y"
  shows "filter (\<lambda>f. df_pointer f = ptr x) (concat (map snd xs)) = snd x"
  using assms
proof (induction xs)
  case (Cons y ys)
  have none: "filter (\<lambda>f. df_pointer f = q) (snd z) = []" if "z \<in> set (y # ys)" "ptr z \<noteq> q" for z q
    using Cons.prems(3) that by (auto simp: filter_empty_conv)
  show ?case
  proof (cases "x = y")
    case True
    have "ptr z \<noteq> ptr y" if "z \<in> set ys" for z using Cons.prems(2) that by (force simp: image_iff)
    then have "filter (\<lambda>f. df_pointer f = ptr y) (concat (map snd ys)) = []"
      using Cons.prems(3) by (fastforce simp: filter_empty_conv)
    moreover have "filter (\<lambda>f. df_pointer f = ptr y) (snd y) = snd y"
      using Cons.prems(3) by (simp add: filter_id_conv)
    ultimately show ?thesis using True by simp
  next
    case False
    with Cons.prems(1) have x: "x \<in> set ys" by simp
    with Cons.prems(2) have "ptr y \<noteq> ptr x" by (force simp: image_iff)
    with Cons.IH [OF x] Cons.prems none [of y "ptr x"] show ?thesis by simp
  qed
qed simp

lemma filter_resolve_pointer:
  "filter (\<lambda>r. rs_pointer r = q) (po_findings (policy_resolve who fs dir)) =
     po_findings (policy_resolve who (filter (\<lambda>f. df_pointer f = q) fs) dir)"
  by (simp add: policy_resolve_def filter_map comp_def resolve_finding_def)

lemma text_part_own_findings:
  assumes "regex_sound (sc_regex (dp_scan D))" and "scan_parts D E ps = Ok (sps, fs)"
    and "own_pointers sps" and "sp \<in> set sps" and "sp_rewrite_plan sp = PlanText"
  shows "filter (\<lambda>r. rs_pointer r = sp_pointer sp) (po_findings (policy_resolve who fs Request)) =
    po_findings (policy_resolve who
      (attach_scan D (limit_text (from_utf8_lossy (mp_body (sp_raw sp))) (ae_max_text_chars E)) (sp_pointer sp)) Request)"
proof -
  obtain founds where f: "sps = map fst founds" "fs = concat (map snd founds)"
    "list_all2 (\<lambda>p x. scan_part D E p = Ok x) ps founds"
    using scan_parts_Ok [OF assms(2)] by blast
  have flat: "scan_part D E (sp_raw (fst x)) = Ok x \<and> flat_plan (sp_rewrite_plan (fst x))" if x: "x \<in> set founds" for x
  proof -
    obtain p where "scan_part D E p = Ok (fst x, snd x)"
      using f(3) x by (auto simp: list_all2_conv_all_nth in_set_conv_nth)
    with scan_part_raw [OF this] assms(3) f(1) x show ?thesis by (auto simp: own_pointers_def)
  qed
  from assms(4) f(1) obtain found where x: "(sp, found) \<in> set founds" by auto
  have "\<forall>y \<in> set founds. \<forall>f \<in> set (snd y). df_pointer f = sp_pointer (fst y)"
    using scan_part_flat(1) [OF assms(1)] flat by (metis prod.collapse)
  moreover have "distinct (map (sp_pointer \<circ> fst) founds)" using assms(3) f(1) by (simp add: own_pointers_def)
  ultimately have "filter (\<lambda>f. df_pointer f = sp_pointer sp) fs = found"
    using filter_concat_own [OF x, of "sp_pointer \<circ> fst"] f(2) by (simp add: comp_def)
  moreover have "found = attach_scan D (limit_text (from_utf8_lossy (mp_body (sp_raw sp))) (ae_max_text_chars E)) (sp_pointer sp)"
    using flat [OF x] assms(5) by (intro scan_part_flat(2) [OF assms(1)]) auto
  ultimately show ?thesis by (simp add: filter_resolve_pointer)
qed

lemma text_part_findings_wf:
  assumes "regex_sound (sc_regex (dp_scan D))"
    and "r \<in> set (po_findings (policy_resolve who (attach_scan D (limit_text src n) ptr) Request))"
  shows "rs_span_wf src r"
  using span_source.resolved_wf [OF attach_span_source [OF assms(1)] assms(2)]
  unfolding rs_span_wf_def by (rule limit_text_slice)

section \<open>Redacted requests\<close>

lemma rewrite_parts_Some:
  assumes "rewrite_parts D rng findings i sps = Ok (Some sps')"
  shows "list_all2 (\<lambda>sp sp'. \<exists>j r. plan_rewrite D (\<lambda>q. rng (j # q)) (sp_rewrite_plan sp) (mp_body (sp_raw sp))
      (sp_pointer sp) findings = Ok r \<and> sp' = sp\<lparr>sp_rewritten_body := r\<rparr>) sps sps'"
  using assms
proof (induction sps arbitrary: i sps')
  case (Cons sp sps)
  obtain r where r: "plan_rewrite D (\<lambda>q. rng (i # q)) (sp_rewrite_plan sp) (mp_body (sp_raw sp))
      (sp_pointer sp) findings = Ok r"
    using Cons.prems by (auto split: rres.splits attachment_error.splits)
  with Cons.prems obtain rest where "rewrite_parts D rng findings (Suc i) sps = Ok (Some rest)"
    and "sps' = sp\<lparr>sp_rewritten_body := r\<rparr> # rest"
    by (auto simp: rres_iffs eq_commute [of "Some _"])
  with Cons.IH r show ?case by auto
qed simp

lemma finish_scan_Redact:
  assumes "finish_scan D rng body boundary sps policy = Ok res" and "po_decision (sr_policy res) = Redact"
  obtains sps' where "sr_policy res = policy" and "\<not> non_rewritable_sensitive sps (po_findings policy)"
    and "rewrite_parts D rng (po_findings policy) 0 sps = Ok (Some sps')"
    and "sr_sanitized_body res = rebuild_multipart_body boundary sps'"
proof -
  let ?p = "if non_rewritable_sensitive sps (po_findings policy) \<and> po_decision policy = Redact
    then review_fallback policy else policy"
  have "po_decision ?p = Redact" and p: "?p = policy" and "\<not> non_rewritable_sensitive sps (po_findings policy)"
    using assms by (auto simp: finish_scan_def Let_def review_fallback_def rres_iffs split: if_splits option.splits)
  with assms obtain r where "rewrite_parts D rng (po_findings policy) 0 sps = Ok r"
    and "res = (case r of
        None \<Rightarrow> \<lparr>sr_sanitized_body = body, sr_policy = review_fallback policy\<rparr>
      | Some parts' \<Rightarrow> \<lparr>sr_sanitized_body = rebuild_multipart_body boundary parts', sr_policy = policy\<rparr>)"
    by (auto simp: finish_scan_def Let_def rres_iffs split: if_splits)
  with assms(2) \<open>\<not> non_rewritable_sensitive sps (po_findings policy)\<close> show ?thesis
    by (cases r) (auto simp: review_fallback_def intro: that)
qed

lemma finish_scan_other:
  assumes "finish_scan D rng body boundary sps policy = Ok res" and "po_decision (sr_policy res) \<noteq> Redact"
  shows "sr_sanitized_body res = body"
  using assms by (auto simp: finish_scan_def Let_def rres_iffs split: if_splits option.splits)

lemma scan_request_SomeE:
  assumes "scan_request D E rng who body (Some ct) = Ok (Some res)"
  obtains (Empty) boundary where "parse_boundary ct = Some boundary" "parse_multipart_parts body boundary = Ok []"
      "sr_sanitized_body res = body" "sr_policy res = policy_resolve who [] Request"
    | (Parts) boundary parts sps fs where "parse_boundary ct = Some boundary"
      "parse_multipart_parts body boundary = Ok parts" "scan_parts D E parts = Ok (sps, fs)"
      "finish_scan D rng body boundary sps (policy_resolve who fs Request) = Ok res"
  using assms by (auto simp: scan_request_def policy_resolve_def rres_iffs ok_or_def
      split: if_splits option.splits)

text \<open>The parts of the redacted body are those of the request, with rewritten bodies.\<close>

lemma rebuild_parses:
  assumes "parse_multipart_parts body boundary = Ok parts" and "scan_parts D E parts = Ok (sps, fs)"
    and "list_all2 (\<lambda>sp sp'. \<exists>r. sp' = sp\<lparr>sp_rewritten_body := r\<rparr>) sps sps'"
    and "CHR 0x0D \<notin> set boundary"
    and "\<forall>sp' \<in> set sps'. \<forall>b. sp_rewritten_body sp' = Some b \<longrightarrow> \<not> contains_str b (next_marker boundary)"
  shows "parse_multipart_parts (rebuild_multipart_body boundary sps') boundary =
    Ok (map (\<lambda>sp. with_body (sp_raw sp, sp_rewritten_body sp)) sps')"
proof -
  have raw: "sp_raw sp' \<in> set parts" if sp': "sp' \<in> set sps'" for sp'
  proof -
    obtain founds where f: "sps = map fst founds" "list_all2 (\<lambda>p x. scan_part D E p = Ok x) parts founds"
      using scan_parts_Ok [OF assms(2)] by blast
    from sp' obtain i where i: "i < length sps'" "sp' = sps' ! i" by (auto simp: in_set_conv_nth)
    with assms(3) obtain r where "sps' ! i = (sps ! i)\<lparr>sp_rewritten_body := r\<rparr>" "i < length sps"
      by (auto simp: list_all2_conv_all_nth)
    with i obtain sp where "sp \<in> set sps" "sp_raw sp' = sp_raw sp" by force
    moreover from this(1) f obtain p found where "p \<in> set parts" "scan_part D E p = Ok (sp, found)"
      by (force simp: list_all2_conv_all_nth in_set_conv_nth)
    ultimately show ?thesis using scan_part_raw by metis
  qed
  have "part_ok boundary (sp_raw sp, sp_rewritten_body sp)" if "sp \<in> set sps'" for sp
  proof (cases "sp_rewritten_body sp")
    case None
    with parse_multipart_parts_ok [OF assms(1) raw [OF that]] show ?thesis by simp
  next
    case (Some b)
    with assms(5) that have "find_sub b (next_marker boundary) = None" by (auto simp: contains_str_def)
    with find_sub_bodies [OF assms(4)] parse_multipart_parts_ok [OF assms(1) raw [OF that]] Some
    show ?thesis by (simp add: part_ok_def Let_def)
  qed
  then show ?thesis
    unfolding rebuild_multipart_body_def by (subst parse_write_parts) (auto simp: comp_def)
qed

section \<open>What is not scanned\<close>

lemma scan_parts_fields:
  "(\<forall>p \<in> set parts. \<not> is_attachment p) \<Longrightarrow>
     \<exists>sps. scan_parts D E parts = Ok (sps, []) \<and> (\<forall>sp \<in> set sps. sp_rewrite_plan sp = PlanNone \<and> sp_pointer sp = [])"
  by (induction parts) (auto simp: scan_part_def)

lemma scan_request_fields:
  assumes "ae_enabled E" and "is_multipart_form (Some ct)" and "parse_boundary ct = Some boundary"
    and "parse_multipart_parts body boundary = Ok parts" and "\<forall>p \<in> set parts. \<not> is_attachment p"
  shows "scan_request D E rng who body (Some ct) =
    Ok (Some \<lparr>sr_sanitized_body = body, sr_policy = policy_resolve who [] Request\<rparr>)"
proof -
  obtain sps where sps: "scan_parts D E parts = Ok (sps, [])" using scan_parts_fields [OF assms(5)] by blast
  have "finish_scan D rng body boundary sps (policy_resolve who [] Request) =
      Ok \<lparr>sr_sanitized_body = body, sr_policy = policy_resolve who [] Request\<rparr>"
    by (simp add: finish_scan_def Let_def policy_resolve_def)
  with assms sps show ?thesis
    by (simp add: scan_request_def ok_or_def) (simp add: policy_resolve_def)
qed

end
