(* ===== verification/Gw_Audit.thy ===== *)
theory Gw_Audit
  imports Core_Types
begin

text \<open>
  \<open>src/audit.rs\<close>: the audit records, the bounded in-memory store, the sink with its channel and
  writer task, and the reader of the audit file. Times are nanoseconds. The JSON lines are a
  parameter (\<open>line_api\<close>); whether a write to the file succeeds is an argument of the writer step.
\<close>

section \<open>Records\<close>

record audit_finding =
  af_label :: string
  af_rule_name :: string
  af_action :: string
  af_pointer :: string
  af_severity :: string
  af_matched_sha256 :: string
  af_matched_len :: nat

record audit_record =
  ar_ts :: int
  ar_request_id :: string
  ar_principal :: string
  ar_tenant_id :: string
  ar_direction :: string
  ar_path :: string
  ar_decision :: string
  ar_policy_source :: string
  ar_decision_reason :: "string option"
  ar_matched_labels :: "string list"
  ar_matched_rules :: "string list"
  ar_findings :: "audit_finding list"
  ar_session_id :: "string option"
  ar_session_escalated :: bool
  ar_status_code :: "nat option"
  ar_error_stage :: "string option"
  ar_error_kind :: "string option"

datatype audit_source = Memory | File | Both

section \<open>The store\<close>

record audit_store =
  as_capacity :: nat
  as_records :: "audit_record list"

definition audit_store_default :: audit_store where
  "audit_store_default = \<lparr>as_capacity = 0, as_records = []\<rparr>"

text \<open>\<open>while len > capacity \{ pop_front \}\<close>\<close>

function pop_to_capacity :: "nat \<Rightarrow> 'a list \<Rightarrow> 'a list" where
  "pop_to_capacity cap xs = (if length xs > cap then pop_to_capacity cap (tl xs) else xs)"
  by pat_completeness auto
termination
  by (relation "measure (\<lambda>(cap, xs). length xs)") auto

declare pop_to_capacity.simps [simp del]

definition audit_set_capacity :: "nat \<Rightarrow> audit_store \<Rightarrow> audit_store" where
  "audit_set_capacity capacity s =
     \<lparr>as_capacity = max capacity 1, as_records = pop_to_capacity (max capacity 1) (as_records s)\<rparr>"

definition audit_store_new :: "nat \<Rightarrow> audit_store" where
  "audit_store_new capacity = audit_set_capacity capacity audit_store_default"

definition audit_push :: "audit_record \<Rightarrow> audit_store \<Rightarrow> audit_store" where
  "audit_push r s =
     (let cap = (if as_capacity s = 0 then 1000 else as_capacity s);
          rs = (if length (as_records s) \<ge> cap then tl (as_records s) else as_records s)
      in \<lparr>as_capacity = cap, as_records = rs @ [r]\<rparr>)"

definition audit_snapshot :: "audit_store \<Rightarrow> audit_record list" where
  "audit_snapshot s = as_records s"

definition audit_len :: "audit_store \<Rightarrow> nat" where
  "audit_len s = length (as_records s)"

section \<open>The sink, its writer and the file\<close>

record line_api =
  ln_print :: "audit_record \<Rightarrow> string option"
  ln_parse :: "string \<Rightarrow> audit_record option"

definition line_sound :: "line_api \<Rightarrow> bool" where
  "line_sound L \<longleftrightarrow> (\<forall>r. \<exists>l. ln_print L r = Some l \<and> ln_parse L l = Some r)"

record audit_sink =
  sk_store :: audit_store
  sk_channel :: "audit_record list"
  sk_file :: "string list"

definition audit_emit :: "audit_record \<Rightarrow> audit_sink \<Rightarrow> audit_sink" where
  "audit_emit r k = k\<lparr>sk_store := audit_push r (sk_store k), sk_channel := sk_channel k @ [r]\<rparr>"

text \<open>One turn of the writer task: \<open>written\<close> tells whether \<open>writeln!\<close> succeeds.\<close>

definition audit_writer_step :: "line_api \<Rightarrow> bool \<Rightarrow> audit_sink \<Rightarrow> audit_sink" where
  "audit_writer_step L written k =
     (case sk_channel k of
        [] \<Rightarrow> k
      | r # rest \<Rightarrow>
          (case ln_print L r of
             Some line \<Rightarrow> k\<lparr>sk_channel := rest, sk_file := (if written then sk_file k @ [line] else sk_file k)\<rparr>
           | None \<Rightarrow> k\<lparr>sk_channel := rest\<rparr>))"

datatype io_open = Opened "string list" | NotFoundError | OtherError

text \<open>\<open>map_while(Result::ok)\<close> is part of \<open>Opened\<close>: the lines up to the first unreadable one.\<close>

definition read_recent_audit_file :: "line_api \<Rightarrow> io_open \<Rightarrow> nat \<Rightarrow> audit_record list option" where
  "read_recent_audit_file L f limit =
     (case f of
        NotFoundError \<Rightarrow> Some []
      | OtherError \<Rightarrow> None
      | Opened lines \<Rightarrow>
          (let parsed = List.map_filter (ln_parse L) lines in
           Some (if length parsed > limit then drop (length parsed - limit) parsed else parsed)))"

section \<open>The store keeps the most recent records\<close>

lemma pop_to_capacity_last_n: "pop_to_capacity cap xs = last_n cap xs"
proof (induction cap xs rule: pop_to_capacity.induct)
  case (1 cap xs)
  show ?case
  proof (cases "length xs > cap")
    case True
    then have "last_n cap (tl xs) = last_n cap xs"
      by (cases xs) (auto simp: last_n_def Suc_diff_le)
    with True 1 show ?thesis by (subst pop_to_capacity.simps) simp
  next
    case False
    then show ?thesis by (subst pop_to_capacity.simps) (simp add: last_n_all)
  qed
qed

definition audit_store_inv :: "audit_store \<Rightarrow> bool" where
  "audit_store_inv s \<longleftrightarrow> 0 < as_capacity s \<and> length (as_records s) \<le> as_capacity s"

lemma audit_push_last_n:
  assumes "audit_store_inv s"
  shows "audit_push r s = \<lparr>as_capacity = as_capacity s, as_records = last_n (as_capacity s) (as_records s @ [r])\<rparr>"
  using assms
  by (auto simp: audit_push_def audit_store_inv_def Let_def last_n_snoc last_n_all)

lemma audit_push_inv: "audit_store_inv s \<Longrightarrow> audit_store_inv (audit_push r s)"
  by (simp add: audit_push_last_n) (simp add: audit_store_inv_def)

lemma audit_set_capacity_inv: "audit_store_inv (audit_set_capacity n s)"
  by (simp add: audit_set_capacity_def audit_store_inv_def pop_to_capacity_last_n)

lemma last_n_append_last_n: "last_n n (last_n n xs @ ys) = last_n n (xs @ ys)"
  by (cases "length xs \<le> n") (auto simp: last_n_def min_def add.commute)

lemma audit_push_all:
  "audit_store_inv s \<Longrightarrow>
     fold audit_push rs s = \<lparr>as_capacity = as_capacity s, as_records = last_n (as_capacity s) (as_records s @ rs)\<rparr>"
proof (induction rs arbitrary: s)
  case Nil
  then show ?case by (simp add: audit_store_inv_def last_n_all)
next
  case (Cons r rs)
  have "audit_store_inv (audit_push r s)" using Cons.prems by (rule audit_push_inv)
  from Cons.IH [OF this] show ?case
    by (simp add: audit_push_last_n [OF Cons.prems] last_n_append_last_n)
qed

section \<open>The file receives what was emitted, in order\<close>

text \<open>Records and sink, with the history of emitted records, when every write succeeds.\<close>

inductive sink_step :: "line_api \<Rightarrow> audit_sink \<times> audit_record list \<Rightarrow> audit_sink \<times> audit_record list \<Rightarrow> bool"
  for L :: line_api where
  emit: "sink_step L (k, h) (audit_emit r k, h @ [r])"
| writer: "sink_step L (k, h) (audit_writer_step L True k, h)"
| resize: "sink_step L (k, h) (k\<lparr>sk_store := audit_set_capacity n (sk_store k)\<rparr>, h)"

definition sink_inv :: "line_api \<Rightarrow> audit_sink \<times> audit_record list \<Rightarrow> bool" where
  "sink_inv L = (\<lambda>(k, h). audit_store_inv (sk_store k) \<and>
     map Some h = map (ln_parse L) (sk_file k) @ map Some (sk_channel k))"

definition sink_start :: "nat \<Rightarrow> audit_sink \<times> audit_record list \<Rightarrow> bool" where
  "sink_start n = (\<lambda>(k, h). h = [] \<and>
     k = \<lparr>sk_store = audit_store_new n, sk_channel = [], sk_file = []\<rparr>)"

lemma writer_step_inv:
  assumes "line_sound L" and "sink_inv L (k, h)"
  shows "sink_inv L (audit_writer_step L True k, h)"
proof (cases "sk_channel k")
  case (Cons r rest)
  obtain l where "ln_print L r = Some l" "ln_parse L l = Some r"
    using assms(1) unfolding line_sound_def by blast
  with Cons assms(2) show ?thesis by (auto simp: audit_writer_step_def sink_inv_def)
qed (use assms in \<open>simp add: audit_writer_step_def\<close>)

lemma sink_system: "line_sound L \<Longrightarrow> transition_system (sink_start n) (sink_step L) (sink_inv L)"
proof (unfold_locales, goal_cases)
  case (1 s)
  then show ?case by (auto simp: sink_start_def sink_inv_def audit_store_new_def audit_set_capacity_inv)
next
  case (2 s t)
  from 2(3,1,2) show ?case
    by (cases rule: sink_step.cases)
      (auto simp: writer_step_inv, auto simp: sink_inv_def audit_emit_def audit_push_inv audit_set_capacity_inv)
qed

lemma map_filter_all_Some: "map f ls = map Some rs \<Longrightarrow> List.map_filter f ls = rs"
  by (induction ls arbitrary: rs) (auto simp: map_filter_def)

lemma read_recent_reachable:
  assumes "line_sound L" and "sink_start n s0" and "(sink_step L)\<^sup>*\<^sup>* s0 (k, h)"
    and "sk_channel k = []"
  shows "read_recent_audit_file L (Opened (sk_file k)) limit = Some (last_n limit h)"
proof -
  have "sink_inv L (k, h)"
    using transition_system.reachable_invariant [OF sink_system [OF assms(1)] assms(2,3)] .
  with assms(4) have "List.map_filter (ln_parse L) (sk_file k) = h"
    by (intro map_filter_all_Some) (simp add: sink_inv_def)
  then show ?thesis by (auto simp: read_recent_audit_file_def last_n_def)
qed

end
