(* ===== verification/Gw_Review.thy ===== *)
theory Gw_Review
  imports Gw_Audit
begin

text \<open>
  \<open>src/review.rs\<close>: review tickets, the overrides an operator's resolution leaves, and the event
  file from which the store is rebuilt. Times are nanoseconds, passed by the caller where the code
  reads the clock; the new UUID and the outcome of the append are arguments too. The \<open>chrono\<close>
  crate's addition of seconds is a parameter, \<open>None\<close> where it panics; so are the JSON lines.
\<close>

section \<open>Data\<close>

datatype review_status = RPending | RApproved | RRejected

record review_resolution =
  rn_resolved_at :: int
  rn_resolved_by :: string
  rn_note :: "string option"
  rn_expires_at :: "int option"

record review_ticket =
  rt_id :: string
  rt_created_at :: int
  rt_updated_at :: int
  rt_status :: review_status
  rt_request_id :: string
  rt_principal :: string
  rt_tenant_id :: string
  rt_direction :: string
  rt_path :: string
  rt_policy_source :: string
  rt_decision_reason :: "string option"
  rt_matched_labels :: "string list"
  rt_matched_rules :: "string list"
  rt_findings :: "audit_finding list"
  rt_session_id :: "string option"
  rt_session_escalated :: bool
  rt_request_sha256 :: string
  rt_sanitized_preview :: "string option"
  rt_post_approval_action :: decision_action
  rt_resolution :: "review_resolution option"
  rt_fingerprint :: string

record new_review_ticket =
  nt_request_id :: string
  nt_principal :: string
  nt_tenant_id :: string
  nt_direction :: string
  nt_path :: string
  nt_policy_source :: string
  nt_decision_reason :: "string option"
  nt_matched_labels :: "string list"
  nt_matched_rules :: "string list"
  nt_findings :: "audit_finding list"
  nt_session_id :: "string option"
  nt_session_escalated :: bool
  nt_request_sha256 :: string
  nt_sanitized_preview :: "string option"
  nt_post_approval_action :: decision_action
  nt_fingerprint :: string

datatype review_decision_override =
    OvApproved (ov_ticket_id: string) decision_action (ov_resolved_by: string)
  | OvRejected (ov_ticket_id: string) (ov_resolved_by: string)

datatype review_filter_status = FPending | FApproved | FRejected | FAll

datatype review_resolve_error = NotFound | AlreadyResolved review_status

datatype review_store_error = OpenError string | AppendError string | EventSerializeError string

record stored_override =
  so_decision :: review_decision_override
  so_expires_at :: int

text \<open>
  A persisted ticket has the fields of a ticket, its fingerprint included, which the JSON of
  \<open>ReviewTicket\<close> itself leaves out.
\<close>

record persisted_review_ticket =
  pt_id :: string
  pt_created_at :: int
  pt_updated_at :: int
  pt_status :: review_status
  pt_request_id :: string
  pt_principal :: string
  pt_tenant_id :: string
  pt_direction :: string
  pt_path :: string
  pt_policy_source :: string
  pt_decision_reason :: "string option"
  pt_matched_labels :: "string list"
  pt_matched_rules :: "string list"
  pt_findings :: "audit_finding list"
  pt_session_id :: "string option"
  pt_session_escalated :: bool
  pt_request_sha256 :: string
  pt_sanitized_preview :: "string option"
  pt_post_approval_action :: decision_action
  pt_resolution :: "review_resolution option"
  pt_fingerprint :: string

definition from_ticket :: "review_ticket \<Rightarrow> persisted_review_ticket" where
  "from_ticket ticket =
     \<lparr>pt_id = rt_id ticket, pt_created_at = rt_created_at ticket, pt_updated_at = rt_updated_at ticket,
      pt_status = rt_status ticket, pt_request_id = rt_request_id ticket, pt_principal = rt_principal ticket,
      pt_tenant_id = rt_tenant_id ticket, pt_direction = rt_direction ticket, pt_path = rt_path ticket,
      pt_policy_source = rt_policy_source ticket, pt_decision_reason = rt_decision_reason ticket,
      pt_matched_labels = rt_matched_labels ticket, pt_matched_rules = rt_matched_rules ticket,
      pt_findings = rt_findings ticket, pt_session_id = rt_session_id ticket,
      pt_session_escalated = rt_session_escalated ticket, pt_request_sha256 = rt_request_sha256 ticket,
      pt_sanitized_preview = rt_sanitized_preview ticket,
      pt_post_approval_action = rt_post_approval_action ticket, pt_resolution = rt_resolution ticket,
      pt_fingerprint = rt_fingerprint ticket\<rparr>"

definition into_ticket :: "persisted_review_ticket \<Rightarrow> review_ticket" where
  "into_ticket p =
     \<lparr>rt_id = pt_id p, rt_created_at = pt_created_at p, rt_updated_at = pt_updated_at p,
      rt_status = pt_status p, rt_request_id = pt_request_id p, rt_principal = pt_principal p,
      rt_tenant_id = pt_tenant_id p, rt_direction = pt_direction p, rt_path = pt_path p,
      rt_policy_source = pt_policy_source p, rt_decision_reason = pt_decision_reason p,
      rt_matched_labels = pt_matched_labels p, rt_matched_rules = pt_matched_rules p,
      rt_findings = pt_findings p, rt_session_id = pt_session_id p,
      rt_session_escalated = pt_session_escalated p, rt_request_sha256 = pt_request_sha256 p,
      rt_sanitized_preview = pt_sanitized_preview p, rt_post_approval_action = pt_post_approval_action p,
      rt_resolution = pt_resolution p, rt_fingerprint = pt_fingerprint p\<rparr>"

text \<open>What is persisted of a ticket is the whole ticket.\<close>

lemma into_from_ticket [simp]: "into_ticket (from_ticket ticket) = ticket"
  by (simp add: into_ticket_def from_ticket_def)

lemma from_into_ticket [simp]: "from_ticket (into_ticket p) = p"
  by (simp add: into_ticket_def from_ticket_def)

datatype review_event =
    Created persisted_review_ticket
  | Resolved string review_status string "string option" int int

record review_inner =
  ri_capacity :: nat
  ri_order :: "string list"
  ri_tickets :: "(string, review_ticket) hmap"
  ri_pending :: "(string, string) hmap"
  ri_overrides :: "(string, stored_override) hmap"

record review_store =
  rv_inner :: review_inner
  rv_file :: "string list"

record event_api =
  ev_print :: "review_event \<Rightarrow> string + string"
  ev_parse :: "string \<Rightarrow> review_event option"

definition event_sound :: "event_api \<Rightarrow> bool" where
  "event_sound E \<longleftrightarrow> (\<forall>e. \<exists>l. ev_print E e = Inr l \<and> ev_parse E l = Some e)"

section \<open>Operations\<close>

definition review_inner_default :: review_inner where
  "review_inner_default =
     \<lparr>ri_capacity = 0, ri_order = [], ri_tickets = [], ri_pending = [], ri_overrides = []\<rparr>"

definition prune_expired_overrides :: "int \<Rightarrow> review_inner \<Rightarrow> review_inner" where
  "prune_expired_overrides now i =
     i\<lparr>ri_overrides := hm_retain (\<lambda>_ e. so_expires_at e > now) (ri_overrides i)\<rparr>"

text \<open>The body of the trimming loop for one identifier taken from the front.\<close>

definition drop_ticket :: "string \<Rightarrow> review_inner \<Rightarrow> review_inner" where
  "drop_ticket i s =
     (case hm_get (ri_tickets s) i of
        None \<Rightarrow> s
      | Some t \<Rightarrow>
          s\<lparr>ri_tickets := hm_remove i (ri_tickets s),
            ri_pending := hm_remove (rt_fingerprint t) (ri_pending s),
            ri_overrides := hm_remove (rt_fingerprint t) (ri_overrides s)\<rparr>)"

function trim_to_capacity :: "review_inner \<Rightarrow> review_inner" where
  "trim_to_capacity s =
     (if length (ri_order s) > ri_capacity s
      then trim_to_capacity (drop_ticket (hd (ri_order s)) (s\<lparr>ri_order := tl (ri_order s)\<rparr>))
      else s)"
  by pat_completeness auto
termination
  by (relation "measure (\<lambda>s. length (ri_order s))") (auto simp: drop_ticket_def split: option.splits)

declare trim_to_capacity.simps [simp del]

definition review_set_capacity :: "nat \<Rightarrow> review_store \<Rightarrow> review_store" where
  "review_set_capacity capacity s =
     s\<lparr>rv_inner := trim_to_capacity ((rv_inner s)\<lparr>ri_capacity := max capacity 1\<rparr>)\<rparr>"

definition append_review_event ::
  "event_api \<Rightarrow> string option \<Rightarrow> review_event \<Rightarrow> string list \<Rightarrow> review_store_error + string list" where
  "append_review_event E io_error event lines =
     (case ev_print E event of
        Inl e \<Rightarrow> Inl (EventSerializeError e)
      | Inr line \<Rightarrow> (case io_error of Some e \<Rightarrow> Inl (AppendError e) | None \<Rightarrow> Inr (lines @ [line])))"

definition ticket_of_new :: "int \<Rightarrow> string \<Rightarrow> new_review_ticket \<Rightarrow> review_ticket" where
  "ticket_of_new now i n =
     \<lparr>rt_id = i, rt_created_at = now, rt_updated_at = now, rt_status = RPending,
      rt_request_id = nt_request_id n, rt_principal = nt_principal n, rt_tenant_id = nt_tenant_id n,
      rt_direction = nt_direction n, rt_path = nt_path n, rt_policy_source = nt_policy_source n,
      rt_decision_reason = nt_decision_reason n, rt_matched_labels = nt_matched_labels n,
      rt_matched_rules = nt_matched_rules n, rt_findings = nt_findings n,
      rt_session_id = nt_session_id n, rt_session_escalated = nt_session_escalated n,
      rt_request_sha256 = nt_request_sha256 n, rt_sanitized_preview = nt_sanitized_preview n,
      rt_post_approval_action = nt_post_approval_action n, rt_resolution = None,
      rt_fingerprint = nt_fingerprint n\<rparr>"

definition insert_ticket :: "review_ticket \<Rightarrow> review_inner \<Rightarrow> review_inner" where
  "insert_ticket t i =
     i\<lparr>ri_pending := hm_insert (rt_fingerprint t) (rt_id t) (ri_pending i),
       ri_order := ri_order i @ [rt_id t],
       ri_tickets := hm_insert (rt_id t) t (ri_tickets i)\<rparr>"

definition upsert_pending ::
  "event_api \<Rightarrow> string option \<Rightarrow> int \<Rightarrow> string \<Rightarrow> new_review_ticket \<Rightarrow> review_store \<Rightarrow>
     (review_store_error + review_ticket) \<times> review_store" where
  "upsert_pending E io_error now fresh n s =
     (let i = prune_expired_overrides now (rv_inner s) in
      case Option.bind (hm_get (ri_pending i) (nt_fingerprint n)) (hm_get (ri_tickets i)) of
        Some t \<Rightarrow> (Inr t, s\<lparr>rv_inner := i\<rparr>)
      | None \<Rightarrow>
          (let t = ticket_of_new now fresh n in
           case append_review_event E io_error (Created (from_ticket t)) (rv_file s) of
             Inl e \<Rightarrow> (Inl e, s\<lparr>rv_inner := i\<rparr>)
           | Inr lines \<Rightarrow>
               (Inr t, \<lparr>rv_inner = trim_to_capacity (insert_ticket t i), rv_file = lines\<rparr>)))"

definition lookup_override ::
  "int \<Rightarrow> string \<Rightarrow> review_store \<Rightarrow> review_decision_override option \<times> review_store" where
  "lookup_override now fingerprint s =
     (let i = prune_expired_overrides now (rv_inner s) in
      (map_option so_decision (hm_get (ri_overrides i) fingerprint), s\<lparr>rv_inner := i\<rparr>))"

definition review_get :: "int \<Rightarrow> string \<Rightarrow> review_store \<Rightarrow> review_ticket option \<times> review_store" where
  "review_get now i s =
     (let inner = prune_expired_overrides now (rv_inner s) in
      (hm_get (ri_tickets inner) i, s\<lparr>rv_inner := inner\<rparr>))"

definition as_i64 :: "nat \<Rightarrow> int" where
  "as_i64 n = (let m = int n mod 2 ^ 64 in if m < 2 ^ 63 then m else m - 2 ^ 64)"

definition resolve_ticket ::
  "review_status \<Rightarrow> string \<Rightarrow> string option \<Rightarrow> int \<Rightarrow> int \<Rightarrow> review_ticket \<Rightarrow> review_ticket" where
  "resolve_ticket status by_whom note at expires t =
     t\<lparr>rt_status := status, rt_updated_at := at,
       rt_resolution := Some \<lparr>rn_resolved_at = at, rn_resolved_by = by_whom, rn_note = note,
         rn_expires_at = Some expires\<rparr>\<rparr>"

fun override_decision ::
  "review_status \<Rightarrow> review_ticket \<Rightarrow> string \<Rightarrow> review_decision_override option" where
  "override_decision RApproved t by_whom = Some (OvApproved (rt_id t) (rt_post_approval_action t) by_whom)"
| "override_decision RRejected t by_whom = Some (OvRejected (rt_id t) by_whom)"
| "override_decision RPending t by_whom = None"

definition insert_override ::
  "string \<Rightarrow> review_decision_override option \<Rightarrow> int \<Rightarrow> review_inner \<Rightarrow> review_inner" where
  "insert_override fp d expires i =
     (case d of
        None \<Rightarrow> i
      | Some d \<Rightarrow>
          i\<lparr>ri_overrides := hm_insert fp \<lparr>so_decision = d, so_expires_at = expires\<rparr> (ri_overrides i)\<rparr>)"

text \<open>
  \<open>resolve\<close>: the ticket is changed before the event is appended. \<open>Panic\<close> is the overflow of the
  expiry and the \<open>unreachable!\<close> of a pending status.
\<close>

definition review_resolve ::
  "event_api \<Rightarrow> (int \<Rightarrow> int \<Rightarrow> int option) \<Rightarrow> string option \<Rightarrow> int \<Rightarrow> string \<Rightarrow> review_status \<Rightarrow>
     string \<Rightarrow> string option \<Rightarrow> nat \<Rightarrow> review_store \<Rightarrow>
     (review_resolve_error, review_ticket) rres \<times> review_store" where
  "review_resolve E add_secs io_error now i status by_whom note ttl_secs s =
     (let inner = prune_expired_overrides now (rv_inner s) in
      case hm_get (ri_tickets inner) i of
        None \<Rightarrow> (Err NotFound, s\<lparr>rv_inner := inner\<rparr>)
      | Some t \<Rightarrow>
          if rt_status t \<noteq> RPending then (Err (AlreadyResolved (rt_status t)), s\<lparr>rv_inner := inner\<rparr>)
          else (case add_secs now (as_i64 ttl_secs) of
            None \<Rightarrow> (Panic, s\<lparr>rv_inner := inner\<rparr>)
          | Some expires \<Rightarrow>
              (let t' = resolve_ticket status by_whom note now expires t;
                   inner1 = inner\<lparr>ri_tickets := hm_insert i t' (ri_tickets inner)\<rparr>
               in case append_review_event E io_error (Resolved i status by_whom note now expires) (rv_file s) of
                    Inl _ \<Rightarrow> (Err NotFound, s\<lparr>rv_inner := inner1\<rparr>)
                  | Inr lines \<Rightarrow>
                      (let inner2 = inner1\<lparr>ri_pending := hm_remove (rt_fingerprint t) (ri_pending inner1)\<rparr> in
                       if status = RPending then (Panic, \<lparr>rv_inner = inner2, rv_file = lines\<rparr>)
                       else (Ok t', \<lparr>rv_inner = insert_override (rt_fingerprint t)
                              (override_decision status t' by_whom) expires inner2, rv_file = lines\<rparr>)))))"

fun filter_status :: "review_filter_status \<Rightarrow> review_ticket \<Rightarrow> bool" where
  "filter_status FPending t \<longleftrightarrow> rt_status t = RPending"
| "filter_status FApproved t \<longleftrightarrow> rt_status t = RApproved"
| "filter_status FRejected t \<longleftrightarrow> rt_status t = RRejected"
| "filter_status FAll t \<longleftrightarrow> True"

definition review_list ::
  "int \<Rightarrow> review_filter_status \<Rightarrow> nat \<Rightarrow> review_store \<Rightarrow> review_ticket list \<times> review_store" where
  "review_list now status limit s =
     (let i = prune_expired_overrides now (rv_inner s) in
      (take limit (filter (filter_status status)
         (List.map_filter (hm_get (ri_tickets i)) (rev (ri_order i)))), s\<lparr>rv_inner := i\<rparr>))"

definition pending_count :: "int \<Rightarrow> review_store \<Rightarrow> nat \<times> review_store" where
  "pending_count now s =
     (let i = prune_expired_overrides now (rv_inner s) in
      (length (filter (\<lambda>(_, t). rt_status t = RPending) (ri_tickets i)), s\<lparr>rv_inner := i\<rparr>))"

fun apply_review_event :: "review_event \<Rightarrow> review_inner \<Rightarrow> review_inner" where
  "apply_review_event (Created ticket) i =
     (let t = into_ticket ticket;
          i1 = i\<lparr>ri_order := ri_order i @ [rt_id t]\<rparr>;
          i2 = (if rt_status t = RPending
                then i1\<lparr>ri_pending := hm_insert (rt_fingerprint t) (rt_id t) (ri_pending i1)\<rparr> else i1)
      in i2\<lparr>ri_tickets := hm_insert (rt_id t) t (ri_tickets i2)\<rparr>)"
| "apply_review_event (Resolved ticket_id status by_whom note at expires) i =
     (case hm_get (ri_tickets i) ticket_id of
        None \<Rightarrow> i
      | Some t \<Rightarrow>
          (let t' = resolve_ticket status by_whom note at expires t
           in insert_override (rt_fingerprint t) (override_decision status t' by_whom) expires
                (i\<lparr>ri_tickets := hm_insert ticket_id t' (ri_tickets i),
                   ri_pending := hm_remove (rt_fingerprint t) (ri_pending i)\<rparr>)))"

definition load_existing :: "event_api \<Rightarrow> int \<Rightarrow> string list option \<Rightarrow> review_inner \<Rightarrow> review_inner" where
  "load_existing E now lines i =
     (case lines of
        None \<Rightarrow> i
      | Some ls \<Rightarrow> prune_expired_overrides now (fold apply_review_event (List.map_filter (ev_parse E) ls) i))"

definition review_store_new ::
  "event_api \<Rightarrow> int \<Rightarrow> nat \<Rightarrow> string option \<Rightarrow> bool \<Rightarrow> string list \<Rightarrow> review_store_error + review_store" where
  "review_store_new E now capacity open_error readable lines =
     (case open_error of
        Some e \<Rightarrow> Inl (OpenError e)
      | None \<Rightarrow>
          Inr \<lparr>rv_inner = trim_to_capacity (load_existing E now (if readable then Some lines else None)
                  (review_inner_default\<lparr>ri_capacity := max capacity 1\<rparr>)),
               rv_file = lines\<rparr>)"

section \<open>The invariant of the store\<close>

text \<open>
  An override stands for the resolution of a ticket that is still in the store: same fingerprint,
  same verdict, same expiry, same operator, and the action the ticket fixed when it was created.
\<close>

definition override_backed :: "string \<Rightarrow> stored_override \<Rightarrow> review_ticket \<Rightarrow> bool" where
  "override_backed fp so t \<longleftrightarrow> rt_fingerprint t = fp \<and>
     (case so_decision so of
        OvApproved _ a by_whom \<Rightarrow> rt_status t = RApproved \<and> a = rt_post_approval_action t \<and>
          (\<exists>r. rt_resolution t = Some r \<and> rn_resolved_by r = by_whom \<and> rn_expires_at r = Some (so_expires_at so))
      | OvRejected _ by_whom \<Rightarrow> rt_status t = RRejected \<and>
          (\<exists>r. rt_resolution t = Some r \<and> rn_resolved_by r = by_whom \<and> rn_expires_at r = Some (so_expires_at so)))"

definition review_core :: "review_inner \<Rightarrow> bool" where
  "review_core i \<longleftrightarrow> hm_wf (ri_tickets i) \<and> hm_wf (ri_pending i) \<and> hm_wf (ri_overrides i) \<and>
     distinct (ri_order i) \<and> (\<forall>k. k \<in> set (ri_order i) \<longleftrightarrow> hm_get (ri_tickets i) k \<noteq> None) \<and>
     (\<forall>k t. hm_get (ri_tickets i) k = Some t \<longrightarrow> rt_id t = k) \<and>
     (\<forall>fp k. hm_get (ri_pending i) fp = Some k \<longrightarrow>
        (\<exists>t. hm_get (ri_tickets i) k = Some t \<and> rt_fingerprint t = fp)) \<and>
     (\<forall>fp so. hm_get (ri_overrides i) fp = Some so \<longrightarrow>
        (\<exists>t. hm_get (ri_tickets i) (ov_ticket_id (so_decision so)) = Some t \<and> override_backed fp so t))"

definition review_inv :: "review_store \<Rightarrow> bool" where
  "review_inv s \<longleftrightarrow> review_core (rv_inner s) \<and> 0 < ri_capacity (rv_inner s) \<and>
     length (ri_order (rv_inner s)) \<le> ri_capacity (rv_inner s)"

lemma review_coreI:
  assumes "hm_wf (ri_tickets i)" and "hm_wf (ri_pending i)" and "hm_wf (ri_overrides i)"
    and "distinct (ri_order i)"
    and "\<And>k. k \<in> set (ri_order i) \<longleftrightarrow> hm_get (ri_tickets i) k \<noteq> None"
    and "\<And>k t. hm_get (ri_tickets i) k = Some t \<Longrightarrow> rt_id t = k"
    and "\<And>fp k. hm_get (ri_pending i) fp = Some k \<Longrightarrow>
        \<exists>t. hm_get (ri_tickets i) k = Some t \<and> rt_fingerprint t = fp"
    and "\<And>fp so. hm_get (ri_overrides i) fp = Some so \<Longrightarrow>
        \<exists>t. hm_get (ri_tickets i) (ov_ticket_id (so_decision so)) = Some t \<and> override_backed fp so t"
  shows "review_core i"
  unfolding review_core_def using assms by blast

lemma review_coreD:
  assumes "review_core i"
  shows "hm_wf (ri_tickets i)" and "hm_wf (ri_pending i)" and "hm_wf (ri_overrides i)"
    and "distinct (ri_order i)"
    and "k \<in> set (ri_order i) \<longleftrightarrow> hm_get (ri_tickets i) k \<noteq> None"
    and "hm_get (ri_tickets i) k = Some t \<Longrightarrow> rt_id t = k"
    and "hm_get (ri_pending i) fp = Some k \<Longrightarrow>
        \<exists>t. hm_get (ri_tickets i) k = Some t \<and> rt_fingerprint t = fp"
    and "hm_get (ri_overrides i) fp = Some so \<Longrightarrow>
        \<exists>t. hm_get (ri_tickets i) (ov_ticket_id (so_decision so)) = Some t \<and> override_backed fp so t"
  using assms unfolding review_core_def by blast+

lemma prune_simps [simp]:
  "ri_capacity (prune_expired_overrides now i) = ri_capacity i"
  "ri_order (prune_expired_overrides now i) = ri_order i"
  "ri_tickets (prune_expired_overrides now i) = ri_tickets i"
  "ri_pending (prune_expired_overrides now i) = ri_pending i"
  by (simp_all add: prune_expired_overrides_def)

lemma prune_wf [simp]:
  "hm_wf (ri_overrides i) \<Longrightarrow> hm_wf (ri_overrides (prune_expired_overrides now i))"
  by (simp add: prune_expired_overrides_def hm.wf_retain)

lemma prune_overrides:
  "hm_wf (ri_overrides i) \<Longrightarrow> hm_get (ri_overrides (prune_expired_overrides now i)) fp = Some so \<longleftrightarrow>
     hm_get (ri_overrides i) fp = Some so \<and> now < so_expires_at so"
  by (simp add: prune_expired_overrides_def hm.get_retain_Some_iff)

lemma review_core_prune:
  assumes "review_core i"
  shows "review_core (prune_expired_overrides now i)"
  using review_coreD [OF assms] by (intro review_coreI) (simp_all add: prune_overrides)

lemma override_backed_fp: "override_backed fp so t \<Longrightarrow> rt_fingerprint t = fp"
  by (simp add: override_backed_def)

lemma review_core_drop:
  assumes core: "review_core i" and order: "ri_order i = k # ks"
  shows "review_core (drop_ticket k (i\<lparr>ri_order := ks\<rparr>))"
proof -
  note D = review_coreD [OF core]
  obtain t where t: "hm_get (ri_tickets i) k = Some t"
    using D(5) [of k] order by auto
  have eq: "drop_ticket k (i\<lparr>ri_order := ks\<rparr>) =
      i\<lparr>ri_order := ks, ri_tickets := hm_remove k (ri_tickets i),
        ri_pending := hm_remove (rt_fingerprint t) (ri_pending i),
        ri_overrides := hm_remove (rt_fingerprint t) (ri_overrides i)\<rparr>"
    using t by (simp add: drop_ticket_def)
  show ?thesis unfolding eq
  proof (rule review_coreI, goal_cases)
    case (5 k')
    then show ?case using D(4) D(5) [of k'] order by (auto simp: hm.get_remove)
  next
    case (7 fp k')
    then have "hm_get (ri_pending i) fp = Some k'" "fp \<noteq> rt_fingerprint t"
      by (auto simp: hm.get_remove split: if_splits)
    with D(7) [of fp k'] t show ?case by (auto simp: hm.get_remove)
  next
    case (8 fp so)
    then have "hm_get (ri_overrides i) fp = Some so" "fp \<noteq> rt_fingerprint t"
      by (auto simp: hm.get_remove split: if_splits)
    with D(8) [of fp so] t show ?case by (auto simp: hm.get_remove dest: override_backed_fp)
  qed (use D order in \<open>auto simp: hm.get_remove hm.wf_remove split: if_splits\<close>)
qed

lemma drop_ticket_simps [simp]:
  "ri_capacity (drop_ticket k i) = ri_capacity i" "ri_order (drop_ticket k i) = ri_order i"
  by (auto simp: drop_ticket_def split: option.splits)

lemma trim_to_capacity_core:
  "review_core i \<Longrightarrow> review_core (trim_to_capacity i) \<and>
     length (ri_order (trim_to_capacity i)) \<le> ri_capacity i \<and>
     ri_capacity (trim_to_capacity i) = ri_capacity i"
proof (induction i rule: trim_to_capacity.induct)
  case (1 i)
  show ?case
  proof (cases "length (ri_order i) > ri_capacity i")
    case True
    then obtain k ks where ks: "ri_order i = k # ks" by (cases "ri_order i") auto
    from 1 True ks review_core_drop [OF "1.prems" ks] show ?thesis
      by (subst (1 2 3) trim_to_capacity.simps) simp
  next
    case False
    with 1 show ?thesis by (subst (1 2 3) trim_to_capacity.simps) simp
  qed
qed

text \<open>The store keeps the most recent tickets.\<close>

lemma trim_to_capacity_order: "ri_order (trim_to_capacity i) = last_n (ri_capacity i) (ri_order i)"
proof (induction i rule: trim_to_capacity.induct)
  case (1 i)
  show ?case
  proof (cases "length (ri_order i) > ri_capacity i")
    case True
    then obtain k ks where ks: "ri_order i = k # ks" by (cases "ri_order i") auto
    with True have "last_n (ri_capacity i) ks = last_n (ri_capacity i) (k # ks)"
      by (simp add: last_n_def Suc_diff_le)
    with 1 True ks show ?thesis by (subst trim_to_capacity.simps) simp
  next
    case False
    then show ?thesis by (subst trim_to_capacity.simps) (simp add: last_n_all)
  qed
qed

lemma review_core_insert:
  assumes core: "review_core i" and fresh: "hm_get (ri_tickets i) (rt_id t) = None"
  shows "review_core (insert_ticket t i)"
proof -
  note D = review_coreD [OF core]
  show ?thesis unfolding insert_ticket_def
  proof (rule review_coreI, goal_cases)
    case (8 fp so)
    with D(8) [of fp so] fresh show ?case by (auto simp: hm.get_insert)
  next
    case (7 fp k)
    with D(7) [of fp k] fresh show ?case by (auto simp: hm.get_insert split: if_splits)
  next
    case (5 k)
    with D(5) [of k] show ?case by (auto simp: hm.get_insert)
  qed (use D fresh in \<open>auto simp: hm.get_insert hm.wf_insert split: if_splits\<close>)
qed

lemma resolve_ticket_simps [simp]:
  "rt_id (resolve_ticket status by_whom note at expires t) = rt_id t"
  "rt_fingerprint (resolve_ticket status by_whom note at expires t) = rt_fingerprint t"
  "rt_status (resolve_ticket status by_whom note at expires t) = status"
  "rt_post_approval_action (resolve_ticket status by_whom note at expires t) = rt_post_approval_action t"
  by (simp_all add: resolve_ticket_def)

lemma override_backed_not_pending: "override_backed fp so t \<Longrightarrow> rt_status t \<noteq> RPending"
  by (auto simp: override_backed_def split: review_decision_override.splits)

lemma override_decision_backed:
  "override_decision status (resolve_ticket status by_whom note at expires t) by_whom = Some d \<Longrightarrow>
     ov_ticket_id d = rt_id t \<and>
     override_backed (rt_fingerprint t) \<lparr>so_decision = d, so_expires_at = expires\<rparr>
       (resolve_ticket status by_whom note at expires t)"
  by (cases status) (auto simp: override_backed_def resolve_ticket_def)

text \<open>The change of a pending ticket, before and after its event is on file.\<close>

lemma review_core_update:
  assumes core: "review_core i" and t: "hm_get (ri_tickets i) k = Some t"
    and pending: "rt_status t = RPending" and same: "rt_id t' = rt_id t" "rt_fingerprint t' = rt_fingerprint t"
  shows "review_core (i\<lparr>ri_tickets := hm_insert k t' (ri_tickets i)\<rparr>)"
proof -
  note D = review_coreD [OF core]
  show ?thesis
  proof (rule review_coreI, goal_cases)
    case (8 fp so)
    with D(8) [of fp so] t pending show ?case
      by (auto simp: hm.get_insert dest: override_backed_not_pending)
  next
    case (7 fp k')
    with D(7) [of fp k'] t same show ?case by (auto simp: hm.get_insert)
  next
    case (5 k')
    with D(5) [of k'] t show ?case by (auto simp: hm.get_insert)
  qed (use D t same in \<open>auto simp: hm.get_insert hm.wf_insert split: if_splits\<close>)
qed

lemma review_core_unpend:
  assumes core: "review_core i"
  shows "review_core (i\<lparr>ri_pending := hm_remove fp (ri_pending i)\<rparr>)"
  using review_coreD [OF core]
  by (intro review_coreI) (auto simp: hm.get_remove hm.wf_remove split: if_splits)

lemma review_core_override:
  assumes core: "review_core i" and t: "hm_get (ri_tickets i) (rt_id t) = Some t"
    and backed: "\<And>d'. d = Some d' \<Longrightarrow> ov_ticket_id d' = rt_id t \<and>
      override_backed fp \<lparr>so_decision = d', so_expires_at = expires\<rparr> t"
  shows "review_core (insert_override fp d expires i)"
proof (cases d)
  case (Some d')
  note D = review_coreD [OF core]
  show ?thesis unfolding insert_override_def Some option.case
  proof (rule review_coreI, goal_cases)
    case (8 fp' so)
    with D(8) [of fp' so] t backed [OF Some] show ?case by (auto simp: hm.get_insert split: if_splits)
  qed (use D in \<open>auto simp: hm.wf_insert\<close>)
qed (use core in \<open>simp add: insert_override_def\<close>)

section \<open>The operations keep the invariant\<close>

lemma review_inv_prune: "review_inv s \<Longrightarrow> review_inv (s\<lparr>rv_inner := prune_expired_overrides now (rv_inner s)\<rparr>)"
  by (simp add: review_inv_def review_core_prune)

lemma review_inv_trim:
  "review_core i \<Longrightarrow> 0 < ri_capacity i \<Longrightarrow> review_inv \<lparr>rv_inner = trim_to_capacity i, rv_file = ls\<rparr>"
  using trim_to_capacity_core [of i] by (simp add: review_inv_def)

lemma upsert_pending_inv:
  assumes "review_inv s" and "hm_get (ri_tickets (rv_inner s)) fresh = None"
  shows "review_inv (snd (upsert_pending E io now fresh n s))"
proof -
  let ?i = "prune_expired_overrides now (rv_inner s)"
  have "review_core (insert_ticket (ticket_of_new now fresh n) ?i)"
    using assms by (intro review_core_insert review_core_prune) (simp_all add: review_inv_def ticket_of_new_def)
  then have "review_inv \<lparr>rv_inner = trim_to_capacity (insert_ticket (ticket_of_new now fresh n) ?i), rv_file = ls\<rparr>"
    for ls using assms(1) by (intro review_inv_trim) (simp_all add: review_inv_def insert_ticket_def)
  with review_inv_prune [OF assms(1)] show ?thesis
    by (auto simp: upsert_pending_def Let_def split: option.splits sum.splits)
qed

lemma insert_override_simps [simp]:
  "ri_capacity (insert_override fp d e i) = ri_capacity i"
  "ri_order (insert_override fp d e i) = ri_order i"
  by (simp_all add: insert_override_def split: option.splits)

lemma review_core_resolved:
  assumes core: "review_core i" and t: "hm_get (ri_tickets i) k = Some t" and p: "rt_status t = RPending"
    and t'_def: "t' = resolve_ticket status by_whom note at expires t"
  shows "review_core (insert_override (rt_fingerprint t) (override_decision status t' by_whom) expires
      (i\<lparr>ri_tickets := hm_insert k t' (ri_tickets i),
         ri_pending := hm_remove (rt_fingerprint t) (ri_pending i)\<rparr>))"
proof (rule review_core_override [of _ t'])
  have k: "rt_id t = k" using review_coreD(6) [OF core t] .
  have "review_core (i\<lparr>ri_tickets := hm_insert k t' (ri_tickets i)\<rparr>)"
    using core t p by (rule review_core_update) (simp_all add: t'_def)
  from review_core_unpend [OF this, of "rt_fingerprint t"]
  show "review_core (i\<lparr>ri_tickets := hm_insert k t' (ri_tickets i),
      ri_pending := hm_remove (rt_fingerprint t) (ri_pending i)\<rparr>)" by simp
  show "hm_get (ri_tickets (i\<lparr>ri_tickets := hm_insert k t' (ri_tickets i),
      ri_pending := hm_remove (rt_fingerprint t) (ri_pending i)\<rparr>)) (rt_id t') = Some t'"
    using k by (simp add: t'_def hm.get_insert)
qed (use override_decision_backed in \<open>fastforce simp: t'_def\<close>)

lemma review_resolve_inv:
  assumes "review_inv s"
  shows "review_inv (snd (review_resolve E add_secs io now k status by_whom note ttl s))"
proof -
  let ?i = "prune_expired_overrides now (rv_inner s)"
  have core: "review_core ?i" using assms by (simp add: review_inv_def review_core_prune)
  have *: "review_core (?i\<lparr>ri_tickets := hm_insert k (resolve_ticket status by_whom note now e t) (ri_tickets ?i)\<rparr>)"
    if "hm_get (ri_tickets ?i) k = Some t" "rt_status t = RPending" for t e
    using core that by (rule review_core_update) simp_all
  show ?thesis
    using assms core review_core_resolved [OF core _ _ refl] * review_core_unpend [OF *]
    by (auto simp: review_resolve_def review_inv_def Let_def split: option.splits sum.splits)
qed

lemma review_set_capacity_inv: "review_inv s \<Longrightarrow> review_inv (review_set_capacity n s)"
proof -
  assume "review_inv s"
  then have "review_core ((rv_inner s)\<lparr>ri_capacity := max n 1\<rparr>)"
    by (auto simp: review_inv_def review_core_def)
  from trim_to_capacity_core [OF this] show ?thesis
    by (simp add: review_inv_def review_set_capacity_def)
qed

text \<open>The steps of the store; a new ticket has an identifier that is not in use.\<close>

inductive review_step :: "event_api \<Rightarrow> (int \<Rightarrow> int \<Rightarrow> int option) \<Rightarrow> review_store \<Rightarrow> review_store \<Rightarrow> bool"
  for E :: event_api and add_secs :: "int \<Rightarrow> int \<Rightarrow> int option" where
  upsert: "hm_get (ri_tickets (rv_inner s)) fresh = None \<Longrightarrow>
    review_step E add_secs s (snd (upsert_pending E io now fresh n s))"
| resolve: "review_step E add_secs s (snd (review_resolve E add_secs io now k status by_whom note ttl s))"
| lookup: "review_step E add_secs s (snd (lookup_override now fp s))"
| get: "review_step E add_secs s (snd (review_get now k s))"
| listing: "review_step E add_secs s (snd (review_list now f limit s))"
| count: "review_step E add_secs s (snd (pending_count now s))"
| resize: "review_step E add_secs s (review_set_capacity n s)"

text \<open>
  The event files a store starts from: a ticket is created once, and pending, and it is resolved while it is
  pending. Lines that are no events, and resolutions of unknown tickets, may be anywhere.
\<close>

fun event_fits :: "review_event \<Rightarrow> review_inner \<Rightarrow> bool" where
  "event_fits (Created ticket) i \<longleftrightarrow> hm_get (ri_tickets i) (pt_id ticket) = None \<and> pt_status ticket = RPending"
| "event_fits (Resolved ticket_id _ _ _ _ _) i \<longleftrightarrow>
     (case hm_get (ri_tickets i) ticket_id of Some t \<Rightarrow> rt_status t = RPending | None \<Rightarrow> True)"

fun events_fit :: "review_event list \<Rightarrow> review_inner \<Rightarrow> bool" where
  "events_fit [] i \<longleftrightarrow> True"
| "events_fit (e # es) i \<longleftrightarrow> event_fits e i \<and> events_fit es (apply_review_event e i)"

definition review_file_fits :: "event_api \<Rightarrow> string list \<Rightarrow> bool" where
  "review_file_fits E lines \<longleftrightarrow> events_fit (List.map_filter (ev_parse E) lines) review_inner_default"

definition review_start :: "review_store \<Rightarrow> bool" where
  "review_start s \<longleftrightarrow> (\<exists>E now n readable lines. review_store_new E now n None readable lines = Inr s \<and>
     (readable \<longrightarrow> review_file_fits E lines))"

lemma review_file_fits_Nil [simp]: "review_file_fits E []"
  by (simp add: review_file_fits_def List.map_filter_def)

lemma apply_event_core:
  assumes "event_fits e i" and "review_core i"
  shows "review_core (apply_review_event e i)"
proof (cases e)
  case (Created ticket)
  with assms(1) have "apply_review_event e i = insert_ticket (into_ticket ticket) i"
    by (simp add: insert_ticket_def into_ticket_def Let_def)
  then show ?thesis using assms Created by (simp add: review_core_insert into_ticket_def)
next
  case (Resolved k status by_whom remark resolved expires)
  with assms review_core_resolved [OF assms(2) _ _ refl] show ?thesis
    by (auto simp: Let_def split: option.splits)
qed

lemma events_fit_core: "events_fit es i \<Longrightarrow> review_core i \<Longrightarrow> review_core (fold apply_review_event es i)"
  by (induction es arbitrary: i) (simp_all add: apply_event_core)

lemma apply_event_capacity:
  "apply_review_event e (i\<lparr>ri_capacity := n\<rparr>) = (apply_review_event e i)\<lparr>ri_capacity := n\<rparr>"
  by (cases e) (auto simp: Let_def insert_override_def split: option.split)

lemma events_fit_capacity: "events_fit es (i\<lparr>ri_capacity := n\<rparr>) = events_fit es i"
proof (induction es arbitrary: i)
  case (Cons e es)
  have "event_fits e (i\<lparr>ri_capacity := n\<rparr>) = event_fits e i" by (cases e) simp_all
  with Cons show ?case by (simp add: apply_event_capacity)
qed simp

lemma fold_apply_capacity: "ri_capacity (fold apply_review_event es i) = ri_capacity i"
proof (induction es arbitrary: i)
  case (Cons e es)
  have "ri_capacity (apply_review_event e i) = ri_capacity i"
    by (cases e) (auto simp: Let_def split: option.splits)
  with Cons show ?case by simp
qed simp

lemma review_start_inv:
  assumes "review_start s"
  shows "review_inv s"
proof -
  from assms obtain E now n readable lines where s: "review_store_new E now n None readable lines = Inr s"
    and fits: "readable \<Longrightarrow> review_file_fits E lines" by (auto simp: review_start_def)
  let ?i = "review_inner_default\<lparr>ri_capacity := max n 1\<rparr>"
  have "review_core ?i" by (rule review_coreI) (simp_all add: review_inner_default_def)
  moreover have "events_fit (List.map_filter (ev_parse E) lines) ?i" if readable
    using fits [OF that] by (simp only: review_file_fits_def events_fit_capacity)
  ultimately have "review_core (load_existing E now (if readable then Some lines else None) ?i)"
    using events_fit_core by (simp add: load_existing_def review_core_prune)
  with s show ?thesis
    by (auto simp: review_store_new_def load_existing_def fold_apply_capacity intro!: review_inv_trim)
qed

interpretation review: transition_system review_start "review_step E add_secs" review_inv
  for E add_secs
proof (unfold_locales, goal_cases)
  case (1 s)
  then show ?case by (rule review_start_inv)
next
  case (2 s t)
  from 2(2,1) show ?case
    by (cases rule: review_step.cases)
      (auto simp: upsert_pending_inv review_resolve_inv review_set_capacity_inv review_inv_prune
        lookup_override_def review_get_def review_list_def pending_count_def Let_def)
qed

section \<open>What an override stands for\<close>

lemma lookup_override_backed:
  assumes "review_inv s" and "fst (lookup_override now fp s) = Some d"
  shows "\<exists>t e r. hm_get (ri_tickets (rv_inner s)) (ov_ticket_id d) = Some t \<and> rt_fingerprint t = fp \<and>
    rt_resolution t = Some r \<and> rn_expires_at r = Some e \<and> now < e \<and> rn_resolved_by r = ov_resolved_by d \<and>
    (case d of OvApproved _ a _ \<Rightarrow> rt_status t = RApproved \<and> a = rt_post_approval_action t
             | OvRejected _ _ \<Rightarrow> rt_status t = RRejected)"
proof -
  have core: "review_core (rv_inner s)" using assms(1) by (simp add: review_inv_def)
  from assms(2) obtain so where so: "hm_get (ri_overrides (rv_inner s)) fp = Some so"
    "now < so_expires_at so" "so_decision so = d"
    by (auto simp: lookup_override_def Let_def prune_overrides review_coreD(3) [OF core])
  with review_coreD(8) [OF core so(1)] show ?thesis
    by (cases d) (auto simp: override_backed_def)
qed

text \<open>A resolution takes effect until it expires.\<close>

lemma review_resolve_OkE:
  assumes "review_resolve E add_secs io now k status by_whom note ttl s = (Ok t', s')"
  obtains t expires line where "hm_get (ri_tickets (rv_inner s)) k = Some t" and "rt_status t = RPending"
    and "add_secs now (as_i64 ttl) = Some expires" and "status \<noteq> RPending"
    and "t' = resolve_ticket status by_whom note now expires t"
    and "ev_print E (Resolved k status by_whom note now expires) = Inr line"
    and "rv_file s' = rv_file s @ [line]"
    and "rv_inner s' = insert_override (rt_fingerprint t) (override_decision status t' by_whom) expires
      ((prune_expired_overrides now (rv_inner s))\<lparr>ri_tickets := hm_insert k t' (ri_tickets (rv_inner s)),
        ri_pending := hm_remove (rt_fingerprint t) (ri_pending (rv_inner s))\<rparr>)"
  using assms
  by (auto simp: review_resolve_def append_review_event_def Let_def
      split: option.split_asm sum.split_asm if_split_asm)

lemma resolve_then_lookup:
  assumes "review_inv s"
    and "review_resolve E add_secs io now k RApproved by_whom note ttl s = (Ok t', s')"
    and "add_secs now (as_i64 ttl) = Some expires"
  shows "fst (lookup_override later (rt_fingerprint t') s') =
    (if later < expires then Some (OvApproved k (rt_post_approval_action t') by_whom) else None)"
proof -
  have core: "review_core (rv_inner s)" using assms(1) by (simp add: review_inv_def)
  have "review_inv s'" using review_resolve_inv [OF assms(1)] assms(2) by (metis snd_conv)
  then have wf: "hm_wf (ri_overrides (rv_inner s'))"
    by (simp add: review_inv_def review_coreD(3))
  from assms(2) obtain t line where t: "hm_get (ri_tickets (rv_inner s)) k = Some t"
    "t' = resolve_ticket RApproved by_whom note now expires t"
    "rv_inner s' = insert_override (rt_fingerprint t) (override_decision RApproved t' by_whom) expires
      ((prune_expired_overrides now (rv_inner s))\<lparr>ri_tickets := hm_insert k t' (ri_tickets (rv_inner s)),
        ri_pending := hm_remove (rt_fingerprint t) (ri_pending (rv_inner s))\<rparr>)"
    using assms(3) by (elim review_resolve_OkE) auto
  have "rt_id t = k" using review_coreD(6) [OF core t(1)] .
  with t(2,3) have "hm_get (ri_overrides (rv_inner s')) (rt_fingerprint t') =
      Some \<lparr>so_decision = OvApproved k (rt_post_approval_action t') by_whom, so_expires_at = expires\<rparr>"
    by (simp add: insert_override_def hm.get_insert)
  then show ?thesis
    by (simp add: lookup_override_def Let_def prune_expired_overrides_def hm.get_retain [OF wf])
qed

text \<open>When the event cannot be written, the caller is told the ticket does not exist, yet it has changed.\<close>

lemma resolve_append_failure:
  assumes "hm_get (ri_tickets (rv_inner s)) k = Some t" and "rt_status t = RPending"
    and "add_secs now (as_i64 ttl) = Some expires"
    and "ev_print E (Resolved k status by_whom note now expires) = Inr line"
  shows "fst (review_resolve E add_secs (Some err) now k status by_whom note ttl s) = Err NotFound"
    and "hm_get (ri_tickets (rv_inner (snd (review_resolve E add_secs (Some err) now k status by_whom note ttl s)))) k =
      Some (resolve_ticket status by_whom note now expires t)"
    and "rv_file (snd (review_resolve E add_secs (Some err) now k status by_whom note ttl s)) = rv_file s"
  using assms by (auto simp: review_resolve_def append_review_event_def Let_def hm.get_insert)

section \<open>Replaying the file\<close>

text \<open>
  Two states agree at a time when they have the same tickets, order and pending index, and the
  same overrides among those that have not expired: all that an operation at that time can see.
\<close>

definition same_view :: "int \<Rightarrow> review_inner \<Rightarrow> review_inner \<Rightarrow> bool" where
  "same_view now a b \<longleftrightarrow> ri_order a = ri_order b \<and> ri_tickets a = ri_tickets b \<and> ri_pending a = ri_pending b \<and>
     (\<forall>fp so. now < so_expires_at so \<longrightarrow>
        (hm_get (ri_overrides a) fp = Some so \<longleftrightarrow> hm_get (ri_overrides b) fp = Some so))"

definition replay :: "event_api \<Rightarrow> review_store \<Rightarrow> review_inner" where
  "replay E s = fold apply_review_event (List.map_filter (ev_parse E) (rv_file s))
     (review_inner_default\<lparr>ri_capacity := ri_capacity (rv_inner s)\<rparr>)"

definition replay_inv :: "event_api \<Rightarrow> int \<Rightarrow> review_store \<Rightarrow> bool" where
  "replay_inv E now s \<longleftrightarrow> hm_wf (ri_overrides (rv_inner s)) \<and> same_view now (replay E s) (rv_inner s)"

lemma same_view_mono: "same_view now a b \<Longrightarrow> now \<le> later \<Longrightarrow> same_view later a b"
  unfolding same_view_def by (meson le_less_trans)

lemma same_view_prune:
  "same_view now a b \<Longrightarrow> hm_wf (ri_overrides b) \<Longrightarrow> same_view now a (prune_expired_overrides now b)"
  by (simp add: same_view_def prune_overrides)

lemma replay_inv_prune:
  assumes "replay_inv E now s" and "now \<le> later"
  shows "replay_inv E later (s\<lparr>rv_inner := prune_expired_overrides later (rv_inner s)\<rparr>)"
  using assms same_view_prune [OF same_view_mono, of now "replay E s" "rv_inner s" later]
  by (simp add: replay_inv_def replay_def)

lemma map_filter_snoc:
  "f x = Some y \<Longrightarrow> List.map_filter f (xs @ [x]) = List.map_filter f xs @ [y]"
  by (simp add: map_filter_def)

lemma replay_snoc:
  assumes "ev_parse E line = Some e" and "rv_file s' = rv_file s @ [line]"
    and "ri_capacity (rv_inner s') = ri_capacity (rv_inner s)"
  shows "replay E s' = apply_review_event e (replay E s)"
  using assms by (simp add: replay_def map_filter_snoc)

lemma upsert_pending_replay:
  assumes E: "event_sound E" and inv: "replay_inv E now0 s" and le: "now0 \<le> now"
    and room: "length (ri_order (rv_inner s)) < ri_capacity (rv_inner s)"
  shows "replay_inv E now (snd (upsert_pending E io now fresh n s))"
proof -
  let ?i = "prune_expired_overrides now (rv_inner s)" and ?t = "ticket_of_new now fresh n"
  have p: "replay_inv E now (s\<lparr>rv_inner := ?i\<rparr>)" using inv le by (rule replay_inv_prune)
  obtain line where line: "ev_print E (Created (from_ticket ?t)) = Inr line" "ev_parse E line = Some (Created (from_ticket ?t))"
    using E unfolding event_sound_def by blast
  have trim: "trim_to_capacity (insert_ticket ?t ?i) = insert_ticket ?t ?i"
    using room by (subst trim_to_capacity.simps) (simp add: insert_ticket_def)
  let ?s = "\<lparr>rv_inner = insert_ticket ?t ?i, rv_file = rv_file s @ [line]\<rparr>"
  have "replay E ?s = apply_review_event (Created (from_ticket ?t)) (replay E s)"
    using line(2) by (rule replay_snoc) (simp_all add: insert_ticket_def)
  moreover have "same_view now (replay E s) ?i" using p by (simp add: replay_inv_def replay_def)
  ultimately have "replay_inv E now ?s"
    using p by (simp add: replay_inv_def same_view_def insert_ticket_def ticket_of_new_def Let_def)
  with p trim line(1) show ?thesis
    by (auto simp: upsert_pending_def append_review_event_def Let_def split: option.splits)
qed

lemma review_resolve_replay:
  assumes E: "event_sound E" and inv: "replay_inv E now0 s" and le: "now0 \<le> now"
    and ok: "review_resolve E add_secs io now k status by_whom note ttl s = (Ok t', s')"
  shows "replay_inv E now s'"
proof -
  let ?i = "prune_expired_overrides now (rv_inner s)"
  have p: "replay_inv E now (s\<lparr>rv_inner := ?i\<rparr>)" using inv le by (rule replay_inv_prune)
  from ok obtain t expires line where t: "hm_get (ri_tickets (rv_inner s)) k = Some t"
    and t': "t' = resolve_ticket status by_whom note now expires t" and st: "status \<noteq> RPending"
    and line: "ev_print E (Resolved k status by_whom note now expires) = Inr line"
    and fl: "rv_file s' = rv_file s @ [line]"
    and inner: "rv_inner s' = insert_override (rt_fingerprint t) (override_decision status t' by_whom) expires
      (?i\<lparr>ri_tickets := hm_insert k t' (ri_tickets (rv_inner s)),
        ri_pending := hm_remove (rt_fingerprint t) (ri_pending (rv_inner s))\<rparr>)"
    by (rule review_resolve_OkE)
  have parse: "ev_parse E line = Some (Resolved k status by_whom note now expires)"
    using E line unfolding event_sound_def by (metis sum.inject(2))
  have "replay E s' = apply_review_event (Resolved k status by_whom note now expires) (replay E s)"
    using parse fl by (rule replay_snoc) (simp add: inner)
  moreover have view: "same_view now (replay E s) ?i" using p by (simp add: replay_inv_def replay_def)
  moreover have "hm_get (ri_tickets (replay E s)) k = Some t"
    using view t by (simp add: same_view_def)
  moreover obtain d where "override_decision status t' by_whom = Some d"
    using st by (cases status) auto
  ultimately show ?thesis
    using p t' by (auto simp: replay_inv_def same_view_def inner insert_override_def Let_def
        hm.get_insert hm.wf_insert)
qed

lemma review_resolve_other:
  assumes "event_sound E" and "status \<noteq> RPending"
    and "\<nexists>t'. fst (review_resolve E add_secs None now k status by_whom note ttl s) = Ok t'"
  shows "snd (review_resolve E add_secs None now k status by_whom note ttl s) =
    s\<lparr>rv_inner := prune_expired_overrides now (rv_inner s)\<rparr>"
proof -
  have "\<exists>l. ev_print E e = Inr l" for e using assms(1) unfolding event_sound_def by blast
  then have "append_review_event E None e ls \<noteq> Inl x" for e ls x
    by (auto simp: append_review_event_def split: sum.splits) (metis sum.distinct(1))
  with assms(2,3) show ?thesis
    by (auto simp: review_resolve_def Let_def split: option.splits sum.splits)
qed

lemma review_resolve_replay_all:
  assumes "event_sound E" and "replay_inv E now0 s" and "now0 \<le> now" and "status \<noteq> RPending"
  shows "replay_inv E now (snd (review_resolve E add_secs None now k status by_whom note ttl s))"
proof (cases "\<exists>t'. fst (review_resolve E add_secs None now k status by_whom note ttl s) = Ok t'")
  case True
  then show ?thesis
    using review_resolve_replay [OF assms(1-3)] by (metis prod.collapse)
next
  case False
  with review_resolve_other [OF assms(1,4)] show ?thesis
    using replay_inv_prune [OF assms(2,3)] by simp
qed

text \<open>
  A run of the store with its clock, whose appends succeed and whose capacity is not exceeded.
\<close>

inductive review_tick ::
  "event_api \<Rightarrow> (int \<Rightarrow> int \<Rightarrow> int option) \<Rightarrow> int \<times> review_store \<Rightarrow> int \<times> review_store \<Rightarrow> bool"
  for E :: event_api and add_secs :: "int \<Rightarrow> int \<Rightarrow> int option" where
  tick_upsert: "now0 \<le> now \<Longrightarrow> length (ri_order (rv_inner s)) < ri_capacity (rv_inner s) \<Longrightarrow>
    review_tick E add_secs (now0, s) (now, snd (upsert_pending E None now fresh n s))"
| tick_resolve: "now0 \<le> now \<Longrightarrow> status \<noteq> RPending \<Longrightarrow>
    review_tick E add_secs (now0, s) (now, snd (review_resolve E add_secs None now k status by_whom note ttl s))"
| tick_read: "now0 \<le> now \<Longrightarrow>
    review_tick E add_secs (now0, s) (now, s\<lparr>rv_inner := prune_expired_overrides now (rv_inner s)\<rparr>)"

text \<open>The start is a store built from an event file whose tickets fit into it, so also a restarted store.\<close>

definition tick_start :: "event_api \<Rightarrow> int \<times> review_store \<Rightarrow> bool" where
  "tick_start E = (\<lambda>(now, s). \<exists>n lines. review_store_new E now n None True lines = Inr s \<and>
     length (ri_order (replay E s)) \<le> ri_capacity (rv_inner s))"

lemma apply_event_wf:
  "hm_wf (ri_overrides i) \<Longrightarrow> hm_wf (ri_overrides (apply_review_event e i))"
  by (cases e) (auto simp: Let_def insert_override_def hm.wf_insert split: option.splits)

lemma replay_wf: "hm_wf (ri_overrides (replay E s))"
proof -
  have "hm_wf (ri_overrides i) \<Longrightarrow> hm_wf (ri_overrides (fold apply_review_event es i))" for es i
    by (induction es arbitrary: i) (simp_all add: apply_event_wf)
  then show ?thesis unfolding replay_def by (simp add: review_inner_default_def)
qed

lemma trim_to_capacity_id: "length (ri_order i) \<le> ri_capacity i \<Longrightarrow> trim_to_capacity i = i"
  by (subst trim_to_capacity.simps) simp

lemma trim_to_capacity_capacity [simp]: "ri_capacity (trim_to_capacity i) = ri_capacity i"
proof (induction i rule: trim_to_capacity.induct)
  case (1 i)
  then show ?case by (subst trim_to_capacity.simps) simp
qed

lemma tick_start_load:
  assumes "tick_start E (now, s)"
  shows "rv_inner s = prune_expired_overrides now (replay E s)"
proof -
  from assms obtain n lines where s: "review_store_new E now n None True lines = Inr s"
    and room: "length (ri_order (replay E s)) \<le> ri_capacity (rv_inner s)" by (auto simp: tick_start_def)
  let ?i = "load_existing E now (Some lines) (review_inner_default\<lparr>ri_capacity := max n 1\<rparr>)"
  from s have inner: "rv_inner s = trim_to_capacity ?i" and fl: "rv_file s = lines" by (auto simp: review_store_new_def)
  then have cap: "ri_capacity (rv_inner s) = max n 1" by (simp add: load_existing_def fold_apply_capacity)
  then have i: "?i = prune_expired_overrides now (replay E s)" by (simp add: load_existing_def replay_def fl)
  have "ri_capacity ?i = max n 1" by (simp add: load_existing_def fold_apply_capacity)
  with room cap have "trim_to_capacity ?i = ?i" by (intro trim_to_capacity_id) (simp only: i prune_simps)
  with inner i show ?thesis by simp
qed

lemma tick_start_replay:
  assumes "tick_start E (now, s)"
  shows "replay_inv E now s"
  using tick_start_load [OF assms] same_view_prune [of now "replay E s" "replay E s"] replay_wf [of E s]
  by (simp add: replay_inv_def same_view_def)

lemma tick_system:
  assumes "event_sound E"
  shows "transition_system (tick_start E) (review_tick E add_secs) (\<lambda>(now, s). replay_inv E now s)"
proof (unfold_locales, goal_cases)
  case (1 s)
  then show ?case by (auto intro: tick_start_replay)
next
  case (2 s t)
  from 2(2,1) assms show ?case
    by (cases rule: review_tick.cases)
      (auto intro: upsert_pending_replay review_resolve_replay_all replay_inv_prune)
qed

lemma same_view_load:
  assumes "replay_inv E now s" and "hm_wf (ri_overrides (replay E s))"
  shows "same_view now (load_existing E now (Some (rv_file s))
      (review_inner_default\<lparr>ri_capacity := ri_capacity (rv_inner s)\<rparr>)) (rv_inner s)"
  using assms
  by (simp add: load_existing_def replay_inv_def same_view_def prune_overrides flip: replay_def)

end
