(* ===== verification/Gw_Pipeline.thy ===== *)
theory Gw_Pipeline
  imports Gw_Attach Gw_Review
begin

text \<open>
  The payload pipeline of \<open>src/proxy.rs\<close>: \<open>process_text\<close>, \<open>sanitize_json_value\<close>,
  \<open>process_payload\<close>, the OPA step and the response policy with its fallbacks, and the
  transformation of one SSE line; with the runtime state and the errors of \<open>src/app.rs\<close>. Random
  UUIDs come from \<open>rng\<close>, which is given the path of call indices that leads to the draw. Latency
  timers are left out.
\<close>

section \<open>Runtime state and errors\<close>

datatype app_error =
    ConfigErr config_error
  | AuthErr auth_error
  | DetectorErr detector_error
  | OpaErr opa_error
  | PresidioErr presidio_error
  | TokenizationErr tokenization_error
  | ReviewStoreErr review_store_error
  | AttachmentErr attachment_error
  | InvalidUpstreamUrl string
  | BuildClientErr string
  | MetricsErr string
  | AuditInitErr string
  | RuntimeIo string
  | BindErr string
  | ServeErr string
  | ProxyConfigMissing
  | ProxyListenAddr string
  | CaErr string
  | ProxyErr string

record runtime_state =
  run_config :: app_config
  run_upstream_base_url :: string
  run_auth :: authenticator
  run_detector :: detector
  run_presidio :: "presidio_analyzer option"
  run_opa :: "opa_authorizer option"
  run_tokenizer :: "tokenizer option"
  run_attachments :: attachment_engine

record processed_payload =
  pp_sanitized_body :: string
  pp_policy :: policy_outcome

record gw_api =
  ga_scan :: scan_api
  ga_http :: http_api
  ga_presidio :: presidio_service
  ga_opa :: opa_service
  ga_docs :: doc_api
  ga_opa_error_text :: "opa_error \<Rightarrow> string"

definition allow_outcome :: policy_outcome where
  "allow_outcome = \<lparr>po_decision = Allow, po_findings = [], po_source = ''builtin'', po_reason = None\<rparr>"

section \<open>Text and JSON\<close>

definition process_findings ::
  "gw_api \<Rightarrow> runtime_state \<Rightarrow> string \<Rightarrow> string \<Rightarrow> (app_error, detection_finding list) rres" where
  "process_findings G rt src pointer =
     (let findings = scan_text (sc_regex (ga_scan G)) (sc_hash (ga_scan G)) (run_detector rt) src pointer in
      case run_presidio rt of
        None \<Rightarrow> Ok findings
      | Some p \<Rightarrow> rmap (append findings)
          (rmap_err PresidioErr (presidio_analyze (ga_presidio G) (sc_hash (ga_scan G)) p src pointer)))"

definition process_text ::
  "gw_api \<Rightarrow> runtime_state \<Rightarrow> (nat \<Rightarrow> string) \<Rightarrow> principal \<Rightarrow> string \<Rightarrow> string \<Rightarrow> direction \<Rightarrow>
     (app_error, string \<times> policy_outcome) rres" where
  "process_text G rt rng who src pointer dir =
     rbind (process_findings G rt src pointer) (\<lambda>findings.
       let policy = policy_resolve who findings dir in
       rmap (\<lambda>redacted. (redacted, policy))
         (rmap_err TokenizationErr
           (redact_text (sc_crypto (ga_scan G)) (sc_unicode (ga_scan G)) (sc_hash (ga_scan G))
             (run_tokenizer rt) rng src (po_findings policy))))"

text \<open>\<open>sanitize_json_value\<close>: the loop over the string nodes collected before it starts.\<close>

fun sanitize_nodes ::
  "gw_api \<Rightarrow> runtime_state \<Rightarrow> uuid_source \<Rightarrow> principal \<Rightarrow> direction \<Rightarrow> nat \<Rightarrow> (string \<times> string) list \<Rightarrow>
     json \<Rightarrow> resolved_finding list \<Rightarrow> (app_error, json \<times> resolved_finding list) rres" where
  "sanitize_nodes G rt rng who dir k [] value collected = Ok (value, collected)"
| "sanitize_nodes G rt rng who dir k ((pointer, original) # nodes) value collected =
     (if should_ignore_pointer (run_detector rt) pointer
      then sanitize_nodes G rt rng who dir (Suc k) nodes value collected
      else rbind (process_text G rt (\<lambda>j. rng [k, j]) who original pointer dir) (\<lambda>(redacted, policy).
        sanitize_nodes G rt rng who dir (Suc k) nodes
          (case js_pointer_set (sc_json (ga_scan G)) value pointer redacted of
             Some value' \<Rightarrow> value' | None \<Rightarrow> value)
          (collected @ po_findings policy)))"

definition sanitize_json_value ::
  "gw_api \<Rightarrow> runtime_state \<Rightarrow> uuid_source \<Rightarrow> principal \<Rightarrow> json \<Rightarrow> direction \<Rightarrow>
     (app_error, json \<times> policy_outcome) rres" where
  "sanitize_json_value G rt rng who value dir =
     rmap (\<lambda>(value', collected).
         (value', \<lparr>po_decision = fold (\<lambda>f d. combine d (rs_action f)) collected Allow,
                   po_findings = collected, po_source = ''builtin'', po_reason = None\<rparr>))
       (sanitize_nodes G rt rng who dir 0 (collect_string_nodes value []) value [])"

section \<open>Payloads\<close>

definition is_json :: "string option \<Rightarrow> bool" where
  "is_json content_type \<longleftrightarrow>
     (case content_type of
        Some v \<Rightarrow> contains_str v ''application/json'' \<or> contains_str v ''+json'' | None \<Rightarrow> False)"

definition is_sse :: "string option \<Rightarrow> bool" where
  "is_sse content_type \<longleftrightarrow>
     (case content_type of
        Some v \<Rightarrow> starts_with (to_ascii_lowercase v) ''text/event-stream'' | None \<Rightarrow> False)"

definition payload_passthrough :: "string \<Rightarrow> processed_payload" where
  "payload_passthrough body = \<lparr>pp_sanitized_body = body, pp_policy = allow_outcome\<rparr>"

definition process_text_payload ::
  "gw_api \<Rightarrow> runtime_state \<Rightarrow> uuid_source \<Rightarrow> principal \<Rightarrow> string \<Rightarrow> direction \<Rightarrow>
     (app_error, processed_payload) rres" where
  "process_text_payload G rt rng who body dir =
     (if utf8_valid body
      then rmap (\<lambda>(redacted, policy). \<lparr>pp_sanitized_body = redacted, pp_policy = policy\<rparr>)
        (process_text G rt (\<lambda>j. rng [j]) who body ''/'' dir)
      else Ok (payload_passthrough body))"

definition process_plain_payload ::
  "gw_api \<Rightarrow> runtime_state \<Rightarrow> uuid_source \<Rightarrow> principal \<Rightarrow> string \<Rightarrow> string option \<Rightarrow> direction \<Rightarrow>
     (app_error, processed_payload) rres" where
  "process_plain_payload G rt rng who body content_type dir =
     (case (if is_json content_type then js_parse (sc_json (ga_scan G)) body else None) of
        Some value \<Rightarrow>
          rmap (\<lambda>(value', policy).
              \<lparr>pp_sanitized_body =
                 (case js_print (sc_json (ga_scan G)) value' of Some b \<Rightarrow> b | None \<Rightarrow> body),
               pp_policy = policy\<rparr>)
            (sanitize_json_value G rt rng who value dir)
      | None \<Rightarrow> process_text_payload G rt rng who body dir)"

definition attachment_deps :: "gw_api \<Rightarrow> runtime_state \<Rightarrow> attach_deps" where
  "attachment_deps G rt =
     \<lparr>dp_scan = ga_scan G, dp_presidio_service = ga_presidio G, dp_docs = ga_docs G,
      dp_detector = run_detector rt, dp_presidio = run_presidio rt, dp_tokenizer = run_tokenizer rt\<rparr>"

definition process_payload ::
  "gw_api \<Rightarrow> runtime_state \<Rightarrow> uuid_source \<Rightarrow> principal \<Rightarrow> string \<Rightarrow> string option \<Rightarrow> direction \<Rightarrow>
     (app_error, processed_payload) rres" where
  "process_payload G rt rng who body content_type dir =
     rbind (if dir = Request \<and> is_multipart_form content_type
            then rmap_err AttachmentErr
              (scan_request (attachment_deps G rt) (run_attachments rt) rng who body content_type)
            else Ok None) (\<lambda>scan.
       case scan of
         Some r \<Rightarrow> Ok \<lparr>pp_sanitized_body = sr_sanitized_body r, pp_policy = sr_policy r\<rparr>
       | None \<Rightarrow> process_plain_payload G rt rng who body content_type dir)"

section \<open>Policy backends and the response\<close>

definition apply_opa_policy ::
  "gw_api \<Rightarrow> runtime_state \<Rightarrow> principal \<Rightarrow> direction \<Rightarrow> string \<Rightarrow> bool \<Rightarrow> policy_outcome \<Rightarrow>
     (app_error, policy_outcome) rres" where
  "apply_opa_policy G rt who dir path session_escalated base =
     (case run_opa rt of
        None \<Rightarrow> Ok base
      | Some opa \<Rightarrow>
          (case opa_evaluate (ga_opa G) opa
                  \<lparr>oi_principal = who, oi_direction = dir, oi_path = path,
                   oi_session_escalated = session_escalated,
                   oi_current_decision = po_decision base, oi_findings = po_findings base\<rparr> of
             Inr (Some d) \<Rightarrow> Ok (opa_merge d base)
           | Inr None \<Rightarrow> Ok base
           | Inl err \<Rightarrow>
               if oa_fail_open opa
               then Ok (base\<lparr>po_source := ''builtin_fail_open'',
                     po_reason := Some (''opa error ignored: '' @ ga_opa_error_text G err)\<rparr>)
               else Err (OpaErr err)))"

text \<open>\<open>unwrap_or_else\<close> on the result of a fallible step; a panic unwinds through it.\<close>

fun unwrap_or_else :: "('e \<Rightarrow> 'a) \<Rightarrow> ('e, 'a) rres \<Rightarrow> 'a option" where
  "unwrap_or_else f (Ok x) = Some x"
| "unwrap_or_else f (Err e) = Some (f e)"
| "unwrap_or_else f Panic = None"

definition finalize_response_policy ::
  "gw_api \<Rightarrow> runtime_state \<Rightarrow> principal \<Rightarrow> string \<Rightarrow> bool \<Rightarrow> policy_outcome \<Rightarrow> policy_outcome option" where
  "finalize_response_policy G rt who path session_escalated base =
     unwrap_or_else (\<lambda>_. \<lparr>po_decision = Redact, po_findings = po_findings base,
         po_source = ''opa_error_fallback'', po_reason = Some ''opa failed during response filtering''\<rparr>)
       (apply_opa_policy G rt who Response path session_escalated base)"

definition normalize_response_decision :: "decision_action \<Rightarrow> decision_action" where
  "normalize_response_decision d = (if d = Allow then Allow else Redact)"

definition should_force_full_response_redaction :: "decision_action \<Rightarrow> decision_action \<Rightarrow> bool" where
  "should_force_full_response_redaction base final \<longleftrightarrow> final \<noteq> Allow \<and> rank final > rank base"

text \<open>The bytes of a JSON object with the one member \<open>error\<close>; \<open>CHR 0x22\<close> is the double quote.\<close>

definition redacted_error_json :: string where
  "redacted_error_json = CHR 0x7B # CHR 0x22 # ''error'' @ CHR 0x22 # CHR 0x3A # CHR 0x22 #
     ''response redacted by gateway'' @ [CHR 0x22, CHR 0x7D]"

definition generic_redacted_sse_payload :: "bool \<Rightarrow> string" where
  "generic_redacted_sse_payload is_json_payload =
     (if is_json_payload then redacted_error_json else ''[REDACTED]'')"

definition generic_redacted_body :: "string option \<Rightarrow> string" where
  "generic_redacted_body content_type =
     (if is_json content_type then redacted_error_json else ''[REDACTED]'')"

definition resolve_buffered_response_body ::
  "string option \<Rightarrow> string \<Rightarrow> string \<Rightarrow> decision_action \<Rightarrow> decision_action \<Rightarrow> string \<times> decision_action" where
  "resolve_buffered_response_body content_type original sanitized base final =
     (if normalize_response_decision final = Allow then (original, Allow)
      else if should_force_full_response_redaction base final
           then (generic_redacted_body content_type, Redact)
           else (sanitized, Redact))"

definition payload_error_fallback :: processed_payload where
  "payload_error_fallback =
     \<lparr>pp_sanitized_body = generic_redacted_body (Some ''application/json''),
      pp_policy = \<lparr>po_decision = Redact, po_findings = [], po_source = ''processing_error_fallback'',
        po_reason = Some ''payload processing failed''\<rparr>\<rparr>"

definition json_error_fallback :: "json \<times> policy_outcome" where
  "json_error_fallback =
     (JObj [(''error'', JStr ''response redacted by gateway'')],
      \<lparr>po_decision = Redact, po_findings = [], po_source = ''json_processing_error_fallback'',
       po_reason = Some ''json payload processing failed''\<rparr>)"

definition text_error_fallback :: "string \<times> policy_outcome" where
  "text_error_fallback =
     (''[REDACTED]'',
      \<lparr>po_decision = Redact, po_findings = [], po_source = ''presidio_error_fallback'',
       po_reason = Some ''presidio analysis failed''\<rparr>)"

definition merge_policy_outcomes :: "policy_outcome \<Rightarrow> policy_outcome \<Rightarrow> policy_outcome" where
  "merge_policy_outcomes current nxt =
     (let next_is_more_relevant =
            (rank (po_decision nxt) > rank (po_decision current) \<or>
             (rank (po_decision nxt) = rank (po_decision current) \<and> po_source current = ''builtin'' \<and>
                po_source nxt \<noteq> ''builtin'') \<or>
             (po_reason current = None \<and> po_reason nxt \<noteq> None))
      in \<lparr>po_decision = combine (po_decision current) (po_decision nxt),
          po_findings = po_findings current @ po_findings nxt,
          po_source = (if next_is_more_relevant then po_source nxt else po_source current),
          po_reason = (if next_is_more_relevant then po_reason nxt else po_reason current)\<rparr>)"

section \<open>Server-sent events\<close>

definition sse_payload_result ::
  "gw_api \<Rightarrow> runtime_state \<Rightarrow> uuid_source \<Rightarrow> principal \<Rightarrow> string \<Rightarrow> (bool \<times> string \<times> policy_outcome) option" where
  "sse_payload_result G rt rng who payload =
     (case js_parse (sc_json (ga_scan G)) payload of
        Some value \<Rightarrow>
          map_option (\<lambda>(value', policy).
              (True, case js_print (sc_json (ga_scan G)) value' of
                       Some s \<Rightarrow> s | None \<Rightarrow> generic_redacted_sse_payload True, policy))
            (unwrap_or_else (\<lambda>_. json_error_fallback) (sanitize_json_value G rt rng who value Response))
      | None \<Rightarrow>
          map_option (\<lambda>(redacted, policy). (False, redacted, policy))
            (unwrap_or_else (\<lambda>_. text_error_fallback)
              (process_text G rt (\<lambda>j. rng [j]) who payload ''/sse'' Response)))"

definition transform_sse_line ::
  "gw_api \<Rightarrow> runtime_state \<Rightarrow> uuid_source \<Rightarrow> principal \<Rightarrow> string \<Rightarrow> bool \<Rightarrow> string \<Rightarrow>
     (string \<times> policy_outcome) option" where
  "transform_sse_line G rt rng who path session_escalated line =
     (if \<not> starts_with line ''data:'' then Some (line, allow_outcome)
      else
        let payload = trim (trim_start_matches ''data:'' line) in
        if payload = [] \<or> payload = ''[DONE]'' then Some (line, allow_outcome)
        else Option.bind (sse_payload_result G rt rng who payload) (\<lambda>(is_json_payload, rendered, base).
          Option.bind (finalize_response_policy G rt who path session_escalated base) (\<lambda>final.
            Some (''data: '' @
              (if should_force_full_response_redaction (po_decision base) (po_decision final)
               then generic_redacted_sse_payload is_json_payload else rendered) @ [CHR 0x0A], final))))"

section \<open>One text\<close>

definition pipeline_scan :: "gw_api \<Rightarrow> runtime_state \<Rightarrow> string \<Rightarrow> string \<Rightarrow> detection_finding list" where
  "pipeline_scan G rt src pointer =
     scan_text (sc_regex (ga_scan G)) (sc_hash (ga_scan G)) (run_detector rt) src pointer @
     (case run_presidio rt of
        None \<Rightarrow> [] | Some p \<Rightarrow> presidio_found (ga_presidio G) (sc_hash (ga_scan G)) p src pointer)"

lemma process_findings_Ok:
  "process_findings G rt src pointer = Ok fs \<Longrightarrow> fs = pipeline_scan G rt src pointer"
  by (auto simp: process_findings_def pipeline_scan_def presidio_found_def Let_def rres_iffs
      split: option.splits)

lemma process_findings_not_Panic: "process_findings G rt src pointer \<noteq> Panic"
  by (auto simp: process_findings_def Let_def presidio_analyze_not_Panic split: option.splits)

lemma pipeline_span_source:
  assumes "regex_sound (sc_regex (ga_scan G))"
  shows "span_source (pipeline_scan G rt)"
proof (cases "run_presidio rt")
  case None
  then have "pipeline_scan G rt =
      scan_text (sc_regex (ga_scan G)) (sc_hash (ga_scan G)) (run_detector rt)"
    by (intro ext) (simp add: pipeline_scan_def)
  then show ?thesis using scan_text_span_source [OF assms] by simp
next
  case (Some p)
  then have "pipeline_scan G rt = (\<lambda>src pointer.
      scan_text (sc_regex (ga_scan G)) (sc_hash (ga_scan G)) (run_detector rt) src pointer @
      presidio_found (ga_presidio G) (sc_hash (ga_scan G)) p src pointer)"
    by (intro ext) (simp add: pipeline_scan_def)
  then show ?thesis
    using span_source_append [OF scan_text_span_source [OF assms] presidio.span_source_axioms] by simp
qed

lemma process_text_Ok:
  assumes "process_text G rt rng who src pointer dir = Ok (redacted, policy)"
  shows "policy = policy_resolve who (pipeline_scan G rt src pointer) dir"
    and "redact_text (sc_crypto (ga_scan G)) (sc_unicode (ga_scan G)) (sc_hash (ga_scan G))
      (run_tokenizer rt) rng src (po_findings policy) = Ok redacted"
  using assms by (auto simp: process_text_def Let_def rres_iffs dest!: process_findings_Ok)

lemma process_text_no_panic:
  assumes "regex_sound (sc_regex (ga_scan G))" and "hash_sound (sc_hash (ga_scan G))"
    and "list_all is_ascii src"
  shows "process_text G rt rng who src pointer dir \<noteq> Panic"
proof -
  have "str_ok src" using assms(3) by (cases src) (auto simp: is_ascii_not_cont)
  then have "redact_text C U (sc_hash (ga_scan G)) tz rng src
      (po_findings (policy_resolve who (pipeline_scan G rt src pointer) dir)) \<noteq> Panic" for C U tz
    by (rule span_source.redact_resolved_no_panic [OF pipeline_span_source [OF assms(1)] assms(2)])
      (fact assms(3))
  then show ?thesis
    by (auto simp: process_text_def Let_def rres_iffs process_findings_not_Panic
        dest!: process_findings_Ok)
qed

text \<open>When every finding is allowed, the text goes through as it came.\<close>

lemma redact_text_all_allowed:
  "(\<forall>f \<in> set fs. rs_effective_action f = Allow) \<Longrightarrow> redact_text C U H tz rng src fs = Ok src"
  by (simp add: redact_text_def filter_empty_conv)

lemma effective_Allow_iff: "effective_action dir a = Allow \<longleftrightarrow> a = Allow"
  by (cases dir) auto

lemma resolve_Allow_effective:
  "po_decision (policy_resolve who fs dir) = Allow \<Longrightarrow>
     \<forall>f \<in> set (po_findings (policy_resolve who fs dir)). rs_effective_action f = Allow"
  by (auto simp: po_decision_resolve strictest_eq_Allow_iff)
    (auto simp: policy_resolve_def resolve_finding_def effective_Allow_iff)

lemma process_text_Allow:
  assumes "process_text G rt rng who src pointer dir = Ok (redacted, policy)"
    and "po_decision policy = Allow"
  shows "redacted = src"
  using process_text_Ok [OF assms(1)] assms(2) resolve_Allow_effective redact_text_all_allowed
  by (metis rres.inject(1))

section \<open>One JSON value\<close>

text \<open>What happens to one node: left alone, or replaced by its redaction.\<close>

definition node_result ::
  "gw_api \<Rightarrow> runtime_state \<Rightarrow> uuid_source \<Rightarrow> principal \<Rightarrow> direction \<Rightarrow> nat \<Rightarrow> string \<times> string \<Rightarrow>
     (app_error, string option \<times> resolved_finding list) rres" where
  "node_result G rt rng who dir k node =
     (if should_ignore_pointer (run_detector rt) (fst node) then Ok (None, [])
      else rmap (\<lambda>(redacted, policy). (Some redacted, po_findings policy))
        (process_text G rt (\<lambda>j. rng [k, j]) who (snd node) (fst node) dir))"

fun node_results ::
  "gw_api \<Rightarrow> runtime_state \<Rightarrow> uuid_source \<Rightarrow> principal \<Rightarrow> direction \<Rightarrow> nat \<Rightarrow> (string \<times> string) list \<Rightarrow>
     (app_error, (string option \<times> resolved_finding list) list) rres" where
  "node_results G rt rng who dir k [] = Ok []"
| "node_results G rt rng who dir k (node # nodes) =
     rbind (node_result G rt rng who dir k node) (\<lambda>r.
       rmap (Cons r) (node_results G rt rng who dir (Suc k) nodes))"

lemma sanitize_nodes_eq:
  "sanitize_nodes G rt rng who dir k nodes v collected =
     rmap (\<lambda>rs. (write_nodes (js_pointer_set (sc_json (ga_scan G))) (zip (map fst nodes) (map fst rs)) v,
                collected @ concat (map snd rs)))
       (node_results G rt rng who dir k nodes)"
proof (induction nodes arbitrary: k v collected)
  case (Cons node nodes)
  obtain pointer original where n: "node = (pointer, original)" by (cases node)
  show ?case
  proof (cases "should_ignore_pointer (run_detector rt) pointer")
    case True
    with Cons n show ?thesis
      by (cases "node_results G rt rng who dir (Suc k) nodes")
        (simp_all add: node_result_def write_node_def)
  next
    case False
    with Cons n show ?thesis
      by (cases "process_text G rt (\<lambda>j. rng [k, j]) who original pointer dir";
          cases "node_results G rt rng who dir (Suc k) nodes")
        (auto simp: node_result_def write_node_def split: prod.splits)
  qed
qed simp

lemma length_node_results:
  "node_results G rt rng who dir k nodes = Ok rs \<Longrightarrow> length rs = length nodes"
  by (induction nodes arbitrary: k rs) (auto simp: rres_iffs)

lemma node_results_nth:
  "node_results G rt rng who dir k nodes = Ok rs \<Longrightarrow> i < length nodes \<Longrightarrow>
     node_result G rt rng who dir (k + i) (nodes ! i) = Ok (rs ! i)"
proof (induction nodes arbitrary: k rs i)
  case (Cons node nodes)
  then show ?case using Cons.IH [of "Suc k"] by (cases i) (auto simp: rres_iffs)
qed simp

lemma sanitize_json_value_OkE:
  assumes "sanitize_json_value G rt rng who v dir = Ok (v', policy)"
    and "json_sound (sc_json (ga_scan G))" and "json_wf v"
  obtains rs where "node_results G rt rng who dir 0 (collect_string_nodes v []) = Ok rs"
    and "length rs = length (collect_string_nodes v [])"
    and "v' = refill v (map fst rs)" and "po_findings policy = concat (map snd rs)"
    and "po_decision policy = strictest rs_action (concat (map snd rs))"
    and "po_source policy = ''builtin''" and "po_reason policy = None"
proof -
  from assms(1) obtain rs where rs: "node_results G rt rng who dir 0 (collect_string_nodes v []) = Ok rs"
    and v': "v' = write_nodes (js_pointer_set (sc_json (ga_scan G)))
      (zip (map fst (collect_string_nodes v [])) (map fst rs)) v"
    and p: "policy = \<lparr>po_decision = strictest rs_action (concat (map snd rs)),
      po_findings = concat (map snd rs), po_source = ''builtin'', po_reason = None\<rparr>"
    by (auto simp: sanitize_json_value_def sanitize_nodes_eq rres_iffs strictest_def)
  have "v' = refill v (map fst rs)"
    unfolding v' using assms(2,3) length_node_results [OF rs] by (intro write_back_refill) simp_all
  with rs p length_node_results [OF rs] show ?thesis by (intro that [of rs]) simp_all
qed

text \<open>A node of the result against the node it comes from.\<close>

definition node_redacted ::
  "gw_api \<Rightarrow> runtime_state \<Rightarrow> uuid_source \<Rightarrow> principal \<Rightarrow> direction \<Rightarrow> string \<times> string \<Rightarrow>
     string \<times> string \<Rightarrow> bool" where
  "node_redacted G rt rng who dir n n' \<longleftrightarrow> fst n' = fst n \<and>
     (if should_ignore_pointer (run_detector rt) (fst n) then snd n' = snd n
      else \<exists>k policy. process_text G rt (\<lambda>j. rng [k, j]) who (snd n) (fst n) dir = Ok (snd n', policy))"

lemma sanitize_json_value_nodes:
  assumes ok: "sanitize_json_value G rt rng who v dir = Ok (v', policy)"
    and J: "json_sound (sc_json (ga_scan G))" and wf: "json_wf v"
  shows "list_all2 (node_redacted G rt rng who dir) (collect_string_nodes v []) (collect_string_nodes v' [])"
proof -
  let ?nodes = "collect_string_nodes v []"
  from ok J wf obtain rs where rs: "node_results G rt rng who dir 0 ?nodes = Ok rs"
    and len: "length rs = length ?nodes" and v': "v' = refill v (map fst rs)"
    by (rule sanitize_json_value_OkE)
  have nodes': "collect_string_nodes v' [] = map2 refill_node ?nodes (map fst rs)"
    unfolding v' using len by (intro collect_refill) (simp add: length_token_nodes)
  show ?thesis unfolding nodes'
  proof (rule list_all2_all_nthI)
    fix i assume i: "i < length ?nodes"
    obtain p s where n: "?nodes ! i = (p, s)" by (cases "?nodes ! i")
    from node_results_nth [OF rs i] have "node_result G rt rng who dir i (p, s) = Ok (rs ! i)"
      by (simp add: n)
    with i len n show "node_redacted G rt rng who dir (?nodes ! i) (map2 refill_node ?nodes (map fst rs) ! i)"
      by (cases "rs ! i")
        (auto simp: node_result_def node_redacted_def refill_node_def rres_iffs split: if_splits,
          rule exI [of _ i], rule exI)
  qed (simp add: len)
qed

lemma sanitize_json_value_shape:
  assumes "sanitize_json_value G rt rng who v dir = Ok (v', policy)"
    and "json_sound (sc_json (ga_scan G))" and "json_wf v"
  shows "json_shape v' = json_shape v"
  using assms by (rule sanitize_json_value_OkE) (simp add: json_shape_refill(1))

lemma sanitize_json_value_policy:
  assumes "sanitize_json_value G rt rng who v dir = Ok (v', policy)"
  shows "po_decision policy = strictest rs_action (po_findings policy)"
  using assms by (auto simp: sanitize_json_value_def rres_iffs strictest_def)

section \<open>OPA only makes a decision stricter\<close>

lemma apply_opa_policy_ge:
  "apply_opa_policy G rt who dir path esc base = Ok out \<Longrightarrow>
     rank (po_decision base) \<le> rank (po_decision out) \<and> po_findings out = po_findings base"
  by (auto simp: apply_opa_policy_def opa_merge_ge split: option.splits sum.splits if_splits)

lemma apply_opa_policy_not_Panic [simp]: "apply_opa_policy G rt who dir path esc base \<noteq> Panic"
  by (auto simp: apply_opa_policy_def split: option.splits sum.splits)

lemma finalize_response_policy_total:
  "\<exists>final. finalize_response_policy G rt who path esc base = Some final"
  by (cases "apply_opa_policy G rt who Response path esc base")
    (auto simp: finalize_response_policy_def)

lemma finalize_response_policy_Allow:
  "finalize_response_policy G rt who path esc base = Some final \<Longrightarrow> po_decision final = Allow \<Longrightarrow>
     po_decision base = Allow"
  by (cases "apply_opa_policy G rt who Response path esc base")
    (auto simp: finalize_response_policy_def dest!: apply_opa_policy_ge)

lemma finalize_response_policy_findings:
  "finalize_response_policy G rt who path esc base = Some final \<Longrightarrow> po_findings final = po_findings base"
  by (cases "apply_opa_policy G rt who Response path esc base")
    (auto simp: finalize_response_policy_def dest!: apply_opa_policy_ge)

text \<open>The body sent to the client, by the base and the final decision.\<close>

lemma resolve_buffered_response_body_cases:
  assumes "resolve_buffered_response_body ct original sanitized base final = (body, decision)"
  shows "decision = normalize_response_decision final \<and>
    (final = Allow \<longrightarrow> body = original) \<and>
    (final \<noteq> Allow \<longrightarrow> body = (if rank base < rank final then generic_redacted_body ct else sanitized))"
  using assms
  by (auto simp: resolve_buffered_response_body_def normalize_response_decision_def
      should_force_full_response_redaction_def split: if_splits)

section \<open>Merging outcomes\<close>

lemma merge_policy_outcomes_simps [simp]:
  "po_decision (merge_policy_outcomes a b) = combine (po_decision a) (po_decision b)"
  "po_findings (merge_policy_outcomes a b) = po_findings a @ po_findings b"
  by (simp_all add: merge_policy_outcomes_def Let_def)

lemma fold_merge_decision:
  "po_decision (fold (\<lambda>x acc. merge_policy_outcomes acc (f x)) xs a) =
     combine (po_decision a) (strictest (po_decision \<circ> f) xs)"
  by (induction xs arbitrary: a) (simp_all add: decisions.join_assoc)

lemma fold_merge_findings:
  "po_findings (fold (\<lambda>x acc. merge_policy_outcomes acc (f x)) xs a) =
     po_findings a @ concat (map (po_findings \<circ> f) xs)"
  by (induction xs arbitrary: a) simp_all

section \<open>The decision on a payload covers its findings\<close>

lemma scan_request_decision:
  assumes "scan_request D E rng who body content_type = Ok (Some res)"
  shows "po_decision (sr_policy res) = strictest rs_action (po_findings (sr_policy res)) \<or>
    po_decision (sr_policy res) = Review"
proof (cases content_type)
  case None
  with assms show ?thesis by (simp add: scan_request_def)
next
  case (Some ct)
  from assms [unfolded Some] show ?thesis
  proof (cases rule: scan_request_SomeE)
    case (Empty boundary)
    then show ?thesis by (metis po_decision_resolve_findings)
  next
    case (Parts boundary parts sps fs)
    from Parts(4) have "sr_policy res = policy_resolve who fs Request \<or> po_decision (sr_policy res) = Review"
      by (auto simp: finish_scan_def Let_def review_fallback_def rres_iffs split: if_splits option.splits)
    then show ?thesis by (metis po_decision_resolve_findings)
  qed
qed

lemma process_payload_decision:
  assumes "process_payload G rt rng who body content_type dir = Ok p"
  shows "po_decision (pp_policy p) = strictest rs_action (po_findings (pp_policy p)) \<or>
    po_decision (pp_policy p) = Review"
proof -
  consider (scan) r where "scan_request (attachment_deps G rt) (run_attachments rt) rng who body content_type = Ok (Some r)"
      "pp_policy p = sr_policy r"
    | (plain) "process_plain_payload G rt rng who body content_type dir = Ok p"
    using assms by (auto simp: process_payload_def rres_iffs split: if_splits option.splits)
  then show ?thesis
  proof cases
    case scan
    with scan_request_decision show ?thesis by metis
  next
    case plain
    consider (json) v v' where "sanitize_json_value G rt rng who v dir = Ok (v', pp_policy p)"
      | (str) r where "process_text G rt (\<lambda>j. rng [j]) who body ''/'' dir = Ok (r, pp_policy p)"
      | (pass) "p = payload_passthrough body"
      using plain
      by (auto simp: process_plain_payload_def process_text_payload_def rres_iffs split: option.splits if_splits)
    then show ?thesis
    proof cases
      case json
      then show ?thesis by (simp add: sanitize_json_value_policy)
    next
      case str
      then show ?thesis by (metis po_decision_resolve_findings process_text_Ok(1))
    next
      case pass
      then show ?thesis by (simp add: payload_passthrough_def allow_outcome_def strictest_def)
    qed
  qed
qed

lemma process_payload_Allow:
  assumes "process_payload G rt rng who body content_type dir = Ok p" and "po_decision (pp_policy p) = Allow"
  shows "\<forall>f \<in> set (po_findings (pp_policy p)). rs_action f = Allow"
proof -
  have "strictest rs_action (po_findings (pp_policy p)) = Allow"
    using process_payload_decision [OF assms(1)] assms(2) by auto
  then show ?thesis by (simp add: strictest_eq_Allow_iff)
qed

end
