(* ===== verification/Param_Instances.thy ===== *)
theory Param_Instances
  imports Gw_Pipeline
begin

text \<open>
  Concrete functions for the parameters of the model, with the proofs that the named hypotheses
  hold of them: a regex engine that finds a literal, a hash of the right shape, a cipher, an
  encoding with the URL-safe alphabet, RFC 6901 itself for \<open>pointer_mut\<close>, an event file whose
  lines stand for the events. They are what the theorems are applied to at concrete inputs.
\<close>

section \<open>Regex and hash\<close>

text \<open>The pattern is a literal; the engine reports its first occurrence.\<close>

definition lit_find :: "string \<Rightarrow> string \<Rightarrow> (nat \<times> nat) list" where
  "lit_find pat src =
     (case find_sub src pat of
        None \<Rightarrow> []
      | Some i \<Rightarrow> filter (\<lambda>(a, b). str_slice src a b \<noteq> None) [(i, i + length pat)])"

definition lit_regex :: regex_api where
  "lit_regex =
     \<lparr>rx_error = (\<lambda>pat. if pat = [] then Some ''empty'' else None), rx_captures_len = (\<lambda>_. 1),
      rx_find_iter = lit_find, rx_captures_iter = (\<lambda>_ _. []), rx_set_error = (\<lambda>_. None),
      rx_set_matched = (\<lambda>pats src i. i < length pats \<and> lit_find (pats ! i) src \<noteq> [])\<rparr>"

definition const_hash :: hash_api where
  "const_hash = \<lparr>ha_sha256 = (\<lambda>_. []), ha_hex = (\<lambda>_. replicate 64 CHR ''a'')\<rparr>"

lemma lit_regex_sound: "regex_sound lit_regex"
  by (auto simp: regex_sound_def lit_regex_def lit_find_def span_ok_def split: option.splits if_splits)

lemma const_hash_sound: "hash_sound const_hash"
  by (simp add: hash_sound_def const_hash_def sha256_hex_def is_ascii_hexdigit_def list_all_iff)

section \<open>Cipher and encodings\<close>

text \<open>A byte as two letters of the alphabet from \<open>a\<close> to \<open>p\<close>.\<close>

definition nibbles :: "string \<Rightarrow> string" where
  "nibbles s = concat (map (\<lambda>c. [char_of (97 + byte_val c div 16 :: nat), char_of (97 + byte_val c mod 16 :: nat)]) s)"

fun unnibbles :: "string \<Rightarrow> string option" where
  "unnibbles [] = Some []"
| "unnibbles (a # b # s) =
     map_option (Cons (char_of (16 * (byte_val a - 97) + (byte_val b - 97) :: nat))) (unnibbles s)"
| "unnibbles [a] = None"

lemma byte_val_less: "byte_val c < (256 :: nat)"
  by (rule nat_of_char_less_256)

lemma unnibbles_nibbles: "unnibbles (nibbles s) = Some s"
proof (induction s)
  case (Cons c s)
  have "byte_val c div 16 < (16 :: nat)" using byte_val_less [of c] by (simp only: div_less_iff_less_mult)
  then have "(of_char (char_of (97 + byte_val c div 16 :: nat)) :: nat) = 97 + byte_val c div 16"
    and "(of_char (char_of (97 + byte_val c mod 16 :: nat)) :: nat) = 97 + byte_val c mod 16"
    by simp_all
  with Cons show ?case by (simp add: nibbles_def)
qed (simp add: nibbles_def)

lemma nibbles_safe: "list_all url_safe_char (nibbles s)"
proof (induction s)
  case (Cons c s)
  have "url_safe_char (char_of (97 + k))" if "k < 16" for k :: nat
    using that by (simp add: url_safe_char_def is_ascii_alphanumeric_def is_ascii_lower_def)
  moreover have "byte_val c div 16 < (16 :: nat)"
    using byte_val_less [of c] by (simp only: div_less_iff_less_mult)
  ultimately show ?case using Cons by (simp add: nibbles_def)
qed (simp add: nibbles_def)

text \<open>The payload is the label, a zero byte and the value, for labels without a zero byte.\<close>

definition toy_crypto :: crypto_api where
  "toy_crypto =
     \<lparr>cy_encrypt = (\<lambda>_ _ p. Some (rev p)), cy_decrypt = (\<lambda>_ _ c. Some (rev c)),
      cy_url_encode = nibbles, cy_url_decode = unnibbles, cy_std_decode = unnibbles,
      cy_hex_decode = unnibbles,
      cy_payload_to_vec = (\<lambda>l v. if CHR 0x00 \<in> set l then Inl ''label'' else Inr (l @ CHR 0x00 # v)),
      cy_payload_from_slice = (\<lambda>p. case split_once CHR 0x00 p of
          Some (l, v) \<Rightarrow> Inr \<lparr>dv_label = l, dv_value = v\<rparr> | None \<Rightarrow> Inl ''payload'')\<rparr>"

lemma toy_crypto_sound: "crypto_sound toy_crypto"
  by (auto simp: crypto_sound_def toy_crypto_def unnibbles_nibbles nibbles_safe split_once_append
      split: if_splits)

definition id_unicode :: unicode_api where
  "id_unicode = \<lparr>uc_to_lowercase = to_ascii_lowercase, uc_to_uppercase = (\<lambda>s. s)\<rparr>"

section \<open>JSON and files\<close>

text \<open>A parser that knows one document; the document prints as itself.\<close>

definition one_json :: "string \<Rightarrow> json \<Rightarrow> json_api" where
  "one_json b v =
     \<lparr>js_pointer_set = rfc_pointer_set, js_parse = (\<lambda>s. if s = b then Some v else None),
      js_print = (\<lambda>_. Some b)\<rparr>"

lemma one_json_sound: "json_wf v \<Longrightarrow> json_sound (one_json b v)"
  by (simp add: json_sound_def one_json_def)

definition toy_scan :: "json_api \<Rightarrow> scan_api" where
  "toy_scan J =
     \<lparr>sc_regex = lit_regex, sc_hash = const_hash, sc_crypto = toy_crypto, sc_unicode = id_unicode,
      sc_json = J\<rparr>"

lemma toy_scan_simps [simp]:
  "sc_regex (toy_scan J) = lit_regex" "sc_hash (toy_scan J) = const_hash"
  "sc_crypto (toy_scan J) = toy_crypto" "sc_unicode (toy_scan J) = id_unicode" "sc_json (toy_scan J) = J"
  by (simp_all add: toy_scan_def)

end
