(* ===== verification/Core_Session.thy ===== *)
theory Core_Session
  imports Core_Config
begin

text \<open>
  \<open>crates/ctxward-core/src/session.rs\<close>: the labels seen per session, bounded in number and in
  time. \<open>Instant\<close>s and durations are nanoseconds; \<open>duration_since\<close> saturates at zero, as the
  subtraction of naturals does. A label set is a list without repetition. The mutex makes each
  operation one step.
\<close>

section \<open>The store\<close>

record session_entry =
  se_labels :: "string list"
  se_updated_at :: nat

type_synonym session_store = "(string, session_entry) hmap"

definition duration_from_secs :: "nat \<Rightarrow> nat" where
  "duration_from_secs s = s * 10 ^ 9"

definition session_live :: "session_config \<Rightarrow> nat \<Rightarrow> session_entry \<Rightarrow> bool" where
  "session_live config now e \<longleftrightarrow> now - se_updated_at e \<le> duration_from_secs (ss_ttl_secs config)"

text \<open>\<open>min_by_key\<close> returns the first of the minimal elements.\<close>

fun oldest_entry :: "session_store \<Rightarrow> (string \<times> session_entry) option" where
  "oldest_entry [] = None"
| "oldest_entry (p # m) =
     (case oldest_entry m of
        None \<Rightarrow> Some p
      | Some q \<Rightarrow> if se_updated_at (snd q) < se_updated_at (snd p) then Some q else Some p)"

definition evict_oldest :: "session_config \<Rightarrow> string \<Rightarrow> session_store \<Rightarrow> session_store" where
  "evict_oldest config session_id m =
     (if length m \<ge> ss_max_entries config \<and> hm_get m session_id = None
      then (case oldest_entry m of Some (k, _) \<Rightarrow> hm_remove k m | None \<Rightarrow> m)
      else m)"

definition labels_extend :: "string list \<Rightarrow> string list \<Rightarrow> string list" where
  "labels_extend old new = fold List.insert new old"

definition touch_entry :: "nat \<Rightarrow> string list \<Rightarrow> session_entry option \<Rightarrow> session_entry" where
  "touch_entry now labels e =
     \<lparr>se_labels = labels_extend (case e of Some e \<Rightarrow> se_labels e | None \<Rightarrow> []) labels,
      se_updated_at = now\<rparr>"

definition record_and_check ::
  "session_config \<Rightarrow> nat \<Rightarrow> string \<Rightarrow> string list \<Rightarrow> session_store \<Rightarrow> bool \<times> session_store" where
  "record_and_check config now session_id labels m =
     (if \<not> ss_enabled config \<or> session_id = [] then (False, m)
      else
        let m1 = hm_retain (\<lambda>_. session_live config now) m;
            m2 = evict_oldest config session_id m1;
            entry = touch_entry now labels (hm_get m2 session_id)
        in (length (se_labels entry) \<ge> ss_correlation_threshold config, hm_insert session_id entry m2))"

definition active_sessions :: "session_config \<Rightarrow> nat \<Rightarrow> session_store \<Rightarrow> nat \<times> session_store" where
  "active_sessions config now m =
     (if \<not> ss_enabled config then (0, m)
      else let m1 = hm_retain (\<lambda>_. session_live config now) m in (length m1, m1))"

section \<open>Lemmas on the parts\<close>

lemma oldest_entry_None_iff [simp]: "oldest_entry m = None \<longleftrightarrow> m = []"
  by (cases m) (auto split: option.splits)

lemma oldest_entry_Some:
  "oldest_entry m = Some p \<Longrightarrow>
     p \<in> set m \<and> (\<forall>q \<in> set m. se_updated_at (snd p) \<le> se_updated_at (snd q))"
  by (induction m arbitrary: p) (fastforce split: option.splits if_splits)+

lemma set_labels_extend [simp]: "set (labels_extend old new) = set old \<union> set new"
  unfolding labels_extend_def by (induction new arbitrary: old) auto

lemma distinct_labels_extend: "distinct old \<Longrightarrow> distinct (labels_extend old new)"
  unfolding labels_extend_def by (induction new arbitrary: old) auto

lemma evict_oldest_same [simp]: "hm_get (evict_oldest config k m) k = hm_get m k"
  by (auto simp: evict_oldest_def hm.get_remove split: option.splits)

lemma evict_oldest_wf: "hm_wf m \<Longrightarrow> hm_wf (evict_oldest config k m)"
  by (auto simp: evict_oldest_def hm.wf_remove split: option.splits)

lemma evict_oldest_size:
  assumes "hm_wf m" and "length m \<le> max 1 (ss_max_entries config)" and "hm_get m k = None"
  shows "Suc (length (evict_oldest config k m)) \<le> max 1 (ss_max_entries config)"
proof (cases "length m \<ge> ss_max_entries config \<and> m \<noteq> []")
  case True
  then obtain old e where old: "oldest_entry m = Some (old, e)"
    by (cases "oldest_entry m") auto
  then have "(old, e) \<in> set m" by (blast dest: oldest_entry_Some)
  then have "hm_get m old \<noteq> None" by (auto simp: hm_get_eq_None_iff intro!: image_eqI)
  with hm.size_remove_present [OF assms(1)] assms(2,3) True old show ?thesis
    by (auto simp: evict_oldest_def)
next
  case False
  with assms(2) show ?thesis by (auto simp: evict_oldest_def)
qed

section \<open>The invariant\<close>

definition session_inv :: "session_config \<Rightarrow> session_store \<Rightarrow> bool" where
  "session_inv config m \<longleftrightarrow> hm_wf m \<and> length m \<le> max 1 (ss_max_entries config) \<and>
     (\<forall>(k, e) \<in> set m. k \<noteq> [] \<and> distinct (se_labels e))"

text \<open>One step of the store: a caller records labels, or the metrics count the sessions.\<close>

inductive session_step :: "session_config \<Rightarrow> session_store \<Rightarrow> session_store \<Rightarrow> bool"
  for config :: session_config where
  touched: "record_and_check config now session_id labels m = (hit, m') \<Longrightarrow> session_step config m m'"
| count: "active_sessions config now m = (n, m') \<Longrightarrow> session_step config m m'"

lemma session_inv_retain: "session_inv config m \<Longrightarrow> session_inv config (hm_retain P m)"
  unfolding session_inv_def using hm.wf_retain [of m P]
  by (auto simp: hm_retain_def intro: le_trans [OF length_filter_le])

lemma set_hm_insert: "set (hm_insert k v m) \<subseteq> insert (k, v) (set m)"
  by (induction k v m rule: hm_insert.induct) auto

lemma set_evict_oldest: "set (evict_oldest config k m) \<subseteq> set m"
  by (auto simp: evict_oldest_def hm_remove_def split: option.splits)

lemma touch_entry_distinct:
  assumes "session_inv config m"
  shows "distinct (se_labels (touch_entry now labels (hm_get m k)))"
  using assms
  by (cases "hm_get m k")
    (auto simp: touch_entry_def session_inv_def intro!: distinct_labels_extend dest!: hm_get_in_set)

lemma session_inv_insert:
  assumes "session_inv config m" and "k \<noteq> []" and "distinct (se_labels e)"
  shows "session_inv config (hm_insert k e (evict_oldest config k m))"
proof -
  have wf: "hm_wf m" and len: "length m \<le> max 1 (ss_max_entries config)"
    using assms(1) by (auto simp: session_inv_def)
  have "length (hm_insert k e (evict_oldest config k m)) \<le> max 1 (ss_max_entries config)"
  proof (cases "hm_get m k = None")
    case True
    then show ?thesis using evict_oldest_size [OF wf len True] by (simp add: hm.size_insert)
  next
    case False
    then have "evict_oldest config k m = m" by (auto simp: evict_oldest_def)
    with False len show ?thesis by (auto simp: hm.size_insert)
  qed
  moreover have "set (hm_insert k e (evict_oldest config k m)) \<subseteq> insert (k, e) (set m)"
    using set_hm_insert set_evict_oldest by fastforce
  ultimately show ?thesis
    using assms by (auto simp: session_inv_def intro: hm.wf_insert evict_oldest_wf)
qed

lemma record_and_check_inv:
  assumes "session_inv config m"
  shows "session_inv config (snd (record_and_check config now session_id labels m))"
proof (cases "\<not> ss_enabled config \<or> session_id = []")
  case True
  with assms show ?thesis by (auto simp: record_and_check_def)
next
  case False
  let ?m = "hm_retain (\<lambda>_. session_live config now) m"
  have inv: "session_inv config ?m" using assms by (rule session_inv_retain)
  with False show ?thesis
    by (simp add: record_and_check_def Let_def session_inv_insert touch_entry_distinct)
qed

interpretation session: transition_system "\<lambda>m. m = []" "session_step config" "session_inv config"
  for config
proof (unfold_locales, goal_cases)
  case (1 m)
  then show ?case by (simp add: session_inv_def)
next
  case (2 m m')
  from 2(2) show ?case
  proof (cases rule: session_step.cases)
    case (touched now session_id labels hit)
    with record_and_check_inv [OF 2(1), of now session_id labels] show ?thesis by simp
  next
    case (count now n)
    with 2(1) show ?thesis
      by (auto simp: active_sessions_def Let_def session_inv_retain split: if_splits)
  qed
qed

section \<open>What recording does\<close>

text \<open>The labels of a session that is live at a time, none when it is absent or expired.\<close>

definition live_labels :: "session_config \<Rightarrow> nat \<Rightarrow> session_store \<Rightarrow> string \<Rightarrow> string set" where
  "live_labels config now m k =
     (case hm_get m k of
        Some e \<Rightarrow> if session_live config now e then set (se_labels e) else {}
      | None \<Rightarrow> {})"

lemma record_and_check_result:
  assumes "session_inv config m" and "ss_enabled config" and "session_id \<noteq> []"
  shows "fst (record_and_check config now session_id labels m) \<longleftrightarrow>
    ss_correlation_threshold config \<le> card (live_labels config now m session_id \<union> set labels)"
proof -
  let ?m = "hm_retain (\<lambda>_. session_live config now) m"
  let ?e = "touch_entry now labels (hm_get ?m session_id)"
  have wf: "hm_wf m" using assms(1) by (simp add: session_inv_def)
  have d: "distinct (se_labels ?e)"
    using touch_entry_distinct session_inv_retain [OF assms(1)] .
  have "set (se_labels ?e) = live_labels config now m session_id \<union> set labels"
    by (auto simp: touch_entry_def live_labels_def hm.get_retain [OF wf] split: option.splits if_splits)
  with d have "length (se_labels ?e) = card (live_labels config now m session_id \<union> set labels)"
    by (simp flip: distinct_card)
  with assms(2,3) show ?thesis by (simp add: record_and_check_def Let_def)
qed

lemma record_and_check_lookup:
  assumes "session_inv config m" and "ss_enabled config" and "session_id \<noteq> []"
  shows "live_labels config now (snd (record_and_check config now session_id labels m)) session_id =
    live_labels config now m session_id \<union> set labels"
proof -
  have wf: "hm_wf m" using assms(1) by (simp add: session_inv_def)
  show ?thesis using assms(2,3)
    by (auto simp: record_and_check_def Let_def live_labels_def hm.get_insert touch_entry_def
        hm.get_retain [OF wf] session_live_def split: option.splits if_splits)
qed

text \<open>Another session keeps its labels, unless it is the oldest and the store is full.\<close>

lemma record_and_check_other:
  assumes "session_inv config m" and "k \<noteq> session_id"
    and "length m < ss_max_entries config"
  shows "live_labels config now (snd (record_and_check config now session_id labels m)) k =
    live_labels config now m k"
proof -
  have wf: "hm_wf m" using assms(1) by (simp add: session_inv_def)
  let ?m = "hm_retain (\<lambda>_. session_live config now) m"
  have "length ?m < ss_max_entries config"
    using hm.size_retain assms(3) le_less_trans by blast
  then have "evict_oldest config session_id ?m = ?m" by (simp add: evict_oldest_def)
  with assms(2) show ?thesis
    by (auto simp: record_and_check_def Let_def live_labels_def hm.get_insert
        hm.get_retain [OF wf] split: option.splits if_splits)
qed

end
