(* ===== verification/Core_Claims.thy ===== *)
theory Core_Claims
  imports Param_Instances Core_Session
begin

text \<open>
  The properties of the core crate, each with an application at a concrete input. They rest on the
  lemmas of the component theories.
\<close>

section \<open>A concrete configuration\<close>

definition demo_rule :: detection_rule_config where
  "demo_rule =
     \<lparr>dr_name = ''mail'', dr_label = ''email'', dr_pattern = ''a@b'', dr_severity = Medium,
      dr_authorized_action = Allow, dr_unauthorized_action = Redact, dr_min_clearance = Internal,
      dr_masking = Placeholder\<rparr>"

definition demo_detection :: detection_config where
  "demo_detection =
     \<lparr>dc_ignore_json_pointers = {}, dc_high_entropy = None, dc_presidio = None, dc_rules = [demo_rule]\<rparr>"

definition demo_detector :: detector where
  "demo_detector =
     \<lparr>dt_ignore_json_pointers = {},
      dt_rules = [\<lparr>cr_regex = ''a@b'', cr_metadata = to_metadata demo_rule\<rparr>],
      dt_rule_set = Some [''a@b''], dt_high_entropy = None\<rparr>"

definition demo_finding :: detection_finding where
  "demo_finding =
     \<lparr>df_start = 2, df_end = 5, df_matched = ''a@b'', df_matched_sha256 = replicate 64 CHR ''a'',
      df_pointer = ''/'', df_metadata = to_metadata demo_rule\<rparr>"

lemma demo_detector_new: "detector_new lit_regex demo_detection = Inr demo_detector"
  by (simp add: detector_new_def demo_detection_def demo_rule_def lit_regex_def demo_detector_def
      to_metadata_def compile_high_entropy_def)

lemma demo_scan: "scan_text lit_regex const_hash demo_detector ''x a@b y'' ''/'' = [demo_finding]"
  by (simp add: scan_text_def regex_findings_def entropy_findings_def demo_detector_def lit_regex_def
      lit_find_def starts_with_def str_slice_def is_char_boundary_def is_cont_def rule_spans_def
      span_finding_def detection_finding_new_def demo_finding_def sha256_hex_def const_hash_def)

section \<open>Detection\<close>

text \<open>
  (C8) Every finding of a detector built from a configuration lies in the scanned text: its span
  is a legal slice, the slice is the matched string, it carries the pointer of the scan, and its
  metadata is that of a configured rule or of the enabled high-entropy rule.
\<close>

theorem scan_text_in_text:
  assumes "regex_sound R" and "detector_new R config = Inr d"
    and "f \<in> set (scan_text R H d src pointer)"
  shows "str_slice src (df_start f) (df_end f) = Some (df_matched f) \<and> df_pointer f = pointer \<and>
    ((\<exists>rule \<in> set (dc_rules config). df_metadata f = to_metadata rule) \<or>
     (\<exists>he. dc_high_entropy config = Some he \<and> he_enabled he \<and> df_metadata f = to_high_entropy_metadata he))"
proof -
  have "detector_wf d" and "dt_rules d = map (\<lambda>r. \<lparr>cr_regex = dr_pattern r, cr_metadata = to_metadata r\<rparr>) (dc_rules config)"
    and "dt_high_entropy d = compile_high_entropy (dc_high_entropy config)"
    using detector_new_Inr [OF assms(2)] by auto
  moreover have "finding_wf src f \<and> df_pointer f = pointer"
    using scan_text_span_source [OF assms(1)] assms(3)
    by (auto intro: span_source.scan_wf span_source.scan_pointer)
  ultimately show ?thesis
    using scan_text_metadata [of d f R H src pointer] assms(3)
    by (auto simp: finding_wf_def compile_high_entropy_def split: option.splits if_splits)
qed

theorem scan_text_in_text_witness:
  "str_slice ''x a@b y'' (df_start demo_finding) (df_end demo_finding) = Some (df_matched demo_finding)"
  using scan_text_in_text [OF lit_regex_sound demo_detector_new, of demo_finding const_hash "''x a@b y''" "''/''"]
  by (simp add: demo_scan)

text \<open>
  (C37) The character loop of \<open>high_entropy_tokens\<close> finds exactly the maximal runs of token
  characters that pass the length and entropy tests, at their byte offsets.
\<close>

theorem entropy_tokens_maximal_runs:
  "high_entropy_tokens input ml me =
     concat (map (\<lambda>(i, run). entropy_emit ml me i (i + length (concat run)) (concat run))
       (entropy_runs 0 (utf8_chars input)))"
  by (simp add: high_entropy_tokens_runs run_tokens_def)

text \<open>The entropy of any string is between 0 and 8 bits per byte.\<close>

theorem shannon_entropy_bounds: "0 \<le> shannon_entropy v \<and> shannon_entropy v \<le> 8"
  by (simp add: shannon_entropy_nonneg shannon_entropy_le_8)

section \<open>Authentication and policy\<close>

text \<open>
  (C21) A request is authenticated only as a principal of the configuration, and only with a header
  value whose secret hashes to that principal's configured digest.
\<close>

theorem authenticate_configured:
  assumes "authenticator_new W U config = Inr a" and "authenticate W H a headers = Inr p"
  shows "\<exists>pc \<in> set (ac_principals config). p = principal_from pc \<and>
    (\<exists>raw v. header_get headers (an_header_name a) = Some raw \<and> ht_to_str W raw = Some v \<and>
      sha256_hex H (bearer_secret (an_header_name a) v) = uc_to_lowercase U (pc_secret_sha256 pc))"
proof -
  from assms(2) obtain raw v where v: "header_get headers (an_header_name a) = Some raw"
    "ht_to_str W raw = Some v"
    "hm_get (an_principal_by_hash a) (sha256_hex H (bearer_secret (an_header_name a) v)) = Some p"
    by (auto simp: authenticate_Inr_iff)
  from authenticator_new_get [OF assms(1) v(3)] v(1,2) show ?thesis by blast
qed

definition demo_http :: http_api where
  "demo_http = \<lparr>ht_header_name = Some, ht_to_str = Some\<rparr>"

definition demo_auth :: auth_config where
  "demo_auth = \<lparr>ac_header_name = ''authorization'',
     ac_principals = [\<lparr>pc_name = ''ann'', pc_tenant_id = ''t'', pc_role = ''dev'', pc_clearance = Internal,
       pc_secret_sha256 = replicate 64 CHR ''a'', pc_allowed_labels = {''email''}\<rparr>]\<rparr>"

theorem authenticate_configured_witness:
  "\<exists>a p. authenticator_new demo_http id_unicode demo_auth = Inr a \<and>
     authenticate demo_http const_hash a [(''authorization'', ''Bearer s'')] = Inr p \<and>
     (\<exists>pc \<in> set (ac_principals demo_auth). p = principal_from pc)"
proof -
  obtain a where a: "authenticator_new demo_http id_unicode demo_auth = Inr a"
    by (simp add: authenticator_new_def demo_http_def)
  have lower: "to_ascii_lowercase (replicate 64 CHR ''a'') = replicate 64 CHR ''a''"
    by (simp add: to_ascii_lowercase_def byte_to_lower_def is_ascii_upper_def)
  from a have "\<exists>p. authenticate demo_http const_hash a [(''authorization'', ''Bearer s'')] = Inr p"
    using lower
    by (auto simp: authenticator_new_def demo_http_def authenticate_Inr_iff demo_auth_def id_unicode_def
        header_get_def to_ascii_lowercase_def byte_to_lower_def is_ascii_upper_def hm_get_from_list
        sha256_hex_def const_hash_def)
  then obtain p where p: "authenticate demo_http const_hash a [(''authorization'', ''Bearer s'')] = Inr p" ..
  from authenticate_configured [OF a p] a p show ?thesis by blast
qed

text \<open>
  (C7) The decision of the policy engine is the strictest action of its findings: no finding asks
  for more, and a decision other than allow is asked for by some finding. On the response side
  every finding that is not allowed is redacted.
\<close>

theorem policy_resolve_strictest:
  "(\<forall>f \<in> set fs. rank (finding_action who f) \<le> rank (po_decision (policy_resolve who fs dir))) \<and>
   (po_decision (policy_resolve who fs dir) = Allow \<or>
     (\<exists>f \<in> set fs. po_decision (policy_resolve who fs dir) = finding_action who f)) \<and>
   (\<forall>r \<in> set (po_findings (policy_resolve who fs Response)).
     rs_effective_action r = (if rs_action r = Allow then Allow else Redact))"
proof (intro conjI)
  show "\<forall>f \<in> set fs. rank (finding_action who f) \<le> rank (po_decision (policy_resolve who fs dir))"
    by (simp add: po_decision_resolve strictest_ge)
  show "po_decision (policy_resolve who fs dir) = Allow \<or>
      (\<exists>f \<in> set fs. po_decision (policy_resolve who fs dir) = finding_action who f)"
    unfolding po_decision_resolve by (rule strictest_attained)
qed (simp add: policy_resolve_def resolve_finding_def)

theorem policy_resolve_strictest_witness:
  "po_decision (policy_resolve (local_principal ''x'') [demo_finding] Request) = Redact"
  using policy_resolve_strictest [of "[demo_finding]" "local_principal ''x''" Request]
  by (auto simp: local_principal_unauthorized demo_finding_def to_metadata_def demo_rule_def)

section \<open>Redaction\<close>

text \<open>
  (C6) For findings whose spans lie in the text, \<open>redact_text\<close> (sort, drop overlaps, replace from
  right to left by byte ranges) writes the text from left to right with each kept span replaced by
  its mask, and fails or panics exactly as the first failing mask does.
\<close>

theorem redact_text_renders:
  assumes "str_ok input" and "\<forall>f \<in> set findings. rs_span_wf input f"
  shows "redact_text C U H tz rng input findings =
    rmap (\<lambda>rs. render input 0 (length input) (zip (select_findings findings) (rev rs)))
      (mask_all (finding_mask C U H tz rng) 0 (rev (select_findings findings)))"
  using assms by (rule redact_text_eq)

definition demo_resolved :: "nat \<Rightarrow> nat \<Rightarrow> string \<Rightarrow> resolved_finding" where
  "demo_resolved a b m =
     \<lparr>rs_label = ''L'', rs_rule_name = ''r'', rs_action = Redact, rs_effective_action = Redact,
      rs_pointer = ''/'', rs_severity = High, rs_masking = Placeholder, rs_matched_sha256 = [],
      rs_matched_len = length m, rs_start = a, rs_end = b, rs_matched = m\<rparr>"

lemma demo_resolved_simps [simp]:
  "rs_start (demo_resolved a b m) = a" "rs_end (demo_resolved a b m) = b"
  "rs_matched (demo_resolved a b m) = m" "rs_effective_action (demo_resolved a b m) = Redact"
  "rs_masking (demo_resolved a b m) = Placeholder" "rs_label (demo_resolved a b m) = ''L''"
  by (simp_all add: demo_resolved_def)

lemma demo_mask: "finding_mask C id_unicode H tz rng j (demo_resolved a b m) = Ok ''[L]''"
  by (simp add: finding_mask_def apply_mask_def id_unicode_def)

theorem redact_text_renders_witness:
  "redact_text toy_crypto id_unicode const_hash None (\<lambda>_. []) ''x a@b y'' [demo_resolved 2 5 ''a@b''] =
     Ok ''x [L] y''"
  using redact_text_renders [of "''x a@b y''" "[demo_resolved 2 5 ''a@b'']" toy_crypto id_unicode const_hash None "\<lambda>_. []"]
  by (simp add: rs_span_wf_def str_slice_def is_char_boundary_def is_cont_def select_findings_def
      demo_mask)

text \<open>
  When any two findings that overlap are nested or start together, every byte of a finding
  that is not allowed lies in a span that is replaced.
\<close>

theorem redaction_covers_nested_findings:
  assumes "laminar findings" and "\<forall>f \<in> set findings. rs_span_wf input f"
    and "f \<in> set findings" and "rs_effective_action f \<noteq> Allow" and "rs_start f \<le> i" and "i < rs_end f"
  shows "covered (select_findings findings) i"
  using assms by (rule select_findings_covered)

theorem redaction_covers_nested_findings_witness:
  "covered (select_findings [demo_resolved 1 2 ''b'', demo_resolved 0 3 ''abc'']) 1"
  by (rule redaction_covers_nested_findings [of _ "''abc''" "demo_resolved 1 2 ''b''"])
    (auto simp: laminar_def rs_span_wf_def str_slice_def is_char_boundary_def is_cont_def)

text \<open>
  Without that condition the end of a finding is left in clear: a finding that starts inside
  an earlier span and ends after it is dropped, and its last byte is copied to the output.
\<close>

theorem redaction_overlap_tail_in_clear:
  "redact_text toy_crypto id_unicode const_hash None (\<lambda>_. []) ''abcd''
     [demo_resolved 0 2 ''ab'', demo_resolved 1 4 ''bcd''] = Ok ''[L]cd''"
  by (simp add: redact_text_def select_findings_def redact_key_def sort_key_def insort_key_def demo_mask
      str_replace_range_def is_char_boundary_def is_cont_def)

text \<open>
  Redaction of well-placed findings panics only in the two masks that slice the match at byte
  offsets, \<open>partial_phone\<close> and \<open>keep_last4\<close>, and these panic exactly when an offset falls inside a
  character; a match in ASCII is always safe.
\<close>

theorem redaction_panics_only_at_split_characters:
  assumes "hash_sound H" and "str_ok input" and "\<forall>f \<in> set findings. rs_span_wf input f"
    and "redact_text C U H tz rng input findings = Panic"
  shows "\<exists>f \<in> set findings. rs_effective_action f \<noteq> Allow \<and> \<not> list_all is_ascii (rs_matched f) \<and>
    (rs_masking f = PartialPhone \<and> 7 \<le> length (rs_matched f) \<and>
       \<not> (is_char_boundary (rs_matched f) 3 \<and> is_char_boundary (rs_matched f) (length (rs_matched f) - 4)) \<or>
     rs_masking f = KeepLast4 \<and> 4 < length (rs_matched f) \<and>
       \<not> is_char_boundary (rs_matched f) (length (rs_matched f) - 4))"
proof -
  from assms redact_text_no_panic [OF assms(1,2), of findings C U tz rng]
  obtain f where f: "f \<in> set findings" "rs_effective_action f \<noteq> Allow" "\<not> mask_safe f" by blast
  then have "\<not> list_all is_ascii (rs_matched f)" using ascii_mask_safe by blast
  with f show ?thesis
    by (intro bexI [of _ f]) (auto simp: mask_safe_def partial_phone_None_iff keep_last4_None_iff)
qed

definition accent_text :: string where
  "accent_text = [CHR ''a'', CHR ''b'', CHR 0xC3, CHR 0xA9, CHR ''c'', CHR ''d'', CHR ''e'']"

definition accent_finding :: resolved_finding where
  "accent_finding = (demo_resolved 0 7 accent_text)\<lparr>rs_masking := KeepLast4\<rparr>"

theorem redaction_panics_only_at_split_characters_witness:
  "redact_text toy_crypto id_unicode const_hash None (\<lambda>_. []) accent_text [accent_finding] = Panic \<and>
   \<not> list_all is_ascii (rs_matched accent_finding)"
proof -
  have "redact_text toy_crypto id_unicode const_hash None (\<lambda>_. []) accent_text [accent_finding] = Panic"
    by (simp add: redact_text_def select_findings_def finding_mask_def apply_mask_def accent_finding_def
        accent_text_def keep_last4_def str_slice_def is_char_boundary_def is_cont_def)
  moreover from redaction_panics_only_at_split_characters [OF const_hash_sound _ _ this] show ?thesis
    by (simp add: rs_span_wf_def str_slice_def accent_finding_def accent_text_def is_cont_def
        redact_text_def select_findings_def finding_mask_def apply_mask_def keep_last4_def
        is_char_boundary_def)
qed

section \<open>Tokens\<close>

text \<open>
  (C36) A token issued by a tokenizer is read back as the label and the value it was made from,
  for every label whose upper-case form has no colon.
\<close>

theorem token_round_trip:
  assumes "crypto_sound C" and "from_key_material key prefix env = Ok t" and "length u = 16"
    and "CHR '':'' \<notin> set (uc_to_uppercase U label)" and "tokenize C U t u label v = Ok token"
  shows "detokenize C t token = Ok \<lparr>dv_label = label, dv_value = v\<rparr>"
  using assms by (intro detokenize_tokenize) (auto simp: from_key_material_Ok_iff)

definition demo_tokenizer :: tokenizer where
  "demo_tokenizer = \<lparr>tz_cipher = replicate 32 CHR ''k'', tz_token_prefix = ''CGT1'', tz_key_env = ''K''\<rparr>"

lemma demo_tokenizer_new: "from_key_material (replicate 32 CHR ''k'') ''CGT1'' ''K'' = Ok demo_tokenizer"
  by (simp add: from_key_material_def validate_prefix_def demo_tokenizer_def)

theorem token_round_trip_witness:
  "\<exists>token. tokenize toy_crypto id_unicode demo_tokenizer (replicate 16 CHR ''n'') ''email'' ''a@b'' = Ok token \<and>
     detokenize toy_crypto demo_tokenizer token = Ok \<lparr>dv_label = ''email'', dv_value = ''a@b''\<rparr>"
proof -
  obtain token where "tokenize toy_crypto id_unicode demo_tokenizer (replicate 16 CHR ''n'') ''email'' ''a@b'' = Ok token"
    by (simp add: tokenize_def toy_crypto_def)
  with token_round_trip [OF toy_crypto_sound demo_tokenizer_new _ _ this] show ?thesis
    by (simp add: id_unicode_def)
qed

text \<open>
  A label with a colon (and no full stop after it) gives tokens that cannot be read back.
\<close>

theorem token_colon_label_unreadable:
  assumes "from_key_material key prefix env = Ok t"
    and "uc_to_uppercase U label = a @ CHR '':'' # b" and "CHR '':'' \<notin> set a" and "CHR ''.'' \<notin> set b"
    and "tokenize C U t u label v = Ok token"
  shows "detokenize C t token = Err InvalidTokenFormat"
  using assms by (intro detokenize_tokenize_colon_label) (auto simp: from_key_material_Ok_iff)

theorem token_colon_label_unreadable_witness:
  "\<exists>token. tokenize toy_crypto id_unicode demo_tokenizer (replicate 16 CHR ''n'') ''a:b'' ''v'' = Ok token \<and>
     detokenize toy_crypto demo_tokenizer token = Err InvalidTokenFormat"
proof -
  obtain token where "tokenize toy_crypto id_unicode demo_tokenizer (replicate 16 CHR ''n'') ''a:b'' ''v'' = Ok token"
    by (simp add: tokenize_def toy_crypto_def)
  with token_colon_label_unreadable [OF demo_tokenizer_new, of id_unicode "''a:b''" "''a''" "''b''"] show ?thesis
    by (simp add: id_unicode_def)
qed

section \<open>JSON bodies\<close>

text \<open>
  Writing new strings back through the JSON pointers that \<open>collect_string_nodes\<close> produced
  replaces exactly the string nodes, in order, whatever characters the keys contain: the result
  has the same shape and the same pointers, and its strings are the new ones.
\<close>

theorem pointer_write_back:
  assumes "json_sound J" and "json_wf v" and "length rs = length (collect_string_nodes v [])"
  shows "json_shape (write_nodes (js_pointer_set J) (zip (map fst (collect_string_nodes v [])) rs) v) = json_shape v \<and>
    collect_string_nodes (write_nodes (js_pointer_set J) (zip (map fst (collect_string_nodes v [])) rs) v) [] =
      map2 refill_node (collect_string_nodes v []) rs"
  using assms
  by (simp add: write_back_refill json_shape_refill(1) collect_refill(1) length_token_nodes)

definition demo_json :: json where
  "demo_json = JObj [(''a/b~c'', JStr ''x''), (''n'', JArr [JNull, JStr ''y''])]"

theorem pointer_write_back_witness:
  "collect_string_nodes demo_json [] = [(''/a~1b~0c'', ''x''), (''/n/1'', ''y'')] \<and>
   collect_string_nodes (write_nodes rfc_pointer_set (zip [''/a~1b~0c'', ''/n/1''] [Some ''X'', None]) demo_json) [] =
     [(''/a~1b~0c'', ''X''), (''/n/1'', ''y'')]"
proof -
  have nodes: "collect_string_nodes demo_json [] = [(''/a~1b~0c'', ''x''), (''/n/1'', ''y'')]"
    by code_simp
  have "json_wf demo_json" by (simp add: demo_json_def)
  from pointer_write_back [OF one_json_sound [OF this, of "[]"] this, of "[Some ''X'', None]"] nodes show ?thesis
    by (simp add: one_json_def refill_node_def)
qed

text \<open>
  The scrubber of the browser extension changes only strings: the scrubbed value has the
  shape of the input, and each of its string nodes is the redaction of the string at the same
  pointer.
\<close>

theorem redact_value_only_strings:
  assumes "redact_value A d who v = Some v'"
  shows "json_shape v' = json_shape v \<and>
    list_all2 (\<lambda>n n'. fst n' = fst n \<and> redact_string A d who (snd n) = Some (snd n'))
      (collect_string_nodes v []) (collect_string_nodes v' [])"
  using redact_value_nodes(1) [OF assms, of "[]"] by (simp add: case_prod_unfold)

lemma demo_redact_string:
  "redact_string (toy_scan J) demo_detector (local_principal ''x'') ''x a@b y'' = Some ''x [email] y''"
  by (simp add: redact_string_def demo_scan redact_found_def policy_resolve_def resolve_finding_def
      finding_action_def authorized_def local_principal_def demo_finding_def to_metadata_def demo_rule_def
      redact_text_def select_findings_def finding_mask_def apply_mask_def id_unicode_def
      str_replace_range_def is_char_boundary_def is_cont_def)

theorem redact_value_only_strings_witness:
  "\<exists>v'. redact_value (toy_scan (one_json [] JNull)) demo_detector (local_principal ''x'') (JArr [JStr ''x a@b y'', JNull]) = Some v' \<and>
     json_shape v' = JArr [JStr [], JNull]"
proof -
  obtain v' where v': "redact_value (toy_scan (one_json [] JNull)) demo_detector (local_principal ''x'') (JArr [JStr ''x a@b y'', JNull]) = Some v'"
    by (simp add: demo_redact_string)
  have "json_shape v' = JArr [JStr [], JNull]"
    using redact_value_only_strings [OF v'] by simp
  with v' show ?thesis by blast
qed

text \<open>
  The scrubber has no tokenizer: a string whose one finding is to be tokenised is returned
  as it came, with the sensitive value in clear.
\<close>

theorem scrubber_tokenize_rule_in_clear:
  assumes "str_ok s" and "regex_sound (sc_regex A)"
    and "scan_text (sc_regex A) (sc_hash A) d s ''/'' = [f]"
    and "rm_masking (df_metadata f) = Tokenize" and "finding_action who f \<noteq> Allow"
  shows "redact_string A d who s = Some s"
  using assms by (rule redact_string_tokenize_unchanged)

definition token_detector :: detector where
  "token_detector = demo_detector\<lparr>dt_rules :=
     [\<lparr>cr_regex = ''a@b'', cr_metadata = (to_metadata demo_rule)\<lparr>rm_masking := Tokenize\<rparr>\<rparr>]\<rparr>"

theorem scrubber_tokenize_rule_in_clear_witness:
  "redact_string (toy_scan (one_json [] JNull)) token_detector (local_principal ''x'') ''x a@b y'' = Some ''x a@b y''"
proof -
  have scan: "scan_text lit_regex const_hash token_detector ''x a@b y'' ''/'' =
      [demo_finding\<lparr>df_metadata := (to_metadata demo_rule)\<lparr>rm_masking := Tokenize\<rparr>\<rparr>]"
    by (simp add: token_detector_def scan_text_def regex_findings_def entropy_findings_def demo_detector_def
        lit_regex_def lit_find_def starts_with_def str_slice_def is_char_boundary_def is_cont_def
        rule_spans_def span_finding_def detection_finding_new_def demo_finding_def sha256_hex_def const_hash_def)
  show ?thesis
    by (rule scrubber_tokenize_rule_in_clear)
      (simp_all add: lit_regex_sound scan is_cont_def local_principal_unauthorized, simp_all add: demo_finding_def to_metadata_def demo_rule_def)
qed

section \<open>Sessions\<close>

text \<open>
  (C35) In every state a session store can reach, recording labels for a session reports an
  escalation exactly when the labels it holds for that session within the time to live, together
  with the new ones, are at least the threshold in number; each label counts once.
\<close>

theorem session_escalation_exact:
  assumes "(session_step config)\<^sup>*\<^sup>* [] m" and "ss_enabled config" and "session_id \<noteq> []"
  shows "fst (record_and_check config now session_id labels m) \<longleftrightarrow>
    ss_correlation_threshold config \<le> card (live_labels config now m session_id \<union> set labels)"
  using session.reachable_invariant [OF refl assms(1)] assms(2,3) by (rule record_and_check_result)

definition demo_session :: session_config where
  "demo_session = \<lparr>ss_enabled = True, ss_header_name = ''x-session-id'', ss_ttl_secs = 60,
     ss_max_entries = 1, ss_correlation_threshold = 2, ss_trigger_action = Review\<rparr>"

theorem session_escalation_exact_witness:
  "fst (record_and_check demo_session 7 ''s'' [''a'', ''b''] []) \<and>
   \<not> fst (record_and_check demo_session 7 ''s'' [''a'', ''a''] [])"
proof -
  have "(session_step demo_session)\<^sup>*\<^sup>* [] []" by simp
  from session_escalation_exact [OF this, of "''s''" 7] show ?thesis
    by (simp add: demo_session_def live_labels_def)
qed

text \<open>
  A session store never holds more sessions than its limit (one at least), each under its
  own non-empty identifier and with each label once.
\<close>

theorem session_store_bounded:
  assumes "(session_step config)\<^sup>*\<^sup>* [] m"
  shows "length m \<le> max 1 (ss_max_entries config) \<and> distinct (map fst m) \<and>
    (\<forall>(k, e) \<in> set m. k \<noteq> [] \<and> distinct (se_labels e))"
  using session.reachable_invariant [OF refl assms] by (simp add: session_inv_def hm_wf_def)

theorem session_store_bounded_witness:
  "length (snd (record_and_check demo_session 8 ''t'' [''b''] (snd (record_and_check demo_session 7 ''s'' [''a''] [])))) \<le> 1"
proof -
  have "(session_step demo_session)\<^sup>*\<^sup>* []
      (snd (record_and_check demo_session 8 ''t'' [''b''] (snd (record_and_check demo_session 7 ''s'' [''a''] []))))"
    by (rule rtranclp.rtrancl_into_rtrancl [OF rtranclp.rtrancl_into_rtrancl [OF rtranclp.rtrancl_refl]])
      (rule session_step.touched, rule prod.collapse [symmetric])+
  from session_store_bounded [OF this] show ?thesis by (simp add: demo_session_def)
qed

end
