(* ===== verification/Mitm_Classify.thy ===== *)
theory Mitm_Classify
  imports Core_Session
begin

text \<open>
  \<open>src/mitm/classify.rs\<close>, \<open>src/mitm/ruleset.rs\<close> and the rule-set updater of
  \<open>src/proxy_mode.rs\<close>: host matching, the classifier built from the configuration or from a
  signed rule-set, the cache of pinned hosts, verification of the signed envelope, the bounded
  download and the polling loop. The regex crate, ed25519, hex and the JSON parsers are parameters.
\<close>

section \<open>Host patterns\<close>

record host_regex_api =
  hx_error :: "string \<Rightarrow> bool"
  hx_is_match :: "string \<Rightarrow> string \<Rightarrow> bool"

datatype matcher = MExact string | MWildcard string | MRegex string

definition matcher_compile :: "host_regex_api \<Rightarrow> host_pattern \<Rightarrow> matcher option" where
  "matcher_compile X pat =
     (case pat of
        Exact h \<Rightarrow> Some (MExact (to_ascii_lowercase h))
      | Wildcard h \<Rightarrow>
          Some (MWildcard (to_ascii_lowercase (case strip_prefix h ''*.'' of Some s \<Rightarrow> s | None \<Rightarrow> h)))
      | Regex r \<Rightarrow> if hx_error X r then None else Some (MRegex r))"

fun matcher_matches :: "host_regex_api \<Rightarrow> matcher \<Rightarrow> string \<Rightarrow> bool" where
  "matcher_matches X (MExact h) host \<longleftrightarrow> host = h"
| "matcher_matches X (MWildcard suffix) host \<longleftrightarrow>
     ends_with host suffix \<and> length host > length suffix \<and>
     host ! (length host - length suffix - 1) = CHR ''.''"
| "matcher_matches X (MRegex re) host \<longleftrightarrow> hx_is_match X re host"

definition compile_all :: "host_regex_api \<Rightarrow> host_pattern list \<Rightarrow> matcher list" where
  "compile_all X pats = List.map_filter (matcher_compile X) pats"

section \<open>The classifier\<close>

record ruleset =
  rl_version :: nat
  rl_intercept :: "host_pattern list"
  rl_passthrough :: "host_pattern list"
  rl_default_action :: proxy_action
  rl_signs_body :: "host_pattern list"

record classifier =
  cl_floor_intercept :: "matcher list"
  cl_intercept :: "matcher list"
  cl_passthrough :: "matcher list"
  cl_default :: proxy_action
  cl_signs_body :: "matcher list"

definition classifier_new ::
  "host_regex_api \<Rightarrow> host_pattern list \<Rightarrow> host_pattern list \<Rightarrow> host_pattern list \<Rightarrow> proxy_action \<Rightarrow>
     host_pattern list \<Rightarrow> classifier" where
  "classifier_new X floor_hosts intercept passthrough dflt signs =
     \<lparr>cl_floor_intercept = compile_all X floor_hosts, cl_intercept = compile_all X intercept,
      cl_passthrough = compile_all X passthrough, cl_default = dflt,
      cl_signs_body = compile_all X signs\<rparr>"

definition classifier_from_config :: "host_regex_api \<Rightarrow> proxy_config \<Rightarrow> classifier" where
  "classifier_from_config X cfg =
     classifier_new X [] (px_intercept cfg) (px_passthrough cfg) (px_default_action cfg) (px_signs_body cfg)"

definition classifier_from_ruleset :: "host_regex_api \<Rightarrow> ruleset \<Rightarrow> classifier" where
  "classifier_from_ruleset X rs =
     classifier_new X default_intercept_hosts (rl_intercept rs) (rl_passthrough rs)
       (rl_default_action rs) (default_signs_body_hosts @ rl_signs_body rs)"

definition normalize_host :: "string \<Rightarrow> string" where
  "normalize_host host = to_ascii_lowercase (trim_end_matches CHR ''.'' host)"

definition any_match :: "host_regex_api \<Rightarrow> matcher list \<Rightarrow> string \<Rightarrow> bool" where
  "any_match X ms host \<longleftrightarrow> (\<exists>m \<in> set ms. matcher_matches X m host)"

definition classify :: "host_regex_api \<Rightarrow> classifier \<Rightarrow> string \<Rightarrow> proxy_action" where
  "classify X c host0 =
     (let host = normalize_host host0 in
      if any_match X (cl_floor_intercept c) host then Intercept
      else if any_match X (cl_passthrough c) host then Passthrough
      else if any_match X (cl_intercept c) host then Intercept
      else cl_default c)"

definition signs_body :: "host_regex_api \<Rightarrow> classifier \<Rightarrow> string \<Rightarrow> bool" where
  "signs_body X c host0 \<longleftrightarrow> any_match X (cl_signs_body c) (normalize_host host0)"

section \<open>Pinned hosts\<close>

record pin_cache =
  pin_ttl :: nat
  pin_inner :: "(string \<times> string, nat) hmap"

definition pin_cache_new :: "proxy_config \<Rightarrow> pin_cache" where
  "pin_cache_new cfg = \<lparr>pin_ttl = duration_from_secs (pf_block_ttl_secs (px_pin_fallback cfg)), pin_inner = []\<rparr>"

definition pin_mark :: "nat \<Rightarrow> string \<Rightarrow> string \<Rightarrow> pin_cache \<Rightarrow> pin_cache" where
  "pin_mark now peer sni p =
     p\<lparr>pin_inner := hm_insert (peer, to_ascii_lowercase sni) (now + pin_ttl p) (pin_inner p)\<rparr>"

definition is_pinned :: "nat \<Rightarrow> string \<Rightarrow> string \<Rightarrow> pin_cache \<Rightarrow> bool \<times> pin_cache" where
  "is_pinned now peer sni p =
     (let key = (peer, to_ascii_lowercase sni) in
      case hm_get (pin_inner p) key of
        Some deadline \<Rightarrow>
          if deadline > now then (True, p) else (False, p\<lparr>pin_inner := hm_remove key (pin_inner p)\<rparr>)
      | None \<Rightarrow> (False, p))"

section \<open>Signed rule-sets\<close>

definition max_ruleset_bytes :: nat where
  "max_ruleset_bytes = 1024 * 1024"

record signed_ruleset =
  sr_ruleset :: string
  sr_signature :: string

datatype ruleset_error =
    TooLarge
  | Envelope string
  | Payload string
  | PublicKey
  | SignatureEncoding
  | SignatureInvalid

record sig_api =
  sg_envelope :: "string \<Rightarrow> string + signed_ruleset"
  sg_hex_decode :: "string \<Rightarrow> string option"
  sg_key_ok :: "string \<Rightarrow> bool"
  sg_verify :: "string \<Rightarrow> string \<Rightarrow> string \<Rightarrow> bool"
  sg_payload :: "string \<Rightarrow> string + ruleset"

definition decode_exact :: "sig_api \<Rightarrow> ruleset_error \<Rightarrow> nat \<Rightarrow> string \<Rightarrow> (ruleset_error, string) rres" where
  "decode_exact A err n s =
     rbind (ok_or err (sg_hex_decode A (trim s))) (\<lambda>b. if length b = n then Ok b else Err err)"

definition parse_and_verify :: "sig_api \<Rightarrow> string \<Rightarrow> string \<Rightarrow> (ruleset_error, ruleset) rres" where
  "parse_and_verify A bytes pubkey_hex =
     (if length bytes > max_ruleset_bytes then Err TooLarge
      else case sg_envelope A bytes of
          Inl e \<Rightarrow> Err (Envelope e)
        | Inr envelope \<Rightarrow>
            rbind (decode_exact A PublicKey 32 pubkey_hex) (\<lambda>key.
            if \<not> sg_key_ok A key then Err PublicKey
            else rbind (decode_exact A SignatureEncoding 64 (sr_signature envelope)) (\<lambda>sig.
            if \<not> sg_verify A key (sr_ruleset envelope) sig then Err SignatureInvalid
            else (case sg_payload A (sr_ruleset envelope) of Inl e \<Rightarrow> Err (Payload e) | Inr rs \<Rightarrow> Ok rs))))"

section \<open>The download and the polling loop\<close>

text \<open>A response: its declared length and its chunks, \<open>None\<close> for a chunk that fails.\<close>

record feed_response =
  fr_content_length :: "nat option"
  fr_chunks :: "string option list"

fun read_chunks :: "string \<Rightarrow> string option list \<Rightarrow> string option" where
  "read_chunks buf [] = Some buf"
| "read_chunks buf (None # cs) = None"
| "read_chunks buf (Some c # cs) =
     (if length buf + length c > max_ruleset_bytes then None else read_chunks (buf @ c) cs)"

definition fetch_ruleset :: "feed_response option \<Rightarrow> string option" where
  "fetch_ruleset resp =
     (case resp of
        None \<Rightarrow> None
      | Some r \<Rightarrow>
          (case fr_content_length r of
             Some len \<Rightarrow> if len > max_ruleset_bytes then None else read_chunks [] (fr_chunks r)
           | None \<Rightarrow> read_chunks [] (fr_chunks r)))"

record updater =
  ud_classifier :: classifier
  ud_current_version :: nat

definition updater_poll ::
  "host_regex_api \<Rightarrow> sig_api \<Rightarrow> string \<Rightarrow> feed_response option \<Rightarrow> updater \<Rightarrow> updater" where
  "updater_poll X A pubkey resp u =
     (case fetch_ruleset resp of
        None \<Rightarrow> u
      | Some bytes \<Rightarrow>
          (case parse_and_verify A bytes pubkey of
             Ok rs \<Rightarrow>
               if rl_version rs > ud_current_version u
               then \<lparr>ud_classifier = classifier_from_ruleset X rs, ud_current_version = rl_version rs\<rparr>
               else u
           | _ \<Rightarrow> u))"

definition updater_start :: "host_regex_api \<Rightarrow> proxy_config \<Rightarrow> updater" where
  "updater_start X cfg = \<lparr>ud_classifier = classifier_from_config X cfg, ud_current_version = 0\<rparr>"

section \<open>Matching\<close>

text \<open>A wildcard matches exactly the hosts with something and a dot before the suffix.\<close>

lemma wildcard_matches_iff:
  "matcher_matches X (MWildcard suffix) host \<longleftrightarrow> (\<exists>pre. host = pre @ CHR ''.'' # suffix)"
proof
  assume m: "matcher_matches X (MWildcard suffix) host"
  then obtain t where t: "host = t @ suffix" by (auto simp: ends_with_iff)
  with m have "t \<noteq> []" "t ! (length t - 1) = CHR ''.''" by (auto simp: nth_append)
  then have "t = butlast t @ [CHR ''.'']"
    by (metis append_butlast_last_id last_conv_nth)
  with t have "host = butlast t @ CHR ''.'' # suffix"
    by (metis append.assoc append_Cons append_Nil)
  then show "\<exists>pre. host = pre @ CHR ''.'' # suffix" ..
qed (auto simp: ends_with_iff nth_append)

lemma any_match_compile_all:
  "any_match X (compile_all X pats) host \<longleftrightarrow>
     (\<exists>pat \<in> set pats. \<exists>m. matcher_compile X pat = Some m \<and> matcher_matches X m host)"
  unfolding any_match_def compile_all_def map_filter_def by (auto; blast)

lemma any_match_append: "any_match X (ms @ ns) host \<longleftrightarrow> any_match X ms host \<or> any_match X ns host"
  by (auto simp: any_match_def)

lemma compile_all_append: "compile_all X (ps @ qs) = compile_all X ps @ compile_all X qs"
  by (simp add: compile_all_def map_filter_def)

text \<open>A host is read without trailing dots and in lower case.\<close>

lemma normalize_host_dot: "normalize_host (host @ ''.'') = normalize_host host"
  by (simp add: normalize_host_def)

lemma to_ascii_lowercase_dot: "byte_to_lower c = CHR ''.'' \<longleftrightarrow> c = CHR ''.''"
  by (cases c) (auto simp: byte_to_lower_def is_ascii_upper_def of_char_def)

lemma trim_end_matches_lower:
  "trim_end_matches CHR ''.'' (to_ascii_lowercase s) = to_ascii_lowercase (trim_end_matches CHR ''.'' s)"
  by (induction s rule: rev_induct)
    (auto simp: trim_end_matches_def to_ascii_lowercase_def to_ascii_lowercase_dot)

lemma normalize_host_lower: "normalize_host (to_ascii_lowercase host) = normalize_host host"
  by (simp add: normalize_host_def trim_end_matches_lower)

lemma classify_same_host:
  "normalize_host a = normalize_host b \<Longrightarrow> classify X c a = classify X c b \<and> signs_body X c a = signs_body X c b"
  by (simp add: classify_def signs_body_def)

section \<open>The floor of a rule-set classifier\<close>

definition baked_in_host :: "host_regex_api \<Rightarrow> string \<Rightarrow> bool" where
  "baked_in_host X host \<longleftrightarrow> any_match X (compile_all X default_intercept_hosts) (normalize_host host)"

lemma classify_from_ruleset_floor:
  "baked_in_host X host \<Longrightarrow> classify X (classifier_from_ruleset X rs) host = Intercept"
  by (simp add: baked_in_host_def classify_def classifier_from_ruleset_def classifier_new_def Let_def)

lemma classify_from_ruleset_other:
  "\<not> baked_in_host X host \<Longrightarrow> classify X (classifier_from_ruleset X rs) host =
     (if any_match X (compile_all X (rl_passthrough rs)) (normalize_host host) then Passthrough
      else if any_match X (compile_all X (rl_intercept rs)) (normalize_host host) then Intercept
      else rl_default_action rs)"
  by (simp add: baked_in_host_def classify_def classifier_from_ruleset_def classifier_new_def Let_def)

lemma signs_body_from_ruleset:
  "signs_body X (classifier_from_ruleset X rs) host \<longleftrightarrow>
     any_match X (compile_all X default_signs_body_hosts) (normalize_host host) \<or>
     any_match X (compile_all X (rl_signs_body rs)) (normalize_host host)"
  by (simp add: signs_body_def classifier_from_ruleset_def classifier_new_def compile_all_append any_match_append)

section \<open>Pins\<close>

lemma is_pinned_after_mark:
  "fst (is_pinned later peer sni (pin_mark now peer sni p)) \<longleftrightarrow> later < now + pin_ttl p"
  by (simp add: is_pinned_def pin_mark_def Let_def hm.get_insert)

lemma is_pinned_case: "is_pinned now peer (to_ascii_lowercase sni) p = is_pinned now peer sni p"
  by (simp add: is_pinned_def Let_def)

lemma is_pinned_unchanged_view:
  "fst (is_pinned later peer' sni' (snd (is_pinned now peer sni p))) = fst (is_pinned later peer' sni' p)"
  if "now \<le> later"
  using that by (auto simp: is_pinned_def Let_def hm.get_remove split: option.splits)

section \<open>The updater\<close>

lemma parse_and_verify_Ok:
  assumes "parse_and_verify A bytes pubkey = Ok rs"
  shows "length bytes \<le> max_ruleset_bytes \<and> (\<exists>env key sig. sg_envelope A bytes = Inr env \<and>
    sg_hex_decode A (trim pubkey) = Some key \<and> length key = 32 \<and> sg_key_ok A key \<and>
    sg_hex_decode A (trim (sr_signature env)) = Some sig \<and> length sig = 64 \<and>
    sg_verify A key (sr_ruleset env) sig \<and> sg_payload A (sr_ruleset env) = Inr rs)"
  using assms
  by (auto simp: parse_and_verify_def decode_exact_def rres_iffs split: if_split_asm sum.split_asm)

lemma read_chunks_bound:
  "length buf \<le> max_ruleset_bytes \<Longrightarrow> read_chunks buf cs = Some out \<Longrightarrow>
     length out \<le> max_ruleset_bytes \<and> (\<exists>ds. cs = map Some ds \<and> out = buf @ concat ds)"
proof (induction buf cs rule: read_chunks.induct)
  case (3 buf c cs)
  then obtain ds where "cs = map Some ds" "out = (buf @ c) @ concat ds" "length out \<le> max_ruleset_bytes"
    by (auto split: if_splits)
  then show ?case by (intro conjI exI [of _ "c # ds"]) auto
qed auto

lemma fetch_ruleset_bound:
  assumes "fetch_ruleset resp = Some bytes"
  shows "length bytes \<le> max_ruleset_bytes"
  using assms read_chunks_bound [of "[]" _ bytes]
  by (auto simp: fetch_ruleset_def split: option.split_asm if_split_asm)

text \<open>The state after some polls: the configuration's classifier, or that of a verified rule-set.\<close>

definition updater_inv :: "host_regex_api \<Rightarrow> sig_api \<Rightarrow> string \<Rightarrow> proxy_config \<Rightarrow> updater \<Rightarrow> bool" where
  "updater_inv X A pubkey cfg u \<longleftrightarrow> u = updater_start X cfg \<or>
     (\<exists>rs bytes. parse_and_verify A bytes pubkey = Ok rs \<and> 0 < rl_version rs \<and>
        u = \<lparr>ud_classifier = classifier_from_ruleset X rs, ud_current_version = rl_version rs\<rparr>)"

lemma updater_poll_cases:
  "updater_poll X A pubkey resp u = u \<or>
   (\<exists>bytes rs. parse_and_verify A bytes pubkey = Ok rs \<and> ud_current_version u < rl_version rs \<and>
      updater_poll X A pubkey resp u =
        \<lparr>ud_classifier = classifier_from_ruleset X rs, ud_current_version = rl_version rs\<rparr>)"
  by (auto simp: updater_poll_def split: option.split rres.split)

interpretation updates: transition_system "\<lambda>u. u = updater_start X cfg"
  "\<lambda>u v. \<exists>resp. v = updater_poll X A pubkey resp u" "updater_inv X A pubkey cfg"
  for X A pubkey cfg
proof (unfold_locales, goal_cases)
  case (1 u)
  then show ?case by (simp add: updater_inv_def)
next
  case (2 u v)
  then obtain resp where v: "v = updater_poll X A pubkey resp u" by blast
  from updater_poll_cases [of X A pubkey resp u] show ?case
  proof
    assume "updater_poll X A pubkey resp u = u"
    with 2(1) v show ?thesis by simp
  next
    assume "\<exists>bytes rs. parse_and_verify A bytes pubkey = Ok rs \<and> ud_current_version u < rl_version rs \<and>
      updater_poll X A pubkey resp u =
        \<lparr>ud_classifier = classifier_from_ruleset X rs, ud_current_version = rl_version rs\<rparr>"
    with v show ?thesis unfolding updater_inv_def by (metis gr_implies_not0 neq0_conv)
  qed
qed

lemma updater_poll_version: "ud_current_version u \<le> ud_current_version (updater_poll X A pubkey resp u)"
  by (auto simp: updater_poll_def split: option.split rres.split)

lemma updater_poll_same_version:
  "ud_current_version (updater_poll X A pubkey resp u) = ud_current_version u \<Longrightarrow>
     updater_poll X A pubkey resp u = u"
  by (auto simp: updater_poll_def split: option.splits rres.splits if_splits)

end
