(* ===== verification/Gw_Telemetry.thy ===== *)
theory Gw_Telemetry
  imports Gw_Pipeline Core_Session
begin

text \<open>
  What the handlers of \<open>src/proxy.rs\<close> share: the mutable state of the gateway, the audit records
  and metric events they emit, the names of actions and errors, the headers copied to and from the
  upstream, and the error responses. Metrics are the sequence of events sent to the registry.
\<close>

section \<open>State\<close>

datatype metric_event =
    MDetection string string
  | MProcessingFallback string
  | MReviewEvent string
  | MPolicyDecision string string string
  | MAuthFailure string
  | MProxyError string string
  | MUpdateSessions nat
  | MUpdateReviewQueue nat nat
  | MUpdateDependency string bool bool "int option"
  | MLlmRequest string
  | MLlmTokens string nat nat

record upstream_request =
  ur_method :: string
  ur_url :: string
  ur_headers :: header_map
  ur_body :: string

text \<open>The stores behind \<open>AppState\<close>, the metric events and the requests sent upstream so far.\<close>

record gw_state =
  gs_sessions :: session_store
  gs_reviews :: review_store
  gs_audit :: audit_sink
  gs_metrics :: "metric_event list"
  gs_sent :: "upstream_request list"

definition metric :: "metric_event \<Rightarrow> gw_state \<Rightarrow> gw_state" where
  "metric e s = s\<lparr>gs_metrics := gs_metrics s @ [e]\<rparr>"

definition emit_audit :: "audit_record \<Rightarrow> gw_state \<Rightarrow> gw_state" where
  "emit_audit r s = s\<lparr>gs_audit := audit_emit r (gs_audit s)\<rparr>"

section \<open>Names\<close>

fun action_name :: "decision_action \<Rightarrow> string" where
  "action_name Allow = ''allow''"
| "action_name Redact = ''redact''"
| "action_name Review = ''review''"
| "action_name Block = ''block''"

fun action_code :: "decision_action \<Rightarrow> string" where
  "action_code Allow = ''allow''"
| "action_code Redact = ''redact''"
| "action_code Review = ''review_required''"
| "action_code Block = ''blocked_sensitive_payload''"

fun decision_status :: "decision_action \<Rightarrow> nat" where
  "decision_status Allow = 200"
| "decision_status Redact = 200"
| "decision_status Review = 409"
| "decision_status Block = 403"

fun direction_name :: "direction \<Rightarrow> string" where
  "direction_name Request = ''request''"
| "direction_name Response = ''response''"

fun proxy_error_kind :: "app_error \<Rightarrow> string" where
  "proxy_error_kind (AttachmentErr _) = ''attachment''"
| "proxy_error_kind (PresidioErr _) = ''presidio''"
| "proxy_error_kind (OpaErr _) = ''opa''"
| "proxy_error_kind (TokenizationErr _) = ''tokenization''"
| "proxy_error_kind (DetectorErr _) = ''detector''"
| "proxy_error_kind (RuntimeIo _) = ''runtime_io''"
| "proxy_error_kind (InvalidUpstreamUrl _) = ''upstream_url''"
| "proxy_error_kind (AuthErr _) = ''auth''"
| "proxy_error_kind (ReviewStoreErr _) = ''review_store''"
| "proxy_error_kind (ConfigErr _) = ''config''"
| "proxy_error_kind (BuildClientErr _) = ''build_client''"
| "proxy_error_kind (MetricsErr _) = ''metrics''"
| "proxy_error_kind (AuditInitErr _) = ''audit''"
| "proxy_error_kind (BindErr _) = ''bind''"
| "proxy_error_kind (ServeErr _) = ''serve''"
| "proxy_error_kind ProxyConfigMissing = ''proxy_config_missing''"
| "proxy_error_kind (ProxyListenAddr _) = ''proxy_listen_addr''"
| "proxy_error_kind (CaErr _) = ''proxy_ca''"
| "proxy_error_kind (ProxyErr _) = ''proxy_serve''"

fun should_emit_request_pre_upstream_error_audit :: "app_error \<Rightarrow> bool" where
  "should_emit_request_pre_upstream_error_audit (AttachmentErr _) = True"
| "should_emit_request_pre_upstream_error_audit (PresidioErr _) = True"
| "should_emit_request_pre_upstream_error_audit (OpaErr _) = True"
| "should_emit_request_pre_upstream_error_audit (TokenizationErr _) = True"
| "should_emit_request_pre_upstream_error_audit (DetectorErr _) = True"
| "should_emit_request_pre_upstream_error_audit (ReviewStoreErr _) = True"
| "should_emit_request_pre_upstream_error_audit _ = False"

section \<open>Audit records\<close>

record audit_context =
  ax_request_id :: string
  ax_path_and_query :: string
  ax_session_id :: "string option"
  ax_session_escalated :: bool

definition audit_finding_of :: "resolved_finding \<Rightarrow> audit_finding" where
  "audit_finding_of f =
     \<lparr>af_label = rs_label f, af_rule_name = rs_rule_name f, af_action = action_name (rs_action f),
      af_pointer = rs_pointer f, af_severity = severity_name (rs_severity f),
      af_matched_sha256 = rs_matched_sha256 f, af_matched_len = rs_matched_len f\<rparr>"

definition build_audit_record ::
  "int \<Rightarrow> principal \<Rightarrow> direction \<Rightarrow> decision_action \<Rightarrow> policy_outcome \<Rightarrow> audit_context \<Rightarrow> nat option \<Rightarrow>
     audit_record" where
  "build_audit_record now who dir decision outcome ctx status_code =
     \<lparr>ar_ts = now, ar_request_id = ax_request_id ctx, ar_principal = pr_name who,
      ar_tenant_id = pr_tenant_id who, ar_direction = direction_name dir,
      ar_path = ax_path_and_query ctx, ar_decision = action_name decision,
      ar_policy_source = po_source outcome, ar_decision_reason = po_reason outcome,
      ar_matched_labels = map rs_label (po_findings outcome),
      ar_matched_rules = map rs_rule_name (po_findings outcome),
      ar_findings = map audit_finding_of (po_findings outcome), ar_session_id = ax_session_id ctx,
      ar_session_escalated = ax_session_escalated ctx, ar_status_code = status_code,
      ar_error_stage = None, ar_error_kind = None\<rparr>"

definition request_pre_upstream_error_reason :: "(app_error \<Rightarrow> string) \<Rightarrow> string \<Rightarrow> string \<Rightarrow> app_error \<Rightarrow> string" where
  "request_pre_upstream_error_reason err_text stage kind err = stage @ ''/'' @ kind @ '': '' @ err_text err"

definition build_request_pre_upstream_error_audit ::
  "(app_error \<Rightarrow> string) \<Rightarrow> int \<Rightarrow> principal \<Rightarrow> string \<Rightarrow> string \<Rightarrow> string option \<Rightarrow> string \<Rightarrow> string \<Rightarrow>
     app_error \<Rightarrow> audit_record" where
  "build_request_pre_upstream_error_audit err_text now who request_id path session_id stage kind err =
     \<lparr>ar_ts = now, ar_request_id = request_id, ar_principal = pr_name who,
      ar_tenant_id = pr_tenant_id who, ar_direction = ''request'', ar_path = path,
      ar_decision = ''block'', ar_policy_source = ''request_pre_upstream_error'',
      ar_decision_reason = Some (request_pre_upstream_error_reason err_text stage kind err),
      ar_matched_labels = [], ar_matched_rules = [], ar_findings = [], ar_session_id = session_id,
      ar_session_escalated = False, ar_status_code = Some 502, ar_error_stage = Some stage,
      ar_error_kind = Some kind\<rparr>"

section \<open>Metric events\<close>

definition emit_metrics_for_findings :: "direction \<Rightarrow> resolved_finding list \<Rightarrow> gw_state \<Rightarrow> gw_state" where
  "emit_metrics_for_findings dir findings s =
     fold (\<lambda>f. metric (MDetection (direction_name dir) (rs_label f))) findings s"

definition emit_processing_fallback_metric :: "string \<Rightarrow> gw_state \<Rightarrow> gw_state" where
  "emit_processing_fallback_metric source s =
     (if source \<in> {''attachment_review_fallback'', ''json_processing_error_fallback'',
         ''presidio_error_fallback'', ''processing_error_fallback'', ''opa_error_fallback'',
         ''builtin_fail_open''}
      then metric (MProcessingFallback source) s else s)"

definition emit_review_override_metric :: "string \<Rightarrow> gw_state \<Rightarrow> gw_state" where
  "emit_review_override_metric source s =
     (if source = ''review_override_approved'' then metric (MReviewEvent ''override_approved'') s
      else if source = ''review_override_rejected'' then metric (MReviewEvent ''override_rejected'') s
      else s)"

definition emit_decision_telemetry ::
  "int \<Rightarrow> principal \<Rightarrow> direction \<Rightarrow> string \<Rightarrow> string \<Rightarrow> policy_outcome \<Rightarrow> nat option \<Rightarrow> gw_state \<Rightarrow> gw_state" where
  "emit_decision_telemetry now who dir request_id path policy status_code s0 =
     (let s1 = emit_metrics_for_findings dir (po_findings policy) s0;
          ctx = \<lparr>ax_request_id = request_id, ax_path_and_query = path, ax_session_id = None,
                 ax_session_escalated = False\<rparr>;
          s2 = emit_audit (build_audit_record now who dir (po_decision policy) policy ctx status_code) s1;
          s3 = emit_processing_fallback_metric (po_source policy) s2
      in metric (MPolicyDecision (direction_name dir) (action_name (po_decision policy)) (po_source policy)) s3)"

section \<open>Headers and responses\<close>

definition hop_by_hop_headers :: "string list" where
  "hop_by_hop_headers = [''connection'', ''keep-alive'', ''proxy-authenticate'', ''proxy-authorization'',
     ''te'', ''trailers'', ''transfer-encoding'', ''upgrade'']"

definition body_size_headers :: "string list" where
  "body_size_headers = [''content-length'']"

text \<open>\<open>HeaderMap::insert\<close> replaces every value of the name; \<open>append\<close> adds one.\<close>

fun header_insert :: "string \<Rightarrow> string \<Rightarrow> header_map \<Rightarrow> header_map" where
  "header_insert n v [] = [(n, v)]"
| "header_insert n v ((m, w) # hs) =
     (if m = n then (n, v) # filter (\<lambda>(k, _). k \<noteq> n) hs else (m, w) # header_insert n v hs)"

definition header_remove :: "string \<Rightarrow> header_map \<Rightarrow> header_map" where
  "header_remove n hs = filter (\<lambda>(k, _). k \<noteq> n) hs"

definition copy_response_headers :: "header_map \<Rightarrow> header_map \<Rightarrow> header_map" where
  "copy_response_headers source target =
     fold (\<lambda>(n, v) t. if n \<in> set hop_by_hop_headers \<or> n \<in> set body_size_headers then t
                      else header_insert n v t) source target"

definition forward_header_map :: "http_api \<Rightarrow> header_map \<Rightarrow> string set \<Rightarrow> string \<Rightarrow> (string, string) hmap" where
  "forward_header_map W headers allowlist request_id =
     hm_insert ''x-request-id'' request_id
       (fold (\<lambda>(n, raw) fwd.
            let name = to_ascii_lowercase n in
            if name \<in> set hop_by_hop_headers \<or> name \<notin> allowlist then fwd
            else (case ht_to_str W raw of Some v \<Rightarrow> hm_insert name v fwd | None \<Rightarrow> fwd)) headers [])"

definition attach_forward_headers ::
  "http_api \<Rightarrow> header_map \<Rightarrow> string set \<Rightarrow> string \<Rightarrow> upstream_request \<Rightarrow> upstream_request" where
  "attach_forward_headers W headers allowlist request_id r =
     r\<lparr>ur_headers := ur_headers r @ forward_header_map W headers allowlist request_id\<rparr>"

record http_response =
  hr_status :: nat
  hr_headers :: header_map
  hr_body :: string

definition build_upstream_response :: "nat \<Rightarrow> header_map \<Rightarrow> string \<Rightarrow> (string \<times> string) option \<Rightarrow> http_response" where
  "build_upstream_response status headers body extra =
     \<lparr>hr_status = status,
      hr_headers = (case extra of
          Some (n, v) \<Rightarrow> header_insert n v (copy_response_headers headers [])
        | None \<Rightarrow> copy_response_headers headers []),
      hr_body = body\<rparr>"

definition gateway_error :: "json_api \<Rightarrow> nat \<Rightarrow> string \<Rightarrow> string \<Rightarrow> string option \<Rightarrow> http_response" where
  "gateway_error J status code message request_id =
     (let payload = JObj ((''error'', JObj [(''code'', JStr code), (''message'', JStr message)]) #
            (case request_id of Some r \<Rightarrow> [(''request_id'', JStr r)] | None \<Rightarrow> []))
      in \<lparr>hr_status = status, hr_headers = [(''content-type'', ''application/json'')],
          hr_body = (case js_print J payload of Some b \<Rightarrow> b | None \<Rightarrow> [])\<rparr>)"

definition sha256_hex_bytes :: "hash_api \<Rightarrow> string \<Rightarrow> string" where
  "sha256_hex_bytes H input = sha256_hex H input"

definition review_fingerprint :: "hash_api \<Rightarrow> principal \<Rightarrow> string \<Rightarrow> string \<Rightarrow> string" where
  "review_fingerprint H who path request_sha256 =
     sha256_hex_bytes H (pr_tenant_id who @ ''|'' @ path @ ''|'' @ request_sha256)"

definition preview_text :: "string \<Rightarrow> nat \<Rightarrow> string" where
  "preview_text input max_chars = concat (take max_chars (utf8_chars input))"

section \<open>What telemetry touches\<close>

named_theorems telemetry "effect of the metric and audit operations on the state"

lemma metric_state [telemetry]:
  "gs_sessions (metric e s) = gs_sessions s" "gs_reviews (metric e s) = gs_reviews s"
  "gs_audit (metric e s) = gs_audit s" "gs_sent (metric e s) = gs_sent s"
  by (simp_all add: metric_def)

lemma emit_audit_state [telemetry]:
  "gs_sessions (emit_audit r s) = gs_sessions s" "gs_reviews (emit_audit r s) = gs_reviews s"
  "gs_sent (emit_audit r s) = gs_sent s"
  "sk_channel (gs_audit (emit_audit r s)) = sk_channel (gs_audit s) @ [r]"
  by (simp_all add: emit_audit_def audit_emit_def)

lemma emit_metrics_for_findings_state [telemetry]:
  "gs_sessions (emit_metrics_for_findings dir fs s) = gs_sessions s"
  "gs_reviews (emit_metrics_for_findings dir fs s) = gs_reviews s"
  "gs_audit (emit_metrics_for_findings dir fs s) = gs_audit s"
  "gs_sent (emit_metrics_for_findings dir fs s) = gs_sent s"
  unfolding emit_metrics_for_findings_def by (induction fs arbitrary: s) (simp_all add: metric_state)

lemma emit_fallback_state [telemetry]:
  "gs_sessions (emit_processing_fallback_metric src s) = gs_sessions s"
  "gs_reviews (emit_processing_fallback_metric src s) = gs_reviews s"
  "gs_audit (emit_processing_fallback_metric src s) = gs_audit s"
  "gs_sent (emit_processing_fallback_metric src s) = gs_sent s"
  by (simp_all add: emit_processing_fallback_metric_def metric_state)

lemma emit_override_state [telemetry]:
  "gs_sessions (emit_review_override_metric src s) = gs_sessions s"
  "gs_reviews (emit_review_override_metric src s) = gs_reviews s"
  "gs_audit (emit_review_override_metric src s) = gs_audit s"
  "gs_sent (emit_review_override_metric src s) = gs_sent s"
  by (simp_all add: emit_review_override_metric_def metric_state)

lemma emit_decision_telemetry_state [telemetry]:
  "gs_sessions (emit_decision_telemetry now who dir rid path pol st s) = gs_sessions s"
  "gs_reviews (emit_decision_telemetry now who dir rid path pol st s) = gs_reviews s"
  "gs_sent (emit_decision_telemetry now who dir rid path pol st s) = gs_sent s"
  by (simp_all add: emit_decision_telemetry_def Let_def telemetry)

section \<open>What leaves the gateway in records and headers\<close>

text \<open>An audit record does not depend on the matched text, only on its digest and length.\<close>

definition forget_match :: "resolved_finding \<Rightarrow> resolved_finding" where
  "forget_match f = f\<lparr>rs_matched := []\<rparr>"

lemma build_audit_record_forget:
  "build_audit_record now who dir decision (outcome\<lparr>po_findings := map forget_match (po_findings outcome)\<rparr>) ctx st =
     build_audit_record now who dir decision outcome ctx st"
  by (simp add: build_audit_record_def forget_match_def audit_finding_of_def comp_def)

lemma hm_get_forward_fold:
  "hm_get (fold (\<lambda>(n, raw) fwd.
       let name = to_ascii_lowercase n in
       if name \<in> set hop_by_hop_headers \<or> name \<notin> allow then fwd
       else (case ht_to_str W raw of Some v \<Rightarrow> hm_insert name v fwd | None \<Rightarrow> fwd)) hs m) k = Some v \<Longrightarrow>
   hm_get m k = Some v \<or> (k \<in> allow \<and> k \<notin> set hop_by_hop_headers \<and>
     (\<exists>n raw. (n, raw) \<in> set hs \<and> k = to_ascii_lowercase n \<and> ht_to_str W raw = Some v))"
proof (induction hs arbitrary: m)
  case (Cons p hs)
  obtain n raw where p: "p = (n, raw)" by (cases p)
  let ?m = "(let name = to_ascii_lowercase n in
       if name \<in> set hop_by_hop_headers \<or> name \<notin> allow then m
       else (case ht_to_str W raw of Some v \<Rightarrow> hm_insert name v m | None \<Rightarrow> m))"
  from Cons.prems p have "hm_get ?m k = Some v \<or> (k \<in> allow \<and> k \<notin> set hop_by_hop_headers \<and>
     (\<exists>n raw. (n, raw) \<in> set hs \<and> k = to_ascii_lowercase n \<and> ht_to_str W raw = Some v))"
    by (intro Cons.IH) simp
  then show ?case using p
    by (auto simp: Let_def hm.get_insert split: if_splits option.splits)
qed simp

lemma forward_header_map_get:
  assumes "hm_get (forward_header_map W hs allow rid) k = Some v"
  shows "(k = ''x-request-id'' \<and> v = rid) \<or> (k \<in> allow \<and> k \<notin> set hop_by_hop_headers \<and>
    (\<exists>n raw. (n, raw) \<in> set hs \<and> k = to_ascii_lowercase n \<and> ht_to_str W raw = Some v))"
  using assms hm_get_forward_fold [of allow W hs "[]" k v]
  by (auto simp: forward_header_map_def hm.get_insert split: if_splits)

lemma forward_header_map_wf: "hm_wf (forward_header_map W hs allow rid)"
proof -
  have "hm_wf m \<Longrightarrow> hm_wf (fold (\<lambda>(n, raw) fwd.
       let name = to_ascii_lowercase n in
       if name \<in> set hop_by_hop_headers \<or> name \<notin> allow then fwd
       else (case ht_to_str W raw of Some v \<Rightarrow> hm_insert name v fwd | None \<Rightarrow> fwd)) hs m)" for m
    by (induction hs arbitrary: m) (auto simp: Let_def hm.wf_insert split: option.split)
  then show ?thesis unfolding forward_header_map_def by (intro hm.wf_insert) simp
qed

lemma header_get_insert: "header_get (header_insert n v hs) k = (if k = n then Some v else header_get hs k)"
proof (induction n v hs rule: header_insert.induct)
  case (2 n v m w hs)
  have "map_of (filter (\<lambda>(k, _). k \<noteq> n) hs) k = map_of hs k" if "k \<noteq> n"
    using that by (induction hs) auto
  with 2 show ?case by (auto simp: header_get_def)
qed (simp add: header_get_def)

text \<open>Of several values of one header, the client receives the last.\<close>

lemma copy_response_headers_get:
  "header_get (copy_response_headers src t) k =
     (if k \<in> set hop_by_hop_headers \<or> k \<in> set body_size_headers then header_get t k
      else (case map_of (rev src) k of Some v \<Rightarrow> Some v | None \<Rightarrow> header_get t k))"
  unfolding copy_response_headers_def
  by (induction src arbitrary: t) (auto simp: header_get_insert map_add_def split: option.splits)

end
