(* ===== verification/Gw_Sse.thy ===== *)
theory Gw_Sse
  imports Gw_Pipeline
begin

text \<open>
  The stream loop that \<open>response_from_sse_stream\<close> (\<open>src/proxy.rs\<close>) and \<open>redact_sse_stream\<close>
  (\<open>src/mitm/sse.rs\<close>) share: chunks are appended to a buffer, complete lines are taken from its
  front, decoded lossily and transformed, and what is left is flushed when the stream ends. The
  transformation of a line is an argument: it has the index of the line, a state and returns the
  line to send, \<open>None\<close> when it panics. The loop is shown not to depend on how the stream is cut
  into chunks.
\<close>

section \<open>Lines\<close>

abbreviation newline :: char where
  "newline \<equiv> CHR 0x0A"

text \<open>The inner loop: drain up to the first newline, as long as there is one.\<close>

function drain_lines :: "string \<Rightarrow> string list \<times> string" where
  "drain_lines buffer =
     (case split_once newline buffer of
        None \<Rightarrow> ([], buffer)
      | Some (a, b) \<Rightarrow> (let (ls, rest) = drain_lines b in ((a @ [newline]) # ls, rest)))"
  by pat_completeness auto
termination
  by (relation "measure length") (auto dest: split_once_SomeD)

declare drain_lines.simps [simp del]

type_synonym 's line_fn = "nat \<Rightarrow> string \<Rightarrow> 's \<Rightarrow> (string \<times> 's) option"

record 's sse_state =
  sq_index :: nat
  sq_user :: 's
  sq_out :: "string list"

fun sse_emit :: "'s line_fn \<Rightarrow> string list \<Rightarrow> 's sse_state \<Rightarrow> 's sse_state option" where
  "sse_emit tr [] q = Some q"
| "sse_emit tr (line # ls) q =
     (case tr (sq_index q) (from_utf8_lossy line) (sq_user q) of
        None \<Rightarrow> None
      | Some (l, u) \<Rightarrow> sse_emit tr ls \<lparr>sq_index = Suc (sq_index q), sq_user = u, sq_out = sq_out q @ [l]\<rparr>)"

text \<open>The outer loop over the chunks; a chunk that fails ends the stream (\<open>break\<close>).\<close>

fun sse_chunks :: "'s line_fn \<Rightarrow> string option list \<Rightarrow> string \<Rightarrow> 's sse_state \<Rightarrow> ('s sse_state \<times> string) option" where
  "sse_chunks tr [] buffer q = Some (q, buffer)"
| "sse_chunks tr (None # cs) buffer q = Some (q, buffer)"
| "sse_chunks tr (Some c # cs) buffer q =
     (let (ls, rest) = drain_lines (buffer @ c) in
      case sse_emit tr ls q of None \<Rightarrow> None | Some q' \<Rightarrow> sse_chunks tr cs rest q')"

definition sse_stream :: "'s line_fn \<Rightarrow> 's \<Rightarrow> string option list \<Rightarrow> 's sse_state option" where
  "sse_stream tr u chunks =
     (case sse_chunks tr chunks [] \<lparr>sq_index = 0, sq_user = u, sq_out = []\<rparr> of
        None \<Rightarrow> None
      | Some (q, buffer) \<Rightarrow> if buffer = [] then Some q else sse_emit tr [buffer] q)"

section \<open>Chunking does not matter\<close>

lemma drain_lines_concat:
  "drain_lines s = (ls, rest) \<Longrightarrow> s = concat ls @ rest \<and> newline \<notin> set rest"
proof (induction s arbitrary: ls rest rule: drain_lines.induct)
  case (1 s)
  show ?case
  proof (cases "split_once newline s")
    case None
    with "1.prems" show ?thesis by (subst (asm) drain_lines.simps) (auto simp: split_once_None_iff)
  next
    case (Some ab)
    obtain a b where ab: "ab = (a, b)" by (cases ab)
    obtain ls' rest' where d: "drain_lines b = (ls', rest')" by (cases "drain_lines b")
    with "1.prems" Some ab have "ls = (a @ [newline]) # ls'" "rest = rest'"
      by (simp_all add: drain_lines.simps [of s])
    with "1.IH" [OF Some] ab d Some show ?thesis by (auto dest: split_once_SomeD)
  qed
qed

lemma drain_lines_no_newline: "newline \<notin> set s \<Longrightarrow> drain_lines s = ([], s)"
  by (subst drain_lines.simps) (simp add: split_once_absent)

lemma drain_lines_line:
  "newline \<notin> set a \<Longrightarrow> drain_lines (a @ newline # b) = (let (ls, rest) = drain_lines b in ((a @ [newline]) # ls, rest))"
  by (subst drain_lines.simps) (simp add: split_once_append)

lemma drain_lines_append:
  "drain_lines s = (ls, rest) \<Longrightarrow>
     drain_lines (s @ t) = (let (ls', rest') = drain_lines (rest @ t) in (ls @ ls', rest'))"
proof (induction s arbitrary: ls rest rule: drain_lines.induct)
  case (1 s)
  show ?case
  proof (cases "split_once newline s")
    case None
    with "1.prems" show ?thesis
      by (simp add: drain_lines.simps [of s] split: prod.splits)
  next
    case (Some ab)
    obtain a b where ab: "ab = (a, b)" by (cases ab)
    obtain ls' rest' where d: "drain_lines b = (ls', rest')" by (cases "drain_lines b")
    with "1.prems" Some ab have l: "ls = (a @ [newline]) # ls'" "rest = rest'"
      by (simp_all add: drain_lines.simps [of s])
    have s: "s = a @ newline # b" "newline \<notin> set a"
      using Some ab by (auto dest: split_once_SomeD)
    have "drain_lines (b @ t) = (let (ls'', rest'') = drain_lines (rest' @ t) in (ls' @ ls'', rest''))"
      using "1.IH" [OF Some] ab d by simp
    with s l show ?thesis
      by (simp add: drain_lines_line split: prod.splits)
  qed
qed

lemma sse_emit_append:
  "sse_emit tr (ls @ ms) q = (case sse_emit tr ls q of None \<Rightarrow> None | Some q' \<Rightarrow> sse_emit tr ms q')"
  by (induction tr ls q rule: sse_emit.induct) (auto split: option.splits)

text \<open>The bytes that arrive before the stream ends or fails.\<close>

definition received :: "string option list \<Rightarrow> string" where
  "received chunks = concat (map the (takeWhile (\<lambda>c. c \<noteq> None) chunks))"

lemma sse_chunks_eq:
  "sse_chunks tr chunks buffer q =
     (let (ls, rest) = drain_lines (buffer @ received chunks) in
      map_option (\<lambda>q'. (q', rest)) (sse_emit tr ls q))"
  if "newline \<notin> set buffer"
  using that
proof (induction tr chunks buffer q rule: sse_chunks.induct)
  case (3 tr c cs buffer q)
  obtain ls rest where d: "drain_lines (buffer @ c) = (ls, rest)" by (cases "drain_lines (buffer @ c)")
  obtain ls' rest' where d': "drain_lines (rest @ received cs) = (ls', rest')"
    by (cases "drain_lines (rest @ received cs)")
  have "newline \<notin> set rest" using drain_lines_concat [OF d] by blast
  moreover have "drain_lines (buffer @ c @ received cs) = (ls @ ls', rest')"
    using drain_lines_append [OF d, of "received cs"] d' by simp
  ultimately show ?case
    using "3.IH" [OF d [symmetric] refl] d d'
    by (auto simp: received_def sse_emit_append split: option.splits)
qed (simp_all add: received_def drain_lines_no_newline)

text \<open>The specification: the lines of the received bytes, the unfinished last one included.\<close>

definition stream_lines :: "string \<Rightarrow> string list" where
  "stream_lines data = (let (ls, rest) = drain_lines data in ls @ (if rest = [] then [] else [rest]))"

lemma sse_stream_eq:
  "sse_stream tr u chunks =
     sse_emit tr (stream_lines (received chunks)) \<lparr>sq_index = 0, sq_user = u, sq_out = []\<rparr>"
  by (auto simp: sse_stream_def sse_chunks_eq stream_lines_def sse_emit_append Let_def
      split: prod.splits option.splits)

lemma concat_stream_lines: "concat (stream_lines data) = data"
  using drain_lines_concat by (auto simp: stream_lines_def split: prod.splits)

section \<open>Streams that carry a policy\<close>

text \<open>
  The interface of a line function to the stream loop: every line is sent as \<open>g\<close> says, and the
  outcome of the line is merged into the policy of the stream.
\<close>

locale policy_stream =
  fixes tr :: "'s line_fn" and pol :: "'s \<Rightarrow> policy_outcome"
    and g :: "nat \<Rightarrow> string \<Rightarrow> (string \<times> policy_outcome) option"
  assumes line_Some: "tr k line u = Some (out, u') \<Longrightarrow>
      \<exists>p. g k line = Some (out, p) \<and> pol u' = merge_policy_outcomes (pol u) p"
begin

lemma emit_trace:
  assumes "sse_emit tr ls q = Some q'"
  shows "\<exists>xs. length xs = length ls \<and> sq_out q' = sq_out q @ map fst xs \<and>
    (\<forall>i < length ls. g (sq_index q + i) (from_utf8_lossy (ls ! i)) = Some (xs ! i)) \<and>
    pol (sq_user q') = fold (\<lambda>x acc. merge_policy_outcomes acc (snd x)) xs (pol (sq_user q))"
  using assms
proof (induction ls arbitrary: q)
  case (Cons line ls)
  from Cons.prems obtain out u where t: "tr (sq_index q) (from_utf8_lossy line) (sq_user q) = Some (out, u)"
    and r: "sse_emit tr ls \<lparr>sq_index = Suc (sq_index q), sq_user = u, sq_out = sq_out q @ [out]\<rparr> = Some q'"
    by (auto split: option.splits)
  from line_Some [OF t] obtain p where p: "g (sq_index q) (from_utf8_lossy line) = Some (out, p)"
    "pol u = merge_policy_outcomes (pol (sq_user q)) p" by blast
  from Cons.IH [OF r] obtain xs where xs: "length xs = length ls" "sq_out q' = sq_out q @ out # map fst xs"
    "\<forall>i < length ls. g (Suc (sq_index q + i)) (from_utf8_lossy (ls ! i)) = Some (xs ! i)"
    "pol (sq_user q') = fold (\<lambda>x acc. merge_policy_outcomes acc (snd x)) xs (pol u)" by auto
  show ?case
  proof (intro exI [of _ "(out, p) # xs"] conjI allI impI)
    fix i assume "i < length (line # ls)"
    with xs(3) p(1) show "g (sq_index q + i) (from_utf8_lossy ((line # ls) ! i)) = Some (((out, p) # xs) ! i)"
      by (cases i) auto
  qed (use xs p in auto)
qed simp

lemma stream_trace:
  assumes "sse_stream tr u chunks = Some q"
  obtains xs where "length xs = length (stream_lines (received chunks))" and "sq_out q = map fst xs"
    and "\<And>i. i < length xs \<Longrightarrow> g i (from_utf8_lossy (stream_lines (received chunks) ! i)) = Some (xs ! i)"
    and "po_decision (pol (sq_user q)) = combine (po_decision (pol u)) (strictest (po_decision \<circ> snd) xs)"
    and "po_findings (pol (sq_user q)) = po_findings (pol u) @ concat (map (po_findings \<circ> snd) xs)"
  using emit_trace [OF assms [unfolded sse_stream_eq]]
  by (auto simp: fold_merge_decision fold_merge_findings)

end

text \<open>What every line keeps of the user state, the stream keeps.\<close>

lemma sse_emit_keeps:
  assumes "\<And>k line u out u'. tr k line u = Some (out, u') \<Longrightarrow> P u \<Longrightarrow> P u'"
    and "sse_emit tr ls q = Some q'" and "P (sq_user q)"
  shows "P (sq_user q')"
  using assms(2,3)
proof (induction ls arbitrary: q)
  case (Cons line ls)
  then show ?case using assms(1) by (fastforce split: option.splits)
qed simp

end
