(* ===== verification/Gw_Handler.thy ===== *)
theory Gw_Handler
  imports Gw_Telemetry Gw_Sse
begin

text \<open>
  The request handler of the reverse proxy, \<open>proxy_handler\<close> and \<open>handle_proxy\<close> of \<open>src/proxy.rs\<close>,
  with the response paths. Every store the handler touches is in the state it returns, and so is
  the list of requests sent upstream. The upstream, URL joining and the environment are parameters
  (\<open>net_api\<close>); the clocks give the reading at each call site. A response stream is followed to its
  end, where its audit record is written.
\<close>

section \<open>Parameters and results\<close>

datatype upstream_reply = SendFailed string | UpstreamReply nat header_map "string option list"

record net_api =
  na_url_join :: "string \<Rightarrow> string \<Rightarrow> string option"
  na_method :: "string \<Rightarrow> string + string"
  na_send :: "upstream_request \<Rightarrow> upstream_reply"
  na_env :: "string \<Rightarrow> string option"
  na_err_text :: "app_error \<Rightarrow> string"
  na_read_error_text :: string
  na_events :: event_api

record gw_clock =
  ck_utc :: "nat \<Rightarrow> int"
  ck_mono :: "nat \<Rightarrow> nat"

record gw_request =
  rq_method :: string
  rq_path_and_query :: string
  rq_headers :: header_map
  rq_body :: "string + string"

type_synonym 'a gw = "gw_state \<Rightarrow> (app_error, 'a) rres \<times> gw_state"

text \<open>The handler's sequencing: the state survives an early return.\<close>

definition gbind :: "'a gw \<Rightarrow> ('a \<Rightarrow> 'b gw) \<Rightarrow> 'b gw" where
  "gbind m f s =
     (case m s of (Ok x, s') \<Rightarrow> f x s' | (Err e, s') \<Rightarrow> (Err e, s') | (Panic, s') \<Rightarrow> (Panic, s'))"

definition glift :: "(app_error, 'a) rres \<Rightarrow> 'a gw" where
  "glift r s = (r, s)"

definition gdo :: "(gw_state \<Rightarrow> gw_state) \<Rightarrow> unit gw" where
  "gdo f s = (Ok (), f s)"

section \<open>The request side\<close>

text \<open>A header map is asked by name without regard to case.\<close>

definition header_str :: "http_api \<Rightarrow> header_map \<Rightarrow> string \<Rightarrow> string option" where
  "header_str W hs n = Option.bind (header_get hs (to_ascii_lowercase n)) (ht_to_str W)"

definition request_session_id :: "http_api \<Rightarrow> runtime_state \<Rightarrow> header_map \<Rightarrow> string option" where
  "request_session_id W rt headers =
     (if ss_enabled (cfg_session (run_config rt))
      then header_str W headers (ss_header_name (cfg_session (run_config rt))) else None)"

definition read_request_body :: "runtime_state \<Rightarrow> gw_request \<Rightarrow> (app_error, string) rres" where
  "read_request_body rt rq =
     (case rq_body rq of
        Inl e \<Rightarrow> Err (RuntimeIo (''failed reading request body: '' @ e))
      | Inr b \<Rightarrow> if length b \<le> srv_request_body_limit_bytes (cfg_server (run_config rt)) then Ok b
                 else Err (RuntimeIo ''failed reading request body: length limit exceeded''))"

text \<open>Recording the labels of the session, then the two gauges.\<close>

definition record_session ::
  "gw_clock \<Rightarrow> runtime_state \<Rightarrow> string option \<Rightarrow> policy_outcome \<Rightarrow> gw_state \<Rightarrow> bool \<times> gw_state" where
  "record_session K rt session_id policy s0 =
     (let cfg = cfg_session (run_config rt);
          (escalated, sessions1) = (case session_id of
              Some sid \<Rightarrow> record_and_check cfg (ck_mono K 0) sid (map rs_label (po_findings policy)) (gs_sessions s0)
            | None \<Rightarrow> (False, gs_sessions s0));
          (active, sessions2) = active_sessions cfg (ck_mono K 1) sessions1;
          s1 = metric (MUpdateSessions active) (s0\<lparr>gs_sessions := sessions2\<rparr>);
          (pending, reviews) = pending_count (ck_utc K 0) (gs_reviews s1)
      in (escalated, metric (MUpdateReviewQueue pending (rc_capacity (cfg_review (run_config rt))))
            (s1\<lparr>gs_reviews := reviews\<rparr>)))"

definition session_decision :: "runtime_state \<Rightarrow> bool \<Rightarrow> policy_outcome \<Rightarrow> policy_outcome" where
  "session_decision rt escalated policy =
     (if escalated
      then policy\<lparr>po_decision := combine (po_decision policy) (ss_trigger_action (cfg_session (run_config rt)))\<rparr>
      else policy)"

definition post_review_action :: "policy_outcome \<Rightarrow> decision_action" where
  "post_review_action policy = (if po_decision policy = Redact then Redact else Allow)"

definition review_ticket_header :: string where
  "review_ticket_header = ''x-review-ticket-id''"

text \<open>A ticket named by the caller is used when it is resolved and fits the request.\<close>

definition ticket_fits :: "principal \<Rightarrow> string \<Rightarrow> string \<Rightarrow> review_ticket \<Rightarrow> bool" where
  "ticket_fits who path request_sha256 t \<longleftrightarrow>
     rt_status t \<noteq> RPending \<and> rt_principal t = pr_name who \<and> rt_path t = path \<and>
     rt_request_sha256 t = request_sha256"

fun ticket_override :: "review_ticket \<Rightarrow> policy_outcome \<Rightarrow> policy_outcome" where
  "ticket_override t policy =
     (case rt_status t of
        RApproved \<Rightarrow> policy\<lparr>po_decision := rt_post_approval_action t, po_source := ''review_override_approved'',
          po_reason := Some (''request approved via review ticket '' @ rt_id t)\<rparr>
      | RRejected \<Rightarrow> policy\<lparr>po_decision := Block, po_source := ''review_override_rejected'',
          po_reason := Some (''request rejected via review ticket '' @ rt_id t)\<rparr>
      | RPending \<Rightarrow> policy)"

fun stored_override_policy :: "review_decision_override \<Rightarrow> policy_outcome \<Rightarrow> policy_outcome" where
  "stored_override_policy (OvApproved _ action _) policy =
     policy\<lparr>po_decision := action, po_source := ''review_override_approved'',
       po_reason := Some ''request previously approved by admin review''\<rparr>"
| "stored_override_policy (OvRejected _ _) policy =
     policy\<lparr>po_decision := Block, po_source := ''review_override_rejected'',
       po_reason := Some ''request previously rejected by admin review''\<rparr>"

definition apply_review_override ::
  "gw_api \<Rightarrow> gw_clock \<Rightarrow> principal \<Rightarrow> header_map \<Rightarrow> string \<Rightarrow> string \<Rightarrow> policy_outcome \<Rightarrow> gw_state \<Rightarrow>
     policy_outcome \<times> gw_state" where
  "apply_review_override G K who headers path request_sha256 policy s0 =
     (let fingerprint = review_fingerprint (sc_hash (ga_scan G)) who path request_sha256;
          (ticket, s1) = (case header_str (ga_http G) headers review_ticket_header of
              Some ticket_id \<Rightarrow>
                (let (t, reviews) = review_get (ck_utc K 1) ticket_id (gs_reviews s0)
                 in (t, s0\<lparr>gs_reviews := reviews\<rparr>))
            | None \<Rightarrow> (None, s0))
      in case (case ticket of
                 Some t \<Rightarrow> if ticket_fits who path request_sha256 t then Some t else None | None \<Rightarrow> None) of
           Some t \<Rightarrow> (ticket_override t policy, s1)
         | None \<Rightarrow>
             (let (ov, reviews) = lookup_override (ck_utc K 2) fingerprint (gs_reviews s1);
                  s2 = s1\<lparr>gs_reviews := reviews\<rparr>
              in (case ov of Some d \<Rightarrow> (stored_override_policy d policy, s2) | None \<Rightarrow> (policy, s2))))"

section \<open>Refusing a request\<close>

definition new_ticket_of ::
  "runtime_state \<Rightarrow> principal \<Rightarrow> audit_context \<Rightarrow> string \<Rightarrow> string \<Rightarrow> decision_action \<Rightarrow> string \<Rightarrow>
     policy_outcome \<Rightarrow> new_review_ticket" where
  "new_ticket_of rt who ctx request_sha256 sanitized_body post_action fingerprint policy =
     \<lparr>nt_request_id = ax_request_id ctx, nt_principal = pr_name who, nt_tenant_id = pr_tenant_id who,
      nt_direction = ''request'', nt_path = ax_path_and_query ctx, nt_policy_source = po_source policy,
      nt_decision_reason = po_reason policy, nt_matched_labels = map rs_label (po_findings policy),
      nt_matched_rules = map rs_rule_name (po_findings policy),
      nt_findings = map audit_finding_of (po_findings policy), nt_session_id = ax_session_id ctx,
      nt_session_escalated = ax_session_escalated ctx, nt_request_sha256 = request_sha256,
      nt_sanitized_preview = Some (preview_text
        (if utf8_valid sanitized_body then sanitized_body else ''[binary request body]'')
        (rc_preview_chars (cfg_review (run_config rt)))),
      nt_post_approval_action = post_action, nt_fingerprint = fingerprint\<rparr>"

text \<open>The ticket of a request that needs a review, and the reason that names it.\<close>

definition open_review_ticket ::
  "net_api \<Rightarrow> gw_clock \<Rightarrow> runtime_state \<Rightarrow> string option \<Rightarrow> string \<Rightarrow> new_review_ticket \<Rightarrow> policy_outcome \<Rightarrow>
     (string \<times> policy_outcome) gw" where
  "open_review_ticket N K rt io_error fresh n policy s0 =
     (case upsert_pending (na_events N) io_error (ck_utc K 3) fresh n (gs_reviews s0) of
        (Inl e, reviews) \<Rightarrow> (Err (ReviewStoreErr e), s0\<lparr>gs_reviews := reviews\<rparr>)
      | (Inr ticket, reviews) \<Rightarrow>
          (let s1 = metric (MReviewEvent ''created'') (s0\<lparr>gs_reviews := reviews\<rparr>);
               (pending, reviews2) = pending_count (ck_utc K 4) (gs_reviews s1);
               s2 = metric (MUpdateReviewQueue pending (rc_capacity (cfg_review (run_config rt))))
                      (s1\<lparr>gs_reviews := reviews2\<rparr>);
               reason = (case po_reason policy of Some r \<Rightarrow> r | None \<Rightarrow> ''admin approval required'')
           in (Ok (rt_id ticket, policy\<lparr>po_reason := Some (reason @ ''; review_ticket_id='' @ rt_id ticket)\<rparr>), s2)))"

definition emit_request_decision ::
  "gw_clock \<Rightarrow> principal \<Rightarrow> audit_context \<Rightarrow> policy_outcome \<Rightarrow> nat option \<Rightarrow> gw_state \<Rightarrow> gw_state" where
  "emit_request_decision K who ctx policy status s0 =
     (let s1 = emit_audit (build_audit_record (ck_utc K 5) who Request (po_decision policy) policy ctx status) s0;
          s2 = emit_processing_fallback_metric (po_source policy) s1;
          s3 = emit_review_override_metric (po_source policy) s2
      in metric (MPolicyDecision ''request'' (action_name (po_decision policy)) (po_source policy)) s3)"

definition review_response :: "json_api \<Rightarrow> string \<Rightarrow> string \<Rightarrow> decision_action \<Rightarrow> http_response" where
  "review_response J request_id ticket_id post_action =
     (let payload = JObj
            [(''error'', JObj [(''code'', JStr (action_code Review)),
               (''message'', JStr ''request requires admin approval before forwarding upstream'')]),
             (''request_id'', JStr request_id),
             (''review'', JObj [(''post_approval_action'', JStr (action_name post_action)),
               (''ticket_id'', JStr ticket_id)])]
      in \<lparr>hr_status = 409, hr_headers = [(''content-type'', ''application/json'')],
          hr_body = (case js_print J payload of Some b \<Rightarrow> b | None \<Rightarrow> [])\<rparr>)"

definition refuse_request ::
  "gw_api \<Rightarrow> net_api \<Rightarrow> gw_clock \<Rightarrow> runtime_state \<Rightarrow> string option \<Rightarrow> string \<Rightarrow> principal \<Rightarrow>
     audit_context \<Rightarrow> string \<Rightarrow> string \<Rightarrow> decision_action \<Rightarrow> policy_outcome \<Rightarrow> http_response gw" where
  "refuse_request G N K rt io_error fresh who ctx request_sha256 sanitized_body post_action policy =
     (if po_decision policy = Review
      then gbind (open_review_ticket N K rt io_error fresh
              (new_ticket_of rt who ctx request_sha256 sanitized_body post_action
                (review_fingerprint (sc_hash (ga_scan G)) who (ax_path_and_query ctx) request_sha256) policy)
              policy) (\<lambda>(ticket_id, policy').
           gbind (gdo (emit_request_decision K who ctx policy' (Some (decision_status Review)))) (\<lambda>_.
             glift (Ok (review_response (sc_json (ga_scan G)) (ax_request_id ctx) ticket_id post_action))))
      else gbind (gdo (emit_request_decision K who ctx policy (Some (decision_status (po_decision policy))))) (\<lambda>_.
             glift (Ok (gateway_error (sc_json (ga_scan G)) (decision_status (po_decision policy))
               (action_code (po_decision policy))
               ''request contains sensitive data not permitted by policy'' (Some (ax_request_id ctx))))))"

section \<open>The response side\<close>

definition response_from_buffered_body ::
  "gw_api \<Rightarrow> net_api \<Rightarrow> gw_clock \<Rightarrow> runtime_state \<Rightarrow> uuid_source \<Rightarrow> principal \<Rightarrow> audit_context \<Rightarrow> nat \<Rightarrow> header_map \<Rightarrow>
     string option \<Rightarrow> string option list \<Rightarrow> http_response gw" where
  "response_from_buffered_body G N K rt rng who ctx status headers content_type chunks s0 =
     (if None \<in> set chunks
      then (Ok (gateway_error (sc_json (ga_scan G)) 502 ''upstream_read_failed'' (na_read_error_text N)
             (Some (ax_request_id ctx))), s0)
      else
        let body = concat (map the chunks) in
        case (if rf_enabled (cfg_response_filtering (run_config rt))
              then unwrap_or_else (\<lambda>_. payload_error_fallback)
                (process_payload G rt rng who body content_type Response)
              else Some (payload_passthrough body)) of
          None \<Rightarrow> (Panic, s0)
        | Some processed \<Rightarrow>
            (let base = pp_policy processed;
                 s1 = emit_processing_fallback_metric (po_source base) s0
             in case finalize_response_policy G rt who (ax_path_and_query ctx) (ax_session_escalated ctx) base of
                  None \<Rightarrow> (Panic, s1)
                | Some final \<Rightarrow>
                    (let s2 = emit_metrics_for_findings Response (po_findings final) s1;
                         (body_out, decision) = resolve_buffered_response_body content_type body
                            (pp_sanitized_body processed) (po_decision base) (po_decision final);
                         s3 = emit_audit (build_audit_record (ck_utc K 6) who Response decision final ctx
                            (Some status)) s2;
                         s4 = (if po_source final \<noteq> po_source base
                               then emit_processing_fallback_metric (po_source final) s3 else s3);
                         s5 = metric (MPolicyDecision ''response'' (action_name decision) (po_source final)) s4
                     in (Ok (build_upstream_response status headers body_out
                          (Some (''x-privacy-gateway-action'', action_name decision))), s5))))"

text \<open>The line function of the stream: the policy so far is its state.\<close>

definition sse_line_fn ::
  "gw_api \<Rightarrow> runtime_state \<Rightarrow> uuid_source \<Rightarrow> principal \<Rightarrow> string \<Rightarrow> bool \<Rightarrow> policy_outcome line_fn" where
  "sse_line_fn G rt rng who path escalated k line acc =
     map_option (\<lambda>(l, policy). (l, merge_policy_outcomes acc policy))
       (transform_sse_line G rt (\<lambda>p. rng (k # p)) who path escalated line)"

definition response_from_sse_stream ::
  "gw_api \<Rightarrow> gw_clock \<Rightarrow> runtime_state \<Rightarrow> uuid_source \<Rightarrow> principal \<Rightarrow> audit_context \<Rightarrow> nat \<Rightarrow> header_map \<Rightarrow>
     string option list \<Rightarrow> http_response gw" where
  "response_from_sse_stream G K rt rng who ctx status headers chunks s0 =
     (case sse_stream (sse_line_fn G rt rng who (ax_path_and_query ctx) (ax_session_escalated ctx))
             allow_outcome chunks of
        None \<Rightarrow> (Panic, s0)
      | Some q \<Rightarrow>
          (let policy = sq_user q;
               s1 = emit_metrics_for_findings Response (po_findings policy) s0;
               decision = normalize_response_decision (po_decision policy);
               s2 = emit_processing_fallback_metric (po_source policy) s1;
               s3 = emit_audit (build_audit_record (ck_utc K 6) who Response decision policy ctx (Some status)) s2;
               s4 = metric (MPolicyDecision ''response'' (action_name decision) (po_source policy)) s3
           in (Ok (build_upstream_response status headers (concat (sq_out q))
                (Some (''x-privacy-gateway-action'', ''stream''))), s4)))"

section \<open>Forwarding\<close>

definition outbound_body :: "policy_outcome \<Rightarrow> string \<Rightarrow> string \<Rightarrow> string" where
  "outbound_body policy body sanitized = (if po_decision policy = Redact then sanitized else body)"

definition build_upstream_request ::
  "gw_api \<Rightarrow> net_api \<Rightarrow> runtime_state \<Rightarrow> string \<Rightarrow> gw_request \<Rightarrow> string \<Rightarrow>
     (app_error, upstream_request) rres" where
  "build_upstream_request G N rt request_id rq body =
     rbind (ok_or (InvalidUpstreamUrl (rq_path_and_query rq))
         (na_url_join N (run_upstream_base_url rt) (trim_start_matches_char CHR ''/'' (rq_path_and_query rq)))) (\<lambda>url.
     rbind (case na_method N (rq_method rq) of
         Inl e \<Rightarrow> Err (RuntimeIo (''invalid method for reqwest: '' @ e)) | Inr m \<Rightarrow> Ok m) (\<lambda>method.
     let up = cfg_upstream (run_config rt);
         r = attach_forward_headers (ga_http G) (rq_headers rq) (up_forward_headers up) request_id
               \<lparr>ur_method = method, ur_url = url, ur_headers = [], ur_body = body\<rparr>
     in Ok (case (up_auth_header up, up_auth_value_env up) of
          (Some name, Some env) \<Rightarrow>
            (case na_env N env of
               Some secret \<Rightarrow> r\<lparr>ur_headers := ur_headers r @ [(name, secret)]\<rparr> | None \<Rightarrow> r)
        | _ \<Rightarrow> r)))"

definition send_upstream :: "net_api \<Rightarrow> upstream_request \<Rightarrow> (nat \<times> header_map \<times> string option list) gw" where
  "send_upstream N r s =
     (case na_send N r of
        SendFailed e \<Rightarrow> (Err (RuntimeIo (''upstream request failed: '' @ e)), s\<lparr>gs_sent := gs_sent s @ [r]\<rparr>)
      | UpstreamReply status headers chunks \<Rightarrow> (Ok (status, headers, chunks), s\<lparr>gs_sent := gs_sent s @ [r]\<rparr>))"

definition forward_request ::
  "gw_api \<Rightarrow> net_api \<Rightarrow> gw_clock \<Rightarrow> runtime_state \<Rightarrow> uuid_source \<Rightarrow> principal \<Rightarrow> audit_context \<Rightarrow>
     gw_request \<Rightarrow> string \<Rightarrow> policy_outcome \<Rightarrow> http_response gw" where
  "forward_request G N K rt rng who ctx rq body policy =
     gbind (gdo (emit_request_decision K who ctx policy None)) (\<lambda>_.
     gbind (glift (build_upstream_request G N rt (ax_request_id ctx) rq body)) (\<lambda>r.
     gbind (send_upstream N r) (\<lambda>(status, headers, chunks).
       let content_type = header_str (ga_http G) headers ''content-type'' in
       if is_sse content_type \<and> rf_scan_sse (cfg_response_filtering (run_config rt))
       then response_from_sse_stream G K rt rng who ctx status headers chunks
       else response_from_buffered_body G N K rt rng who ctx status headers content_type chunks)))"

section \<open>The handler\<close>

text \<open>
  The decision on a request, up to the point where it is refused or forwarded: the payload is
  processed, the session recorded, the session trigger and OPA applied, and then the review
  override.
\<close>

record request_verdict =
  qv_body :: string
  qv_sanitized :: string
  qv_post_action :: decision_action
  qv_context :: audit_context
  qv_policy :: policy_outcome

definition decide_request ::
  "gw_api \<Rightarrow> gw_clock \<Rightarrow> runtime_state \<Rightarrow> uuid_source \<Rightarrow> principal \<Rightarrow> string \<Rightarrow> gw_request \<Rightarrow>
     request_verdict gw" where
  "decide_request G K rt rng who request_id rq =
     gbind (glift (read_request_body rt rq)) (\<lambda>body.
     gbind (glift (process_payload G rt (\<lambda>p. rng (1 # p)) who body
         (header_str (ga_http G) (rq_headers rq) ''content-type'') Request)) (\<lambda>processed.
     let sid = request_session_id (ga_http G) rt (rq_headers rq);
         path = rq_path_and_query rq;
         request_sha256 = sha256_hex_bytes (sc_hash (ga_scan G)) body
     in gbind (\<lambda>s. let (escalated, s') = record_session K rt sid (pp_policy processed) s in (Ok escalated, s')) (\<lambda>escalated.
     gbind (glift (apply_opa_policy G rt who Request path escalated
         (session_decision rt escalated (pp_policy processed)))) (\<lambda>policy.
     \<lambda>s. let (policy', s') = apply_review_override G K who (rq_headers rq) path request_sha256 policy s
         in (Ok \<lparr>qv_body = body, qv_sanitized = pp_sanitized_body processed,
               qv_post_action = post_review_action (pp_policy processed),
               qv_context = \<lparr>ax_request_id = request_id, ax_path_and_query = path, ax_session_id = sid,
                 ax_session_escalated = escalated\<rparr>,
               qv_policy = policy'\<rparr>, s')))))"

definition handle_proxy ::
  "gw_api \<Rightarrow> net_api \<Rightarrow> gw_clock \<Rightarrow> runtime_state \<Rightarrow> uuid_source \<Rightarrow> string option \<Rightarrow> principal \<Rightarrow> string \<Rightarrow>
     gw_request \<Rightarrow> http_response gw" where
  "handle_proxy G N K rt rng io_error who request_id rq =
     gbind (decide_request G K rt rng who request_id rq) (\<lambda>v.
     gbind (gdo (emit_metrics_for_findings Request (po_findings (qv_policy v)))) (\<lambda>_.
     if po_decision (qv_policy v) \<in> {Block, Review}
     then refuse_request G N K rt io_error (rng [2]) who (qv_context v)
            (sha256_hex_bytes (sc_hash (ga_scan G)) (qv_body v)) (qv_sanitized v) (qv_post_action v) (qv_policy v)
     else forward_request G N K rt (\<lambda>p. rng (3 # p)) who (qv_context v) rq
            (outbound_body (qv_policy v) (qv_body v) (qv_sanitized v)) (qv_policy v)))"

definition proxy_handler ::
  "gw_api \<Rightarrow> net_api \<Rightarrow> gw_clock \<Rightarrow> runtime_state \<Rightarrow> uuid_source \<Rightarrow> string option \<Rightarrow> gw_request \<Rightarrow>
     gw_state \<Rightarrow> http_response option \<times> gw_state" where
  "proxy_handler G N K rt rng io_error rq s0 =
     (let request_id = rng [0];
          session_id = header_str (ga_http G) (rq_headers rq) (ss_header_name (cfg_session (run_config rt)));
          J = sc_json (ga_scan G)
      in case authenticate (ga_http G) (sc_hash (ga_scan G)) (run_auth rt) (rq_headers rq) of
           Inl e \<Rightarrow>
             (Some (gateway_error J 401 ''unauthorized'' (na_err_text N (AuthErr e)) (Some request_id)),
              metric (MAuthFailure ''invalid_credentials'') s0)
         | Inr who \<Rightarrow>
             (case handle_proxy G N K rt rng io_error who request_id rq s0 of
                (Ok response, s1) \<Rightarrow> (Some response, s1)
              | (Err err, s1) \<Rightarrow>
                  (let kind = proxy_error_kind err;
                       s2 = metric (MProxyError ''request_pre_upstream'' kind) s1;
                       s3 = (if should_emit_request_pre_upstream_error_audit err
                             then emit_audit (build_request_pre_upstream_error_audit (na_err_text N) (ck_utc K 7)
                               who request_id (rq_path_and_query rq) session_id ''request_pre_upstream'' kind err) s2
                             else s2)
                   in (Some (gateway_error J 502 ''upstream_error'' (na_err_text N err) (Some request_id)), s3))
              | (Panic, s1) \<Rightarrow> (None, s1)))"

section \<open>Sequencing\<close>

lemma gbind_cases:
  assumes "gbind m f s = (r, s')"
  obtains (Ok) x s1 where "m s = (Ok x, s1)" and "f x s1 = (r, s')"
    | (Err) e where "m s = (Err e, s')" and "r = Err e"
    | (Panic) "m s = (Panic, s')" and "r = Panic"
  using assms by (auto simp: gbind_def split: prod.splits rres.splits)

lemma gbind_glift [simp]:
  "gbind (glift (Ok x)) f = f x" "gbind (glift (Err e)) f s = (Err e, s)" "gbind (glift Panic) f s = (Panic, s)"
  by (simp_all add: fun_eq_iff gbind_def glift_def)

lemma gbind_gdo [simp]: "gbind (gdo g) f s = f () (g s)"
  by (simp add: gbind_def gdo_def)

text \<open>A relation between the states before and after every outcome of an operation.\<close>

definition always :: "(gw_state \<Rightarrow> gw_state \<Rightarrow> bool) \<Rightarrow> 'a gw \<Rightarrow> bool" where
  "always R m \<longleftrightarrow> (\<forall>s. R s (snd (m s)))"

lemma always_bind:
  assumes "\<And>s t u. R s t \<Longrightarrow> R t u \<Longrightarrow> R s u" and "always R m" and "\<And>x. always R (f x)"
  shows "always R (gbind m f)"
  unfolding always_def
proof
  fix s
  show "R s (snd (gbind m f s))"
    using assms(2,3) by (cases "m s" rule: prod.exhaust; cases "fst (m s)")
      (auto simp: gbind_def always_def split: rres.splits intro: assms(1); metis assms(1) snd_conv)+
qed

lemma always_glift: "(\<And>s. R s s) \<Longrightarrow> always R (glift r)"
  by (simp add: always_def glift_def)

text \<open>Deciding sends nothing and writes no audit record, and keeps the review store's invariant.\<close>

definition quiet :: "gw_state \<Rightarrow> gw_state \<Rightarrow> bool" where
  "quiet s t \<longleftrightarrow> gs_sent t = gs_sent s \<and> gs_audit t = gs_audit s \<and>
     (review_inv (gs_reviews s) \<longrightarrow> review_inv (gs_reviews t)) \<and>
     ri_tickets (rv_inner (gs_reviews t)) = ri_tickets (rv_inner (gs_reviews s))"

lemma quiet_trans: "quiet s t \<Longrightarrow> quiet t u \<Longrightarrow> quiet s u"
  by (simp add: quiet_def)

lemma quiet_refl: "quiet s s"
  by (simp add: quiet_def)

lemma pending_count_state:
  "snd (pending_count now rv) = rv\<lparr>rv_inner := prune_expired_overrides now (rv_inner rv)\<rparr>"
  by (simp add: pending_count_def Let_def)

lemma review_get_state:
  "snd (review_get now k rv) = rv\<lparr>rv_inner := prune_expired_overrides now (rv_inner rv)\<rparr>"
  by (simp add: review_get_def Let_def)

lemma lookup_override_state:
  "snd (lookup_override now fp rv) = rv\<lparr>rv_inner := prune_expired_overrides now (rv_inner rv)\<rparr>"
  by (simp add: lookup_override_def Let_def)

lemma record_session_quiet: "quiet s (snd (record_session K rt sid policy s))"
  by (auto simp: quiet_def record_session_def Let_def telemetry pending_count_def review_inv_prune
      split: prod.splits)

lemma apply_review_override_quiet:
  "quiet s (snd (apply_review_override G K who headers path sha policy s))"
  by (auto simp: quiet_def apply_review_override_def Let_def review_get_def lookup_override_def
      review_inv_prune review_core_prune review_inv_def split: option.splits)

lemma always_quiet_bind:
  "always quiet m \<Longrightarrow> (\<And>x. always quiet (f x)) \<Longrightarrow> always quiet (gbind m f)"
  by (rule always_bind) (rule quiet_trans)

lemma always_quiet_step:
  "(\<And>s. quiet s (snd (g s))) \<Longrightarrow> always quiet (\<lambda>s. case g s of (a, s') \<Rightarrow> (h a, s'))"
  by (simp add: always_def case_prod_unfold)

lemma decide_request_quiet:
  assumes "decide_request G K rt rng who rid rq s = (r, s')"
  shows "quiet s s'"
proof -
  have "always quiet (decide_request G K rt rng who rid rq)"
    unfolding decide_request_def Let_def
    by (intro always_quiet_bind always_quiet_step always_glift quiet_refl
        record_session_quiet apply_review_override_quiet)
  then have "quiet s (snd (decide_request G K rt rng who rid rq s))" by (simp add: always_def)
  with assms show ?thesis by simp
qed

section \<open>Only what is allowed or redacted is sent\<close>

lemma open_review_ticket_sent:
  "open_review_ticket N K rt io fresh n policy s = (r, s') \<Longrightarrow> gs_sent s' = gs_sent s \<and> gs_audit s' = gs_audit s"
  by (auto simp: open_review_ticket_def Let_def telemetry split: prod.splits sum.splits)

lemma emit_request_decision_state [telemetry]:
  "gs_sent (emit_request_decision K who ctx policy st s) = gs_sent s"
  "gs_reviews (emit_request_decision K who ctx policy st s) = gs_reviews s"
  "sk_channel (gs_audit (emit_request_decision K who ctx policy st s)) =
     sk_channel (gs_audit s) @ [build_audit_record (ck_utc K 5) who Request (po_decision policy) policy ctx st]"
  by (simp_all add: emit_request_decision_def Let_def telemetry)

lemma refuse_request_sent:
  assumes "refuse_request G N K rt io fresh who ctx sha san post policy s = (r, s')"
  shows "gs_sent s' = gs_sent s"
  using assms
  by (auto simp: refuse_request_def glift_def gdo_def telemetry elim!: gbind_cases split: if_splits
      dest!: open_review_ticket_sent)

lemma response_from_buffered_body_sent:
  "response_from_buffered_body G N K rt rng who ctx status headers ct chunks s = (r, s') \<Longrightarrow> gs_sent s' = gs_sent s"
  by (auto simp: response_from_buffered_body_def Let_def telemetry split: option.splits if_splits prod.splits)

lemma response_from_sse_stream_sent:
  "response_from_sse_stream G K rt rng who ctx status headers chunks s = (r, s') \<Longrightarrow> gs_sent s' = gs_sent s"
  by (auto simp: response_from_sse_stream_def Let_def telemetry split: option.splits)

lemma send_upstream_sent:
  "send_upstream N r s = (res, s') \<Longrightarrow> s' = s\<lparr>gs_sent := gs_sent s @ [r]\<rparr>"
  by (auto simp: send_upstream_def split: upstream_reply.splits)

text \<open>The upstream request: the body as given, the allowed headers and the configured credential.\<close>

definition upstream_credential :: "net_api \<Rightarrow> upstream_config \<Rightarrow> header_map" where
  "upstream_credential N up =
     (case up_auth_header up of
        None \<Rightarrow> []
      | Some name \<Rightarrow> (case Option.bind (up_auth_value_env up) (na_env N) of
          None \<Rightarrow> [] | Some secret \<Rightarrow> [(name, secret)]))"

lemma build_upstream_request_Ok:
  assumes "build_upstream_request G N rt rid rq body = Ok r"
  shows "ur_body r = body \<and> ur_headers r =
    forward_header_map (ga_http G) (rq_headers rq) (up_forward_headers (cfg_upstream (run_config rt))) rid @
    upstream_credential N (cfg_upstream (run_config rt))"
proof -
  let ?up = "cfg_upstream (run_config rt)"
  from assms obtain url m where "r = (let q = attach_forward_headers (ga_http G) (rq_headers rq) (up_forward_headers ?up) rid
        \<lparr>ur_method = m, ur_url = url, ur_headers = [], ur_body = body\<rparr> in
      case (up_auth_header ?up, up_auth_value_env ?up) of
        (Some name, Some env) \<Rightarrow> (case na_env N env of
            Some secret \<Rightarrow> q\<lparr>ur_headers := ur_headers q @ [(name, secret)]\<rparr> | None \<Rightarrow> q)
      | _ \<Rightarrow> q)"
    unfolding build_upstream_request_def Let_def rres_iffs by blast
  then show ?thesis
    by (cases "up_auth_header ?up"; cases "up_auth_value_env ?up"; cases "na_env N (the (up_auth_value_env ?up))")
      (simp_all add: upstream_credential_def attach_forward_headers_def Let_def)
qed

lemma forward_request_sent:
  assumes "forward_request G N K rt rng who ctx rq body policy s = (res, s')"
  shows "gs_sent s' = gs_sent s \<or>
    (\<exists>r. build_upstream_request G N rt (ax_request_id ctx) rq body = Ok r \<and> gs_sent s' = gs_sent s @ [r])"
proof (cases "build_upstream_request G N rt (ax_request_id ctx) rq body")
  case (Ok r)
  let ?s = "emit_request_decision K who ctx policy None s"
  from assms Ok have "gbind (send_upstream N r) (\<lambda>(status, headers, chunks).
       let content_type = header_str (ga_http G) headers ''content-type'' in
       if is_sse content_type \<and> rf_scan_sse (cfg_response_filtering (run_config rt))
       then response_from_sse_stream G K rt rng who ctx status headers chunks
       else response_from_buffered_body G N K rt rng who ctx status headers content_type chunks) ?s = (res, s')"
    by (simp add: forward_request_def)
  then have "gs_sent s' = gs_sent ?s @ [r]"
    by (cases rule: gbind_cases)
      (auto simp: Let_def split: prod.splits if_splits
        dest!: send_upstream_sent response_from_sse_stream_sent response_from_buffered_body_sent)
  with Ok show ?thesis by (simp add: telemetry)
qed (use assms in \<open>auto simp: forward_request_def telemetry\<close>)

lemma handle_proxy_sent:
  assumes "handle_proxy G N K rt rng io who rid rq s = (res, s')"
  shows "gs_sent s' = gs_sent s \<or>
    (\<exists>v s1 r. decide_request G K rt rng who rid rq s = (Ok v, s1) \<and> po_decision (qv_policy v) \<in> {Allow, Redact} \<and>
      build_upstream_request G N rt (ax_request_id (qv_context v)) rq
        (outbound_body (qv_policy v) (qv_body v) (qv_sanitized v)) = Ok r \<and>
      gs_sent s' = gs_sent s @ [r])"
  using assms unfolding handle_proxy_def
proof (cases rule: gbind_cases)
  case (Ok v s1)
  have q: "gs_sent s1 = gs_sent s" using decide_request_quiet [OF Ok(1)] by (simp add: quiet_def)
  show ?thesis
  proof (cases "po_decision (qv_policy v) \<in> {Block, Review}")
    case True
    with Ok(2) q show ?thesis by (auto simp: telemetry dest!: refuse_request_sent)
  next
    case False
    then have "po_decision (qv_policy v) \<in> {Allow, Redact}" by (cases "po_decision (qv_policy v)") auto
    moreover from False Ok(2) q have "gs_sent s' = gs_sent s \<or>
        (\<exists>r. build_upstream_request G N rt (ax_request_id (qv_context v)) rq
          (outbound_body (qv_policy v) (qv_body v) (qv_sanitized v)) = Ok r \<and> gs_sent s' = gs_sent s @ [r])"
      by (auto simp: telemetry dest!: forward_request_sent)
    ultimately show ?thesis using Ok(1) by blast
  qed
qed (auto dest!: decide_request_quiet simp: quiet_def)

section \<open>The only way to a milder decision is an approved ticket\<close>

lemma session_decision_ge:
  "rank (po_decision base) \<le> rank (po_decision (session_decision rt escalated base)) \<and>
     po_findings (session_decision rt escalated base) = po_findings base"
  by (simp add: session_decision_def decisions.strictness_join)

text \<open>A ticket that stands behind an approved request.\<close>

definition approves :: "hash_api \<Rightarrow> principal \<Rightarrow> string \<Rightarrow> string \<Rightarrow> review_ticket \<Rightarrow> bool" where
  "approves H who path sha t \<longleftrightarrow> rt_status t = RApproved \<and>
     (rt_principal t = pr_name who \<and> rt_path t = path \<and> rt_request_sha256 t = sha \<or>
      rt_fingerprint t = review_fingerprint H who path sha)"

lemma ticket_override_cases:
  "rt_status t \<noteq> RPending \<Longrightarrow>
     rt_status t = RApproved \<and> po_decision (ticket_override t policy) = rt_post_approval_action t \<or>
     po_decision (ticket_override t policy) = Block"
  by (cases "rt_status t") auto

lemma apply_review_override_cases:
  assumes "review_inv (gs_reviews s)" and "apply_review_override G K who headers path sha policy s = (out, s')"
  shows "po_findings out = po_findings policy \<and> (out = policy \<or> po_decision out = Block \<or>
    (\<exists>k t. hm_get (ri_tickets (rv_inner (gs_reviews s))) k = Some t \<and>
       approves (sc_hash (ga_scan G)) who path sha t \<and> po_decision out = rt_post_approval_action t))"
proof -
  have find: "po_findings (ticket_override t policy) = po_findings policy" for t
    by (cases "rt_status t") simp_all
  have findo: "po_findings (stored_override_policy d policy) = po_findings policy" for d
    by (cases d) simp_all
  have stored: "po_decision (stored_override_policy d policy) = Block \<or>
      (\<exists>k t. hm_get (ri_tickets (rv_inner r)) k = Some t \<and>
       approves (sc_hash (ga_scan G)) who path sha t \<and>
       po_decision (stored_override_policy d policy) = rt_post_approval_action t)"
    if "review_inv r" "fst (lookup_override now (review_fingerprint (sc_hash (ga_scan G)) who path sha) r) = Some d"
    for r d now
    using lookup_override_backed [OF that] by (cases d) (auto simp: approves_def)
  let ?pruned = "\<lambda>now. (gs_reviews s)\<lparr>rv_inner := prune_expired_overrides now (rv_inner (gs_reviews s))\<rparr>"
  let ?fp = "review_fingerprint (sc_hash (ga_scan G)) who path sha"
  let ?ticket = "case header_str (ga_http G) headers review_ticket_header of
      Some i \<Rightarrow> fst (review_get (ck_utc K 1) i (gs_reviews s)) | None \<Rightarrow> None"
  let ?rv = "case header_str (ga_http G) headers review_ticket_header of
      Some i \<Rightarrow> ?pruned (ck_utc K 1) | None \<Rightarrow> gs_reviews s"
  have inv: "review_inv ?rv" using assms(1) by (auto simp: review_inv_prune split: option.split)
  have same: "ri_tickets (rv_inner ?rv) = ri_tickets (rv_inner (gs_reviews s))" by (auto split: option.split)
  have out: "out = (case (case ?ticket of Some t \<Rightarrow> if ticket_fits who path sha t then Some t else None | None \<Rightarrow> None) of
      Some t \<Rightarrow> ticket_override t policy
    | None \<Rightarrow> (case fst (lookup_override (ck_utc K 2) ?fp ?rv) of Some d \<Rightarrow> stored_override_policy d policy | None \<Rightarrow> policy))"
    using assms(2)
    by (auto simp: apply_review_override_def Let_def review_get_def lookup_override_def split: option.splits if_splits)
  show ?thesis
  proof (cases "case ?ticket of Some t \<Rightarrow> if ticket_fits who path sha t then Some t else None | None \<Rightarrow> None")
    case None
    with out have "out = (case fst (lookup_override (ck_utc K 2) ?fp ?rv) of Some d \<Rightarrow> stored_override_policy d policy | None \<Rightarrow> policy)"
      by simp
    with stored [OF inv] same findo show ?thesis by (auto split: option.splits)
  next
    case (Some t)
    then obtain i where i: "hm_get (ri_tickets (rv_inner (gs_reviews s))) i = Some t" and fits: "ticket_fits who path sha t"
      by (auto simp: review_get_def Let_def split: option.splits if_splits)
    from fits have "rt_status t \<noteq> RPending" by (simp add: ticket_fits_def)
    from ticket_override_cases [OF this, of policy] i fits out Some find show ?thesis
      by (auto simp: approves_def ticket_fits_def)
  qed
qed

lemma decide_request_OkE:
  assumes "decide_request G K rt rng who rid rq s = (Ok v, s1)"
  obtains body processed escalated s0 policy where "read_request_body rt rq = Ok body"
    and "process_payload G rt (\<lambda>p. rng (1 # p)) who body
         (header_str (ga_http G) (rq_headers rq) ''content-type'') Request = Ok processed"
    and "record_session K rt (request_session_id (ga_http G) rt (rq_headers rq)) (pp_policy processed) s = (escalated, s0)"
    and "apply_opa_policy G rt who Request (rq_path_and_query rq) escalated
         (session_decision rt escalated (pp_policy processed)) = Ok policy"
    and "apply_review_override G K who (rq_headers rq) (rq_path_and_query rq)
         (sha256_hex_bytes (sc_hash (ga_scan G)) body) policy s0 = (qv_policy v, s1)"
    and "qv_body v = body" and "qv_sanitized v = pp_sanitized_body processed"
    and "qv_context v = \<lparr>ax_request_id = rid, ax_path_and_query = rq_path_and_query rq,
          ax_session_id = request_session_id (ga_http G) rt (rq_headers rq), ax_session_escalated = escalated\<rparr>"
  using assms
  by (auto simp: decide_request_def Let_def glift_def elim!: gbind_cases split: prod.splits)

text \<open>
  Unless an approved ticket for this very request says otherwise, the decision is at least as
  strict as the one of the pipeline.
\<close>

lemma decide_request_ge:
  assumes "decide_request G K rt rng who rid rq s = (Ok v, s1)" and "review_inv (gs_reviews s)"
  shows "\<exists>processed. process_payload G rt (\<lambda>p. rng (1 # p)) who (qv_body v)
      (header_str (ga_http G) (rq_headers rq) ''content-type'') Request = Ok processed \<and>
    qv_sanitized v = pp_sanitized_body processed \<and> po_findings (qv_policy v) = po_findings (pp_policy processed) \<and>
    (rank (po_decision (pp_policy processed)) \<le> rank (po_decision (qv_policy v)) \<or>
     (\<exists>k t. hm_get (ri_tickets (rv_inner (gs_reviews s))) k = Some t \<and>
        approves (sc_hash (ga_scan G)) who (rq_path_and_query rq) (sha256_hex_bytes (sc_hash (ga_scan G)) (qv_body v)) t \<and>
        po_decision (qv_policy v) = rt_post_approval_action t))"
  using assms(1)
proof (cases rule: decide_request_OkE)
  case (1 body processed escalated s0 policy)
  have q: "quiet s s0" using record_session_quiet 1(3) by (metis snd_conv)
  then have inv: "review_inv (gs_reviews s0)" and same: "ri_tickets (rv_inner (gs_reviews s0)) = ri_tickets (rv_inner (gs_reviews s))"
    using assms(2) by (auto simp: quiet_def)
  have ge: "rank (po_decision (pp_policy processed)) \<le> rank (po_decision policy)"
    and fnd: "po_findings policy = po_findings (pp_policy processed)"
    using apply_opa_policy_ge [OF 1(4)] session_decision_ge [of "pp_policy processed" rt escalated] by auto
  have block: "rank d \<le> rank Block" for d by (cases d) simp_all
  from apply_review_override_cases [OF inv 1(5)] 1 ge fnd same block show ?thesis
    by (intro exI [of _ processed]) auto
qed

section \<open>The audit trail\<close>

abbreviation trail :: "gw_state \<Rightarrow> audit_record list" where
  "trail s \<equiv> sk_channel (gs_audit s)"

definition extends :: "gw_state \<Rightarrow> gw_state \<Rightarrow> bool" where
  "extends s s' \<longleftrightarrow> (\<exists>rest. trail s' = trail s @ rest)"

lemma response_from_buffered_body_extends:
  "response_from_buffered_body G N K rt rng who ctx status headers ct chunks s = (r, s') \<Longrightarrow> extends s s'"
  by (auto simp: response_from_buffered_body_def extends_def Let_def telemetry split: option.splits if_splits prod.splits)

lemma response_from_sse_stream_extends:
  "response_from_sse_stream G K rt rng who ctx status headers chunks s = (r, s') \<Longrightarrow> extends s s'"
  by (auto simp: response_from_sse_stream_def extends_def Let_def telemetry split: option.splits)

text \<open>A request that is forwarded has its decision on the trail before it is sent.\<close>

lemma forward_request_trail:
  assumes "forward_request G N K rt rng who ctx rq body policy s = (res, s')"
  shows "extends (emit_request_decision K who ctx policy None s) s'"
  using assms unfolding forward_request_def
  by (auto simp: glift_def extends_def Let_def elim!: gbind_cases split: if_splits
      dest!: send_upstream_sent response_from_sse_stream_extends response_from_buffered_body_extends)

text \<open>The record of a decision on a request: what it says is what was decided.\<close>

definition decision_recorded :: "principal \<Rightarrow> string \<Rightarrow> policy_outcome \<Rightarrow> audit_record \<Rightarrow> bool" where
  "decision_recorded who request_id policy entry \<longleftrightarrow>
     ar_request_id entry = request_id \<and> ar_principal entry = pr_name who \<and> ar_direction entry = ''request'' \<and>
     ar_decision entry = action_name (po_decision policy) \<and> ar_policy_source entry = po_source policy \<and>
     ar_findings entry = map audit_finding_of (po_findings policy) \<and> ar_error_stage entry = None \<and>
     ar_status_code entry =
       (if po_decision policy \<in> {Block, Review} then Some (decision_status (po_decision policy)) else None)"

lemma decision_recorded_built:
  "ax_request_id ctx = rid \<Longrightarrow> po_decision policy' = po_decision policy \<Longrightarrow> po_source policy' = po_source policy \<Longrightarrow>
     po_findings policy' = po_findings policy \<Longrightarrow>
     status = (if po_decision policy \<in> {Block, Review} then Some (decision_status (po_decision policy)) else None) \<Longrightarrow>
     decision_recorded who rid policy (build_audit_record now who Request (po_decision policy') policy' ctx status)"
  by (simp add: decision_recorded_def build_audit_record_def)

text \<open>A refused request has its decision on the trail, unless its review ticket could not be written.\<close>

lemma open_review_ticket_cases:
  assumes "open_review_ticket N K rt io fresh n policy s = (r, s')"
  shows "gs_audit s' = gs_audit s \<and> gs_sent s' = gs_sent s \<and>
    ((\<exists>e. r = Err (ReviewStoreErr e)) \<or> (\<exists>i reason. r = Ok (i, policy\<lparr>po_reason := reason\<rparr>)))"
  using assms by (auto simp: open_review_ticket_def Let_def telemetry split: prod.splits sum.splits)

lemma refuse_request_trail:
  assumes "refuse_request G N K rt io fresh who ctx sha san post policy s = (res, s')"
    and "po_decision policy \<in> {Block, Review}"
  shows "(\<exists>entry. trail s' = trail s @ [entry] \<and> decision_recorded who (ax_request_id ctx) policy entry) \<or>
    po_decision policy = Review \<and> trail s' = trail s \<and> (\<exists>e. res = Err (ReviewStoreErr e))"
proof (cases "po_decision policy = Review")
  case True
  with assms(1) have "gbind (open_review_ticket N K rt io fresh (new_ticket_of rt who ctx sha san post
        (review_fingerprint (sc_hash (ga_scan G)) who (ax_path_and_query ctx) sha) policy) policy) (\<lambda>(ticket_id, policy').
      gbind (gdo (emit_request_decision K who ctx policy' (Some (decision_status Review)))) (\<lambda>_.
        glift (Ok (review_response (sc_json (ga_scan G)) (ax_request_id ctx) ticket_id post)))) s = (res, s')"
    by (simp add: refuse_request_def)
  then show ?thesis
  proof (cases rule: gbind_cases)
    case (Ok x s1)
    from open_review_ticket_cases [OF Ok(1)] obtain i reason where
      x: "x = (i, policy\<lparr>po_reason := reason\<rparr>)" and same: "gs_audit s1 = gs_audit s" by auto
    from Ok(2) x same True have "trail s' = trail s @ [build_audit_record (ck_utc K 5) who Request
        (po_decision (policy\<lparr>po_reason := reason\<rparr>)) (policy\<lparr>po_reason := reason\<rparr>) ctx (Some (decision_status Review))]"
      by (auto simp: glift_def telemetry)
    with True show ?thesis by (intro disjI1 exI conjI) (assumption, rule decision_recorded_built, simp_all)
  next
    case (Err e)
    from open_review_ticket_cases [OF Err(1)] Err(2) True show ?thesis by auto
  next
    case Panic
    from open_review_ticket_cases [OF Panic(1)] show ?thesis by auto
  qed
next
  case False
  with assms(1) have "trail s' = trail s @ [build_audit_record (ck_utc K 5) who Request (po_decision policy) policy ctx
      (Some (decision_status (po_decision policy)))]"
    by (auto simp: refuse_request_def glift_def telemetry)
  with assms(2) show ?thesis by (intro disjI1 exI conjI) (assumption, rule decision_recorded_built, simp_all)
qed

lemma handle_proxy_trail:
  assumes "handle_proxy G N K rt rng io who rid rq s = (res, s')"
    and "decide_request G K rt rng who rid rq s = (Ok v, s1)"
  shows "((\<exists>entry rest. trail s' = trail s @ entry # rest \<and> decision_recorded who rid (qv_policy v) entry) \<or>
      po_decision (qv_policy v) = Review \<and> trail s' = trail s \<and> (\<exists>e. res = Err (ReviewStoreErr e))) \<and>
    (po_decision (qv_policy v) \<in> {Block, Review} \<longrightarrow> gs_sent s' = gs_sent s)"
proof -
  let ?s = "emit_metrics_for_findings Request (po_findings (qv_policy v)) s1"
  have q: "gs_sent s1 = gs_sent s" "gs_audit s1 = gs_audit s"
    using decide_request_quiet [OF assms(2)] by (simp_all add: quiet_def)
  have rid: "ax_request_id (qv_context v) = rid" using assms(2) by (cases rule: decide_request_OkE) simp
  show ?thesis
  proof (cases "po_decision (qv_policy v) \<in> {Block, Review}")
    case True
    with assms have r: "refuse_request G N K rt io (rng [2]) who (qv_context v)
        (sha256_hex_bytes (sc_hash (ga_scan G)) (qv_body v)) (qv_sanitized v) (qv_post_action v) (qv_policy v) ?s = (res, s')"
      by (simp add: handle_proxy_def gbind_def gdo_def)
    from refuse_request_sent [OF r] refuse_request_trail [OF r True] q rid show ?thesis by (auto simp: telemetry)
  next
    case False
    with assms have "forward_request G N K rt (\<lambda>p. rng (3 # p)) who (qv_context v) rq
        (outbound_body (qv_policy v) (qv_body v) (qv_sanitized v)) (qv_policy v) ?s = (res, s')"
      by (simp add: handle_proxy_def gbind_def gdo_def)
    from forward_request_trail [OF this] q obtain rest where "trail s' = trail s @
        build_audit_record (ck_utc K 5) who Request (po_decision (qv_policy v)) (qv_policy v) (qv_context v) None # rest"
      by (auto simp: extends_def telemetry)
    moreover have "decision_recorded who rid (qv_policy v)
        (build_audit_record (ck_utc K 5) who Request (po_decision (qv_policy v)) (qv_policy v) (qv_context v) None)"
      using False by (intro decision_recorded_built rid) simp_all
    ultimately show ?thesis using False by blast
  qed
qed

text \<open>The trail of every request, also of one that is answered with an error.\<close>

definition pre_upstream_skeleton ::
  "gw_api \<Rightarrow> net_api \<Rightarrow> gw_clock \<Rightarrow> runtime_state \<Rightarrow> principal \<Rightarrow> string \<Rightarrow> gw_request \<Rightarrow> app_error \<Rightarrow> audit_record" where
  "pre_upstream_skeleton G N K rt who request_id rq err =
     build_request_pre_upstream_error_audit (na_err_text N) (ck_utc K 7) who request_id (rq_path_and_query rq)
       (header_str (ga_http G) (rq_headers rq) (ss_header_name (cfg_session (run_config rt))))
       ''request_pre_upstream'' (proxy_error_kind err) err"

lemma proxy_handler_answers:
  assumes "authenticate (ga_http G) (sc_hash (ga_scan G)) (run_auth rt) (rq_headers rq) = Inr who"
    and "handle_proxy G N K rt rng io who (rng [0]) rq s = (res, s1)"
    and "proxy_handler G N K rt rng io rq s = (response, s')"
  shows "case res of
      Ok r \<Rightarrow> response = Some r \<and> s' = s1
    | Err err \<Rightarrow> (\<exists>r. response = Some r \<and> hr_status r = 502) \<and> gs_sent s' = gs_sent s1 \<and>
        trail s' = trail s1 @ (if should_emit_request_pre_upstream_error_audit err
          then [pre_upstream_skeleton G N K rt who (rng [0]) rq err] else [])
    | Panic \<Rightarrow> response = None \<and> s' = s1"
  using assms
  by (cases res) (auto simp: proxy_handler_def Let_def telemetry gateway_error_def pre_upstream_skeleton_def)

lemma handle_proxy_undecided:
  assumes "decide_request G K rt rng who rid rq s = (r, s1)" and "\<nexists>v. r = Ok v"
  shows "handle_proxy G N K rt rng io who rid rq s = ((case r of Err e \<Rightarrow> Err e | _ \<Rightarrow> Panic), s1) \<and> trail s1 = trail s \<and>
    gs_sent s1 = gs_sent s"
  using assms decide_request_quiet [OF assms(1)]
  by (cases r) (auto simp: handle_proxy_def gbind_def quiet_def)

section \<open>Responses\<close>

text \<open>
  The bytes of the upstream reach the client unchanged only when the pipeline and OPA both allow
  them; otherwise the client gets the redacted body or the fixed one.
\<close>

lemma response_from_buffered_body_cases:
  assumes "response_from_buffered_body G N K rt rng who ctx status headers ct (map Some bs) s = (res, s')"
  shows "case (if rf_enabled (cfg_response_filtering (run_config rt))
        then unwrap_or_else (\<lambda>_. payload_error_fallback) (process_payload G rt rng who (concat bs) ct Response)
        else Some (payload_passthrough (concat bs))) of
      None \<Rightarrow> res = Panic \<and> s' = s
    | Some processed \<Rightarrow> \<exists>final r entry.
        finalize_response_policy G rt who (ax_path_and_query ctx) (ax_session_escalated ctx) (pp_policy processed) = Some final \<and>
        res = Ok r \<and> hr_status r = status \<and>
        hr_body r = (if po_decision final = Allow then concat bs
                     else if rank (po_decision (pp_policy processed)) < rank (po_decision final) then generic_redacted_body ct
                     else pp_sanitized_body processed) \<and>
        (po_decision final = Allow \<longrightarrow> po_decision (pp_policy processed) = Allow) \<and>
        trail s' = trail s @ [entry] \<and> ar_request_id entry = ax_request_id ctx \<and> ar_direction entry = ''response'' \<and>
        ar_decision entry = (if po_decision final = Allow then ''allow'' else ''redact'') \<and>
        ar_findings entry = map audit_finding_of (po_findings (pp_policy processed))"
proof (cases "if rf_enabled (cfg_response_filtering (run_config rt))
      then unwrap_or_else (\<lambda>_. payload_error_fallback) (process_payload G rt rng who (concat bs) ct Response)
      else Some (payload_passthrough (concat bs))")
  case None
  with assms show ?thesis
    by (auto simp: response_from_buffered_body_def Let_def comp_def split: if_split_asm)
next
  case (Some processed)
  obtain final where f: "finalize_response_policy G rt who (ax_path_and_query ctx) (ax_session_escalated ctx)
      (pp_policy processed) = Some final"
    using finalize_response_policy_total by blast
  obtain body decision where b: "resolve_buffered_response_body ct (concat bs) (pp_sanitized_body processed)
      (po_decision (pp_policy processed)) (po_decision final) = (body, decision)" by fastforce
  note cases = resolve_buffered_response_body_cases [OF b]
  let ?entry = "build_audit_record (ck_utc K 6) who Response decision final ctx (Some status)"
  from assms f b Some have out: "\<exists>r. res = Ok r \<and> hr_status r = status \<and> hr_body r = body \<and> trail s' = trail s @ [?entry]"
    by (auto simp: response_from_buffered_body_def Let_def comp_def build_upstream_response_def telemetry)
  have "ar_decision ?entry = (if po_decision final = Allow then ''allow'' else ''redact'')"
    using cases by (simp add: build_audit_record_def normalize_response_decision_def)
  moreover have "ar_request_id ?entry = ax_request_id ctx" "ar_direction ?entry = ''response''"
    "ar_findings ?entry = map audit_finding_of (po_findings (pp_policy processed))"
    using finalize_response_policy_findings [OF f] by (simp_all add: build_audit_record_def)
  ultimately show ?thesis
    unfolding Some option.case
    using out f cases finalize_response_policy_Allow [OF f] by (auto intro!: exI [of _ final] exI [of _ ?entry])
qed

lemma response_from_buffered_body_unread:
  "None \<in> set chunks \<Longrightarrow> response_from_buffered_body G N K rt rng who ctx status headers ct chunks s =
     (Ok (gateway_error (sc_json (ga_scan G)) 502 ''upstream_read_failed'' (na_read_error_text N)
        (Some (ax_request_id ctx))), s)"
  by (simp add: response_from_buffered_body_def)

interpretation gateway_stream: policy_stream "sse_line_fn G rt rng who path escalated" "\<lambda>u. u"
  "\<lambda>k line. transform_sse_line G rt (\<lambda>p. rng (k # p)) who path escalated line"
  for G rt rng who path escalated
  by unfold_locales (auto simp: sse_line_fn_def)

end
