(* ===== verification/Mitm_Handler.thy ===== *)
theory Mitm_Handler
  imports Mitm_Classify Gw_Handler
begin

text \<open>
  The transparent proxy: \<open>src/mitm/mod.rs\<close> (the hooks \<open>should_intercept\<close>, \<open>handle_request\<close>,
  \<open>handle_response\<close>, \<open>handle_error\<close>), \<open>bridge.rs\<close>, \<open>sse.rs\<close> and \<open>usage.rs\<close>. The decompression of
  hudsucker is a parameter. A body is the list of its frames. A response stream is followed to its
  end, where its audit record is written.
\<close>

section \<open>Messages\<close>

datatype body_frame = DataFrame string | TrailersFrame | FrameError string

record mitm_request =
  mq_uri_host :: "string option"
  mq_path :: string
  mq_headers :: header_map
  mq_body :: "body_frame list"

record mitm_response =
  mr_status :: nat
  mr_headers :: header_map
  mr_body :: "body_frame list"

datatype request_or_response = ForwardRequest mitm_request | RespondWith mitm_response

record mitm_api =
  mi_hosts :: host_regex_api
  mi_decode_request :: "mitm_request \<Rightarrow> mitm_request option"
  mi_decode_response :: "mitm_response \<Rightarrow> mitm_response option"

fun collect_body :: "body_frame list \<Rightarrow> string + string" where
  "collect_body [] = Inr []"
| "collect_body (DataFrame d # fs) = (case collect_body fs of Inl e \<Rightarrow> Inl e | Inr b \<Rightarrow> Inr (d @ b))"
| "collect_body (TrailersFrame # fs) = collect_body fs"
| "collect_body (FrameError e # fs) = Inl e"

text \<open>The frames as the stream loop sees them: trailers are skipped (\<open>continue\<close>).\<close>

fun stream_chunks :: "body_frame list \<Rightarrow> string option list" where
  "stream_chunks [] = []"
| "stream_chunks (DataFrame d # fs) = Some d # stream_chunks fs"
| "stream_chunks (TrailersFrame # fs) = stream_chunks fs"
| "stream_chunks (FrameError e # fs) = None # stream_chunks fs"

section \<open>Usage\<close>

record usage =
  ug_model :: "string option"
  ug_prompt_tokens :: nat
  ug_completion_tokens :: nat

definition model_from_request :: "json_api \<Rightarrow> string \<Rightarrow> string option" where
  "model_from_request J body =
     Option.bind (js_parse J body) (\<lambda>v. Option.bind (json_get v ''model'') json_as_str)"

definition token_count :: "json \<Rightarrow> string \<Rightarrow> string \<Rightarrow> nat" where
  "token_count u k1 k2 =
     (case Option.bind (case json_get u k1 of Some x \<Rightarrow> Some x | None \<Rightarrow> json_get u k2) json_as_u64 of
        Some n \<Rightarrow> n | None \<Rightarrow> 0)"

definition usage_from_response :: "json_api \<Rightarrow> string \<Rightarrow> usage option" where
  "usage_from_response J body =
     Option.bind (js_parse J body) (\<lambda>v.
     Option.bind (json_get v ''usage'') (\<lambda>u.
       let model = Option.bind (json_get v ''model'') json_as_str;
           prompt = token_count u ''prompt_tokens'' ''input_tokens'';
           completion = token_count u ''completion_tokens'' ''output_tokens''
       in if prompt = 0 \<and> completion = 0 then None
          else Some \<lparr>ug_model = model, ug_prompt_tokens = prompt, ug_completion_tokens = completion\<rparr>))"

definition llm_tokens :: "usage \<Rightarrow> metric_event" where
  "llm_tokens u = MLlmTokens (case ug_model u of Some m \<Rightarrow> m | None \<Rightarrow> ''unknown'')
     (ug_prompt_tokens u) (ug_completion_tokens u)"

section \<open>Interception\<close>

definition request_host :: "http_api \<Rightarrow> string option \<Rightarrow> header_map \<Rightarrow> string" where
  "request_host W uri_host headers =
     (case uri_host of
        Some h \<Rightarrow> h
      | None \<Rightarrow> (case header_str W headers ''host'' of Some h \<Rightarrow> hd (split_on CHR '':'' h) | None \<Rightarrow> []))"

definition should_intercept ::
  "http_api \<Rightarrow> host_regex_api \<Rightarrow> classifier \<Rightarrow> nat \<Rightarrow> string \<Rightarrow> mitm_request \<Rightarrow> pin_cache \<Rightarrow> bool \<times> pin_cache" where
  "should_intercept W X cls now peer rq pins =
     (let host = request_host W (mq_uri_host rq) (mq_headers rq);
          (pinned, pins') = is_pinned now peer host pins
      in if pinned then (False, pins') else (classify X cls host = Intercept, pins'))"

section \<open>Requests\<close>

definition bad_gateway :: mitm_response where
  "bad_gateway = \<lparr>mr_status = 502, mr_headers = [], mr_body = [DataFrame ''ctxward: upstream error'']\<rparr>"

text \<open>The body of a blocked request, a JSON text; \<open>CHR 0x22\<close> is the double quote.\<close>

definition blocked_body :: string where
  "blocked_body =
     (let q = (\<lambda>s. CHR 0x22 # s @ [CHR 0x22]) in
      [CHR 0x7B] @ q ''error'' @ '':'' @ [CHR 0x7B] @ q ''type'' @ '':'' @ q ''blocked_by_ctxward'' @ '','' @
      q ''message'' @ '':'' @ q ''request blocked by privacy policy'' @ [CHR 0x7D, CHR 0x7D])"

definition blocked_response :: mitm_response where
  "blocked_response =
     \<lparr>mr_status = 403, mr_headers = [(''content-type'', ''application/json'')],
      mr_body = [DataFrame blocked_body]\<rparr>"

definition strip_framing_headers :: "header_map \<Rightarrow> header_map" where
  "strip_framing_headers headers = header_remove ''transfer-encoding'' (header_remove ''content-length'' headers)"

definition filter_body ::
  "gw_api \<Rightarrow> runtime_state \<Rightarrow> uuid_source \<Rightarrow> principal \<Rightarrow> header_map \<Rightarrow> body_frame list \<Rightarrow> direction \<Rightarrow>
     (app_error, string \<times> processed_payload) rres" where
  "filter_body G rt rng who headers body dir =
     rbind (case collect_body body of Inl e \<Rightarrow> Err (RuntimeIo e) | Inr raw \<Rightarrow> Ok raw) (\<lambda>raw.
       rmap (\<lambda>processed. (raw, processed))
         (process_payload G rt rng who raw (header_str (ga_http G) headers ''content-type'') dir))"

definition mitm_outbound ::
  "host_regex_api \<Rightarrow> classifier \<Rightarrow> string \<Rightarrow> string \<Rightarrow> string \<Rightarrow> string" where
  "mitm_outbound X cls host raw sanitized = (if signs_body X cls host \<and> sanitized \<noteq> raw then raw else sanitized)"

definition mitm_handle_request ::
  "gw_api \<Rightarrow> mitm_api \<Rightarrow> int \<Rightarrow> runtime_state \<Rightarrow> uuid_source \<Rightarrow> principal \<Rightarrow> classifier \<Rightarrow> mitm_request \<Rightarrow>
     gw_state \<Rightarrow> request_or_response option \<times> gw_state" where
  "mitm_handle_request G M now rt rng who cls rq0 s0 =
     (case mi_decode_request M rq0 of
        None \<Rightarrow> (Some (RespondWith bad_gateway), s0)
      | Some rq \<Rightarrow>
          let request_id = rng [0];
              host = request_host (ga_http G) (mq_uri_host rq) (mq_headers rq)
          in case filter_body G rt (\<lambda>p. rng (1 # p)) who (mq_headers rq) (mq_body rq) Request of
               Panic \<Rightarrow> (None, s0)
             | Err _ \<Rightarrow> (Some (RespondWith bad_gateway), s0)
             | Ok (raw, processed) \<Rightarrow>
                 (let s1 = (case model_from_request (sc_json (ga_scan G)) raw of
                        Some model \<Rightarrow> metric (MLlmRequest model) s0 | None \<Rightarrow> s0);
                      blocked = (po_decision (pp_policy processed) = Block);
                      s2 = emit_decision_telemetry now who Request request_id (mq_path rq) (pp_policy processed)
                             (if blocked then Some 403 else None) s1
                  in if blocked then (Some (RespondWith blocked_response), s2)
                     else (Some (ForwardRequest (rq\<lparr>mq_headers := strip_framing_headers (mq_headers rq),
                            mq_body := [DataFrame (mitm_outbound (mi_hosts M) cls host raw
                              (pp_sanitized_body processed))]\<rparr>)), s2)))"

section \<open>Streams\<close>

text \<open>The state of the stream loop: the policy so far, whether usage was counted, and the events.\<close>

record stream_state =
  tr_policy :: policy_outcome
  tr_metered :: bool
  tr_events :: "metric_event list"

definition meter_sse_usage :: "json_api \<Rightarrow> string \<Rightarrow> stream_state \<Rightarrow> stream_state" where
  "meter_sse_usage J line t =
     (if tr_metered t \<or> \<not> starts_with line ''data:'' then t
      else
        let payload = trim (trim_start_matches ''data:'' line) in
        if payload = [] \<or> payload = ''[DONE]'' then t
        else (case usage_from_response J payload of
            Some u \<Rightarrow> t\<lparr>tr_metered := True, tr_events := tr_events t @ [llm_tokens u]\<rparr>
          | None \<Rightarrow> t))"

definition mitm_line_fn :: "gw_api \<Rightarrow> runtime_state \<Rightarrow> uuid_source \<Rightarrow> principal \<Rightarrow> stream_state line_fn" where
  "mitm_line_fn G rt rng who k line t0 =
     (let t = meter_sse_usage (sc_json (ga_scan G)) line t0 in
      map_option (\<lambda>(l, policy). (l, t\<lparr>tr_policy := merge_policy_outcomes (tr_policy t) policy\<rparr>))
        (transform_sse_line G rt (\<lambda>p. rng (k # p)) who ''/sse'' False line))"

definition redact_sse_stream ::
  "gw_api \<Rightarrow> int \<Rightarrow> runtime_state \<Rightarrow> uuid_source \<Rightarrow> principal \<Rightarrow> body_frame list \<Rightarrow> gw_state \<Rightarrow>
     string list option \<times> gw_state" where
  "redact_sse_stream G now rt rng who body s0 =
     (case sse_stream (mitm_line_fn G rt rng who)
             \<lparr>tr_policy = allow_outcome, tr_metered = False, tr_events = []\<rparr> (stream_chunks body) of
        None \<Rightarrow> (None, s0)
      | Some q \<Rightarrow>
          (let s1 = fold metric (tr_events (sq_user q)) s0
           in (Some (sq_out q),
               emit_decision_telemetry now who Response [] ''/sse'' (tr_policy (sq_user q)) None s1)))"

definition mitm_handle_response ::
  "gw_api \<Rightarrow> mitm_api \<Rightarrow> int \<Rightarrow> runtime_state \<Rightarrow> uuid_source \<Rightarrow> principal \<Rightarrow> mitm_response \<Rightarrow> gw_state \<Rightarrow>
     mitm_response option \<times> gw_state" where
  "mitm_handle_response G M now rt rng who res0 s0 =
     (if is_sse (header_str (ga_http G) (mr_headers res0) ''content-type'')
      then (if \<not> rf_enabled (cfg_response_filtering (run_config rt)) \<or>
               \<not> rf_scan_sse (cfg_response_filtering (run_config rt))
            then (Some res0, s0)
            else (let (out, s1) = redact_sse_stream G now rt rng who (mr_body res0) s0
                  in (map_option (\<lambda>ls. res0\<lparr>mr_body := map DataFrame ls\<rparr>) out, s1)))
      else case mi_decode_response M res0 of
          None \<Rightarrow> (Some bad_gateway, s0)
        | Some res \<Rightarrow>
            (case filter_body G rt rng who (mr_headers res) (mr_body res) Response of
               Panic \<Rightarrow> (None, s0)
             | Err _ \<Rightarrow> (Some bad_gateway, s0)
             | Ok (raw, processed) \<Rightarrow>
                 (let s1 = (case usage_from_response (sc_json (ga_scan G)) raw of
                        Some u \<Rightarrow> metric (llm_tokens u) s0 | None \<Rightarrow> s0);
                      s2 = emit_decision_telemetry now who Response [] [] (pp_policy processed)
                             (Some (mr_status res)) s1
                  in (Some (res\<lparr>mr_headers := strip_framing_headers (mr_headers res),
                        mr_body := [DataFrame (pp_sanitized_body processed)]\<rparr>), s2))))"

definition handle_error :: mitm_response where
  "handle_error = bad_gateway"

section \<open>Interception\<close>

lemma should_intercept_eq:
  "fst (should_intercept W X cls now peer rq pins) \<longleftrightarrow>
     \<not> fst (is_pinned now peer (request_host W (mq_uri_host rq) (mq_headers rq)) pins) \<and>
     classify X cls (request_host W (mq_uri_host rq) (mq_headers rq)) = Intercept"
  by (simp add: should_intercept_def Let_def split: prod.split)

section \<open>Requests\<close>

lemma emit_decision_telemetry_trail [telemetry]:
  "sk_channel (gs_audit (emit_decision_telemetry now who dir rid path pol st s)) =
     sk_channel (gs_audit s) @ [build_audit_record now who dir (po_decision pol) pol
       \<lparr>ax_request_id = rid, ax_path_and_query = path, ax_session_id = None, ax_session_escalated = False\<rparr> st]"
  by (simp add: emit_decision_telemetry_def Let_def telemetry)

lemma fold_metric_state [telemetry]:
  "gs_audit (fold metric es s) = gs_audit s"
  by (induction es arbitrary: s) (simp_all add: telemetry)

lemma filter_body_Ok:
  "filter_body G rt rng who headers body dir = Ok (raw, p) \<longleftrightarrow>
     collect_body body = Inr raw \<and>
     process_payload G rt rng who raw (header_str (ga_http G) headers ''content-type'') dir = Ok p"
  by (auto simp: filter_body_def rres_iffs split: sum.splits)

text \<open>What is forwarded, and the one audit record that goes with it.\<close>

lemma mitm_handle_request_forward:
  assumes "mitm_handle_request G M now rt rng who cls rq0 s = (Some (ForwardRequest out), s')"
  obtains rq raw processed where "mi_decode_request M rq0 = Some rq" and "collect_body (mq_body rq) = Inr raw"
    and "process_payload G rt (\<lambda>p. rng (1 # p)) who raw (header_str (ga_http G) (mq_headers rq) ''content-type'')
         Request = Ok processed"
    and "po_decision (pp_policy processed) \<noteq> Block"
    and "mq_body out = [DataFrame (mitm_outbound (mi_hosts M) cls
         (request_host (ga_http G) (mq_uri_host rq) (mq_headers rq)) raw (pp_sanitized_body processed))]"
    and "mq_uri_host out = mq_uri_host rq" and "mq_path out = mq_path rq"
    and "mq_headers out = strip_framing_headers (mq_headers rq)"
    and "\<exists>record. trail s' = trail s @ [record] \<and> ar_decision record = action_name (po_decision (pp_policy processed)) \<and>
         ar_path record = mq_path rq"
proof -
  from assms obtain rq where rq: "mi_decode_request M rq0 = Some rq"
    by (auto simp: mitm_handle_request_def split: option.splits)
  from assms rq obtain raw processed where p: "filter_body G rt (\<lambda>p. rng (1 # p)) who (mq_headers rq) (mq_body rq) Request = Ok (raw, processed)"
    by (auto simp: mitm_handle_request_def Let_def split: rres.splits)
  note r = p [unfolded filter_body_Ok]
  let ?s1 = "case model_from_request (sc_json (ga_scan G)) raw of
      Some model \<Rightarrow> metric (MLlmRequest model) s | None \<Rightarrow> s"
  have ok: "po_decision (pp_policy processed) \<noteq> Block"
    and out: "out = rq\<lparr>mq_headers := strip_framing_headers (mq_headers rq),
        mq_body := [DataFrame (mitm_outbound (mi_hosts M) cls
          (request_host (ga_http G) (mq_uri_host rq) (mq_headers rq)) raw (pp_sanitized_body processed))]\<rparr>"
    and s': "s' = emit_decision_telemetry now who Request (rng [0]) (mq_path rq) (pp_policy processed) None ?s1"
    using assms rq p by (auto simp: mitm_handle_request_def Let_def split: if_split_asm)
  have "trail ?s1 = trail s" by (simp add: telemetry split: option.split)
  with rq r ok out s' show ?thesis
    by (intro that [of rq raw processed]) (simp_all add: telemetry build_audit_record_def)
qed

lemma mitm_handle_request_blocked:
  assumes "mi_decode_request M rq0 = Some rq" and "collect_body (mq_body rq) = Inr raw"
    and "process_payload G rt (\<lambda>p. rng (1 # p)) who raw (header_str (ga_http G) (mq_headers rq) ''content-type'')
         Request = Ok processed"
    and "po_decision (pp_policy processed) = Block"
  shows "fst (mitm_handle_request G M now rt rng who cls rq0 s) = Some (RespondWith blocked_response)"
  using assms filter_body_Ok [of G rt "\<lambda>p. rng (1 # p)" who "mq_headers rq" "mq_body rq" Request raw processed]
  by (simp add: mitm_handle_request_def Let_def)

section \<open>Streams\<close>

lemma stream_chunks_received:
  "collect_body fs = Inr b \<Longrightarrow> received (stream_chunks fs) = b"
  by (induction fs arbitrary: b rule: collect_body.induct) (auto simp: received_def split: sum.splits)

interpretation mitm_stream: policy_stream "mitm_line_fn G rt rng who" tr_policy
  "\<lambda>k line. transform_sse_line G rt (\<lambda>p. rng (k # p)) who ''/sse'' False line"
  for G rt rng who
  by unfold_locales (auto simp: mitm_line_fn_def meter_sse_usage_def Let_def split: if_splits option.splits)

definition metered_once :: "stream_state \<Rightarrow> bool" where
  "metered_once t \<longleftrightarrow> (if tr_metered t then \<exists>e. tr_events t = [e] else tr_events t = [])"

lemma mitm_line_metered:
  "mitm_line_fn G rt rng who k line t = Some (out, t') \<Longrightarrow> metered_once t \<Longrightarrow> metered_once t'"
  by (auto simp: mitm_line_fn_def meter_sse_usage_def metered_once_def Let_def split: if_splits option.splits)

lemma stream_metered_once:
  assumes "sse_stream (mitm_line_fn G rt rng who) \<lparr>tr_policy = p, tr_metered = False, tr_events = []\<rparr> chunks = Some q"
  shows "length (tr_events (sq_user q)) \<le> 1"
proof -
  have "metered_once (sq_user q)"
    by (rule sse_emit_keeps [OF _ assms [unfolded sse_stream_eq]])
      (auto dest: mitm_line_metered simp: metered_once_def)
  then show ?thesis by (auto simp: metered_once_def split: if_splits)
qed

text \<open>The metric events and records of a stream depend on the bytes, not on the frames.\<close>

lemma redact_sse_stream_frames:
  "received (stream_chunks a) = received (stream_chunks b) \<Longrightarrow>
     redact_sse_stream G now rt rng who a s = redact_sse_stream G now rt rng who b s"
  by (simp add: redact_sse_stream_def sse_stream_eq)

section \<open>Responses\<close>

lemma mitm_handle_response_buffered:
  assumes "mitm_handle_response G M now rt rng who res0 s = (Some out, s')"
    and "\<not> is_sse (header_str (ga_http G) (mr_headers res0) ''content-type'')"
  shows "out = bad_gateway \<or> (\<exists>res raw processed. mi_decode_response M res0 = Some res \<and>
    collect_body (mr_body res) = Inr raw \<and>
    process_payload G rt rng who raw (header_str (ga_http G) (mr_headers res) ''content-type'') Response = Ok processed \<and>
    mr_status out = mr_status res \<and> mr_body out = [DataFrame (pp_sanitized_body processed)])"
  using assms
  by (auto simp: mitm_handle_response_def Let_def filter_body_Ok split: option.splits rres.splits)

end
