(* ===== verification/Gw_Masking.thy ===== *)
theory Gw_Masking
  imports Gw_Handler
begin

text \<open>
  What the pipeline promises of a payload, without its algorithms: which body may stand for another. The
  pipeline of \<open>Gw_Pipeline\<close> is shown to keep the promise, for a text and for a JSON value, and with it the
  reverse proxy for every body it sends.
\<close>

section \<open>The promise\<close>

text \<open>The findings of a text for a caller, each with its action.\<close>

definition text_findings ::
  "gw_api \<Rightarrow> runtime_state \<Rightarrow> principal \<Rightarrow> direction \<Rightarrow> string \<Rightarrow> string \<Rightarrow> resolved_finding list" where
  "text_findings G rt who dir src pointer = po_findings (policy_resolve who (pipeline_scan G rt src pointer) dir)"

text \<open>
  A text is masked when it is the original with some of the flagged spans, one after the other, replaced
  by their masks and nothing else touched; when no two findings partly overlap, no flagged byte is left.
\<close>

definition text_masked ::
  "gw_api \<Rightarrow> runtime_state \<Rightarrow> resolved_finding list \<Rightarrow> string \<Rightarrow> string \<Rightarrow> bool" where
  "text_masked G rt findings src masked \<longleftrightarrow>
     (\<exists>kept masks. masked = render src 0 (length src) (zip kept masks) \<and> spans_ordered 0 kept \<and>
        set kept \<subseteq> {f \<in> set findings. rs_effective_action f \<noteq> Allow} \<and>
        list_all2 (\<lambda>f m. \<exists>rng j. finding_mask (sc_crypto (ga_scan G)) (sc_unicode (ga_scan G)) (sc_hash (ga_scan G))
          (run_tokenizer rt) rng j f = Ok m) kept masks \<and>
        (laminar findings \<longrightarrow> (\<forall>f \<in> set findings. rs_effective_action f \<noteq> Allow \<longrightarrow>
           (\<forall>i. rs_start f \<le> i \<and> i < rs_end f \<longrightarrow> covered kept i))))"

text \<open>A JSON value is masked when it has the same shape and each of its strings is, but for the ignored ones.\<close>

definition json_masked :: "gw_api \<Rightarrow> runtime_state \<Rightarrow> principal \<Rightarrow> direction \<Rightarrow> json \<Rightarrow> json \<Rightarrow> bool" where
  "json_masked G rt who dir v v' \<longleftrightarrow> json_shape v' = json_shape v \<and>
     list_all2 (\<lambda>(p, src) (p', masked). p' = p \<and>
         (if should_ignore_pointer (run_detector rt) p then masked = src
          else text_masked G rt (text_findings G rt who dir src p) src masked))
       (collect_string_nodes v []) (collect_string_nodes v' [])"

definition payload_masked ::
  "gw_api \<Rightarrow> runtime_state \<Rightarrow> principal \<Rightarrow> direction \<Rightarrow> string option \<Rightarrow> string \<Rightarrow> string \<Rightarrow> bool" where
  "payload_masked G rt who dir content_type body masked \<longleftrightarrow>
     (case (if is_json content_type then js_parse (sc_json (ga_scan G)) body else None) of
        Some v \<Rightarrow> \<exists>v'. json_masked G rt who dir v v' \<and>
          masked = (case js_print (sc_json (ga_scan G)) v' of Some b \<Rightarrow> b | None \<Rightarrow> body)
      | None \<Rightarrow>
          if utf8_valid body then text_masked G rt (text_findings G rt who dir body ''/'') body masked
          else masked = body)"

text \<open>What is relied on of the parser: its strings are UTF-8.\<close>

definition json_strings_ok :: "json_api \<Rightarrow> bool" where
  "json_strings_ok J \<longleftrightarrow>
     (\<forall>b v. js_parse J b = Some v \<longrightarrow> (\<forall>(p, s) \<in> set (collect_string_nodes v []). str_ok s))"

section \<open>The pipeline keeps it\<close>

lemma process_text_masked:
  assumes "process_text G rt rng who src pointer dir = Ok (masked, policy)"
    and "regex_sound (sc_regex (ga_scan G))" and "str_ok src"
  shows "text_masked G rt (text_findings G rt who dir src pointer) src masked"
proof -
  let ?fs = "text_findings G rt who dir src pointer"
  let ?mk = "finding_mask (sc_crypto (ga_scan G)) (sc_unicode (ga_scan G)) (sc_hash (ga_scan G)) (run_tokenizer rt) rng"
  have wf: "\<forall>f \<in> set ?fs. rs_span_wf src f"
    unfolding text_findings_def using span_source.resolved_wf [OF pipeline_span_source [OF assms(2)]] by blast
  from process_text_Ok [OF assms(1)] redact_text_eq [OF assms(3) wf]
  obtain rs where masks: "mask_all ?mk 0 (rev (select_findings ?fs)) = Ok rs"
    and out: "masked = render src 0 (length src) (zip (select_findings ?fs) (rev rs))"
    by (auto simp: text_findings_def rres_iffs)
  have "list_all2 (\<lambda>f m. \<exists>rng j. finding_mask (sc_crypto (ga_scan G)) (sc_unicode (ga_scan G)) (sc_hash (ga_scan G))
      (run_tokenizer rt) rng j f = Ok m) (rev (select_findings ?fs)) rs"
  proof (rule list_all2_all_nthI)
    fix i assume i: "i < length (rev (select_findings ?fs))"
    show "\<exists>rng j. finding_mask (sc_crypto (ga_scan G)) (sc_unicode (ga_scan G)) (sc_hash (ga_scan G))
        (run_tokenizer rt) rng j (rev (select_findings ?fs) ! i) = Ok (rs ! i)"
      using mask_all_nth [OF masks i] by blast
  qed (simp add: length_mask_all [OF masks])
  then have "list_all2 (\<lambda>f m. \<exists>rng j. finding_mask (sc_crypto (ga_scan G)) (sc_unicode (ga_scan G)) (sc_hash (ga_scan G))
      (run_tokenizer rt) rng j f = Ok m) (select_findings ?fs) (rev rs)"
    by (simp only: list_all2_rev1)
  then show ?thesis unfolding text_masked_def
    using out select_findings_ordered [of ?fs] set_select_findings select_findings_covered [OF _ wf]
    by (intro exI [of _ "select_findings ?fs"] exI [of _ "rev rs"]) auto
qed

lemma sanitize_json_value_masked:
  assumes "sanitize_json_value G rt rng who v dir = Ok (v', policy)"
    and "json_sound (sc_json (ga_scan G))" and "json_wf v"
    and "regex_sound (sc_regex (ga_scan G))" and "\<forall>(p, s) \<in> set (collect_string_nodes v []). str_ok s"
  shows "json_masked G rt who dir v v'"
  unfolding json_masked_def
proof
  show "json_shape v' = json_shape v" by (rule sanitize_json_value_shape [OF assms(1-3)])
  have "node_redacted G rt rng who dir n n' \<Longrightarrow> n \<in> set (collect_string_nodes v []) \<Longrightarrow>
      (case n of (p, src) \<Rightarrow> \<lambda>(p', masked). p' = p \<and>
        (if should_ignore_pointer (run_detector rt) p then masked = src
         else text_masked G rt (text_findings G rt who dir src p) src masked)) n'" for n n'
    using process_text_masked [OF _ assms(4)] assms(5)
    by (auto simp: node_redacted_def split: prod.split if_splits)
  with sanitize_json_value_nodes [OF assms(1-3)]
  show "list_all2 (\<lambda>(p, src) (p', masked). p' = p \<and>
      (if should_ignore_pointer (run_detector rt) p then masked = src
       else text_masked G rt (text_findings G rt who dir src p) src masked))
    (collect_string_nodes v []) (collect_string_nodes v' [])"
    by (rule list.rel_mono_strong)
qed

lemma process_payload_masked:
  assumes "process_payload G rt rng who body content_type dir = Ok p"
    and "dir = Request \<Longrightarrow> \<not> is_multipart_form content_type"
    and "regex_sound (sc_regex (ga_scan G))" and "json_sound (sc_json (ga_scan G))" and "json_strings_ok (sc_json (ga_scan G))"
  shows "payload_masked G rt who dir content_type body (pp_sanitized_body p)"
proof -
  from assms(1,2) have plain: "process_plain_payload G rt rng who body content_type dir = Ok p"
    by (auto simp: process_payload_def rres_iffs split: if_split_asm)
  show ?thesis
  proof (cases "if is_json content_type then js_parse (sc_json (ga_scan G)) body else None")
    case (Some v)
    with plain obtain v' where v': "sanitize_json_value G rt rng who v dir = Ok (v', pp_policy p)"
      "pp_sanitized_body p = (case js_print (sc_json (ga_scan G)) v' of Some b \<Rightarrow> b | None \<Rightarrow> body)"
      by (auto simp: process_plain_payload_def rres_iffs)
    from Some have "js_parse (sc_json (ga_scan G)) body = Some v" by (simp split: if_split_asm)
    with assms(4,5) have "json_wf v" "\<forall>(p, s) \<in> set (collect_string_nodes v []). str_ok s"
      unfolding json_sound_def json_strings_ok_def by blast+
    from sanitize_json_value_masked [OF v'(1) assms(4) this(1) assms(3) this(2)] v'(2) Some show ?thesis
      unfolding payload_masked_def by auto
  next
    case None
    show ?thesis
    proof (cases "utf8_valid body")
      case True
      with plain None have "process_text G rt (\<lambda>j. rng [j]) who body ''/'' dir = Ok (pp_sanitized_body p, pp_policy p)"
        by (auto simp: process_plain_payload_def process_text_payload_def rres_iffs)
      from process_text_masked [OF this assms(3) utf8_valid_str_ok [OF True]] None True show ?thesis
        unfolding payload_masked_def by simp
    next
      case False
      with plain None show ?thesis
        by (auto simp: process_plain_payload_def process_text_payload_def payload_passthrough_def payload_masked_def)
    qed
  qed
qed

section \<open>The body sent upstream\<close>

lemma proxy_handler_sent:
  assumes "proxy_handler G N K rt rng io rq s = (response, s')" and "gs_sent s' \<noteq> gs_sent s"
  shows "\<exists>who v s1 r. authenticate (ga_http G) (sc_hash (ga_scan G)) (run_auth rt) (rq_headers rq) = Inr who \<and>
    decide_request G K rt rng who (rng [0]) rq s = (Ok v, s1) \<and> po_decision (qv_policy v) \<in> {Allow, Redact} \<and>
    gs_sent s' = gs_sent s @ [r] \<and>
    ur_body r = (if po_decision (qv_policy v) = Redact then qv_sanitized v else qv_body v)"
proof -
  have body: "build_upstream_request G N rt rid rq b = Ok r \<Longrightarrow> ur_body r = b" for rid b r
    by (blast dest: build_upstream_request_Ok)
  from assms obtain who where who: "authenticate (ga_http G) (sc_hash (ga_scan G)) (run_auth rt) (rq_headers rq) = Inr who"
    by (auto simp: proxy_handler_def Let_def telemetry split: sum.split_asm)
  obtain res s2 where h: "handle_proxy G N K rt rng io who (rng [0]) rq s = (res, s2)" by fastforce
  have "gs_sent s2 = gs_sent s'"
    using assms(1) who h by (auto simp: proxy_handler_def Let_def telemetry split: rres.split_asm if_split_asm)
  with assms(2) handle_proxy_sent [OF h] obtain v s1 r where
    v: "decide_request G K rt rng who (rng [0]) rq s = (Ok v, s1)" "po_decision (qv_policy v) \<in> {Allow, Redact}"
      "gs_sent s' = gs_sent s @ [r]"
    and r: "build_upstream_request G N rt (ax_request_id (qv_context v)) rq
        (outbound_body (qv_policy v) (qv_body v) (qv_sanitized v)) = Ok r"
    by (metis (no_types, lifting))
  from body [OF r] have "ur_body r = (if po_decision (qv_policy v) = Redact then qv_sanitized v else qv_body v)"
    by (simp add: outbound_body_def)
  with who v show ?thesis by blast
qed

lemma decide_request_masked:
  assumes "decide_request G K rt rng who rid rq s = (Ok v, s1)"
    and "\<not> is_multipart_form (header_str (ga_http G) (rq_headers rq) ''content-type'')"
    and "regex_sound (sc_regex (ga_scan G))" and "json_sound (sc_json (ga_scan G))" and "json_strings_ok (sc_json (ga_scan G))"
  shows "read_request_body rt rq = Ok (qv_body v) \<and>
    payload_masked G rt who Request (header_str (ga_http G) (rq_headers rq) ''content-type'') (qv_body v) (qv_sanitized v)"
  using assms(1) by (rule decide_request_OkE) (use process_payload_masked assms(2-5) in auto)

text \<open>The fields of a form are no payload of the pipeline: a form without files is sent as it came.\<close>

definition plain_form :: "gw_api \<Rightarrow> runtime_state \<Rightarrow> string option \<Rightarrow> string \<Rightarrow> bool" where
  "plain_form G rt content_type body \<longleftrightarrow>
     ae_enabled (run_attachments rt) \<and>
     (\<exists>ct boundary parts. content_type = Some ct \<and> is_multipart_form content_type \<and> parse_boundary ct = Some boundary \<and>
        parse_multipart_parts body boundary = Ok parts \<and> (\<forall>p \<in> set parts. \<not> is_attachment p))"

lemma process_payload_form:
  assumes "plain_form G rt content_type body"
  shows "process_payload G rt rng who body content_type Request =
    Ok \<lparr>pp_sanitized_body = body, pp_policy = policy_resolve who [] Request\<rparr>"
proof -
  from assms obtain ct boundary parts where "content_type = Some ct" "is_multipart_form (Some ct)"
    "scan_request (attachment_deps G rt) (run_attachments rt) rng who body (Some ct) =
       Ok (Some \<lparr>sr_sanitized_body = body, sr_policy = policy_resolve who [] Request\<rparr>)"
    unfolding plain_form_def using scan_request_fields by blast
  then show ?thesis by (simp add: process_payload_def)
qed

lemma decide_request_form:
  assumes "decide_request G K rt rng who rid rq s = (Ok v, s1)"
    and "plain_form G rt (header_str (ga_http G) (rq_headers rq) ''content-type'') (qv_body v)"
  shows "qv_sanitized v = qv_body v \<and> po_findings (qv_policy v) = []"
  using assms(1)
proof (cases rule: decide_request_OkE)
  case (1 body processed escalated s0 policy)
  then have p: "processed = \<lparr>pp_sanitized_body = body, pp_policy = policy_resolve who [] Request\<rparr>"
    using process_payload_form assms(2) by auto
  have "po_findings policy = []"
    using apply_opa_policy_ge [OF 1(4)] session_decision_ge [of "pp_policy processed" rt escalated]
    by (simp add: p policy_resolve_def)
  moreover have "po_findings (fst (apply_review_override G K who hs path sha policy s0)) = po_findings policy" for hs path sha
  proof -
    have "po_findings (ticket_override t policy) = po_findings policy" for t by (cases "rt_status t") simp_all
    moreover have "po_findings (stored_override_policy d policy) = po_findings policy" for d by (cases d) simp_all
    ultimately show ?thesis by (auto simp: apply_review_override_def Let_def split: option.split prod.split)
  qed
  ultimately show ?thesis using 1(5-7) p by (metis fst_conv processed_payload.select_convs(1))
qed

end
