(* ===== verification/Gw_Demo.thy ===== *)
theory Gw_Demo
  imports Core_Claims Mitm_Handler Gw_Masking "HOL-Library.Countable"
begin

text \<open>
  A concrete gateway: a configuration with one rule, one principal, an upstream, a clock and a
  first state, and codecs for the event file and the audit file. The properties of the gateway and
  of the transparent proxy are applied to it.
\<close>

section \<open>Codecs\<close>

text \<open>Records of countable data are countable, so an event can be written as a line of its number.\<close>

instance audit_finding_ext :: (countable) countable
  by (rule countable_classI [of "\<lambda>r. to_nat (af_label r, af_rule_name r, af_action r, af_pointer r,
      af_severity r, af_matched_sha256 r, af_matched_len r, audit_finding.more r)"]) simp

instance audit_record_ext :: (countable) countable
  by (rule countable_classI [of "\<lambda>r. to_nat (ar_ts r, ar_request_id r, ar_principal r, ar_tenant_id r,
      ar_direction r, ar_path r, ar_decision r, ar_policy_source r, ar_decision_reason r, ar_matched_labels r,
      ar_matched_rules r, ar_findings r, ar_session_id r, ar_session_escalated r, ar_status_code r,
      ar_error_stage r, ar_error_kind r, audit_record.more r)"]) simp

instance review_status :: countable
  by countable_datatype

instance decision_action :: countable
  by countable_datatype

instance review_resolution_ext :: (countable) countable
  by (rule countable_classI [of "\<lambda>r. to_nat (rn_resolved_at r, rn_resolved_by r, rn_note r, rn_expires_at r,
      review_resolution.more r)"]) simp

instance review_ticket_ext :: (countable) countable
  by (rule countable_classI [of "\<lambda>r. to_nat (rt_id r, rt_created_at r, rt_updated_at r, rt_status r,
      rt_request_id r, rt_principal r, rt_tenant_id r, rt_direction r, rt_path r, rt_policy_source r,
      rt_decision_reason r, rt_matched_labels r, rt_matched_rules r, rt_findings r, rt_session_id r,
      rt_session_escalated r, rt_request_sha256 r, rt_sanitized_preview r, rt_post_approval_action r,
      rt_resolution r, rt_fingerprint r, review_ticket.more r)"]) simp

instance persisted_review_ticket_ext :: (countable) countable
  by (rule countable_classI [of "\<lambda>r. to_nat (pt_id r, pt_created_at r, pt_updated_at r, pt_status r,
      pt_request_id r, pt_principal r, pt_tenant_id r, pt_direction r, pt_path r, pt_policy_source r,
      pt_decision_reason r, pt_matched_labels r, pt_matched_rules r, pt_findings r, pt_session_id r,
      pt_session_escalated r, pt_request_sha256 r, pt_sanitized_preview r, pt_post_approval_action r,
      pt_resolution r, pt_fingerprint r, persisted_review_ticket.more r)"]) simp

instance review_event :: countable
  by countable_datatype

definition count_events :: event_api where
  "count_events = \<lparr>ev_print = (\<lambda>e. Inr (replicate (to_nat e) CHR ''i'')), ev_parse = (\<lambda>l. Some (from_nat (length l)))\<rparr>"

definition count_lines :: line_api where
  "count_lines = \<lparr>ln_print = (\<lambda>r. Some (replicate (to_nat r) CHR ''i'')), ln_parse = (\<lambda>l. Some (from_nat (length l)))\<rparr>"

lemma count_events_sound: "event_sound count_events"
  by (simp add: event_sound_def count_events_def)

lemma count_lines_sound: "line_sound count_lines"
  by (simp add: line_sound_def count_lines_def)

section \<open>The gateway\<close>

text \<open>The logarithm on reals does not compute; the demonstration has no entropy rule.\<close>

declare shannon_entropy_def [code del]

definition demo_config :: app_config where
  "demo_config =
     \<lparr>cfg_mode = Reverse, cfg_server = \<lparr>srv_bind = [], srv_request_body_limit_bytes = 1000\<rparr>,
      cfg_upstream = \<lparr>up_base_url = ''http://u/'', up_timeout_ms = 1, up_connect_timeout_ms = 1, up_auth_header = None,
        up_auth_value_env = None, up_forward_headers = {''accept''}\<rparr>,
      cfg_auth = demo_auth, cfg_detection = demo_detection,
      cfg_attachments = \<lparr>att_enabled = True, att_max_bytes = 1000, att_max_text_chars = 1000,
        att_allowed_media_types = [''text/*'']\<rparr>,
      cfg_tokenization = None, cfg_policy_backend = \<lparr>pb_opa = None\<rparr>,
      cfg_session = \<lparr>ss_enabled = True, ss_header_name = ''x-session-id'', ss_ttl_secs = 60, ss_max_entries = 10,
        ss_correlation_threshold = 5, ss_trigger_action = Block\<rparr>,
      cfg_response_filtering = \<lparr>rf_enabled = True, rf_scan_json = True, rf_scan_sse = True\<rparr>,
      cfg_review = review_config_default, cfg_benchmarks = benchmark_config_default,
      cfg_audit = \<lparr>au_jsonl_path = [], au_emit_stdout = False, au_buffer_capacity = 10\<rparr>, cfg_proxy = None\<rparr>"

definition bob :: principal where
  "bob = \<lparr>pr_name = ''bob'', pr_tenant_id = ''t'', pr_role = ''dev'', pr_clearance = Public, pr_allowed_labels = {}\<rparr>"

definition demo_runtime :: runtime_state where
  "demo_runtime =
     \<lparr>run_config = demo_config, run_upstream_base_url = ''http://u/'',
      run_auth = \<lparr>an_header_name = ''authorization'', an_principal_by_hash = [(replicate 64 CHR ''a'', bob)]\<rparr>,
      run_detector = demo_detector, run_presidio = None, run_opa = None, run_tokenizer = None,
      run_attachments = attachment_engine_from_config (cfg_attachments demo_config)\<rparr>"

text \<open>Documents are never opened here: every crate call fails.\<close>

definition no_docs :: doc_api where
  "no_docs =
     \<lparr>dx_pdf_load = Inl, dx_pdf_pages = (\<lambda>_. []), dx_pdf_text = (\<lambda>_ _. Inl []), dx_pdf_replace = (\<lambda>_ _ _ _. Inl []),
      dx_pdf_save = Inl, dx_pdf_extract = Inl, dx_zip_open = Inl, dx_zip_new = [], dx_zip_put = (\<lambda>w _. Inl w),
      dx_zip_finish = Inl, dx_xml_read = (\<lambda>_. ([], None)), dx_xml_decode = Inr, dx_xml_write = (\<lambda>_. Inr []),
      dx_cdata_escaped = (\<lambda>s. [s]), dx_presidio_text = (\<lambda>_. []), dx_show_target = (\<lambda>_ s. s)\<rparr>"

definition demo_gw :: gw_api where
  "demo_gw =
     \<lparr>ga_scan = toy_scan (one_json ''j'' JNull), ga_http = demo_http,
      ga_presidio = \<lparr>pv_post = (\<lambda>_ _. TransportError []), pv_parse = (\<lambda>_. Inl [])\<rparr>,
      ga_opa = \<lparr>os_post = (\<lambda>_ _. TransportError []), os_parse = (\<lambda>_. Inl [])\<rparr>,
      ga_docs = no_docs, ga_opa_error_text = (\<lambda>_. [])\<rparr>"

definition demo_net :: net_api where
  "demo_net =
     \<lparr>na_url_join = (\<lambda>b p. Some (b @ p)), na_method = Inr,
      na_send = (\<lambda>_. UpstreamReply 200 [(''content-type'', ''text/plain'')] [Some ''hi a@b'']),
      na_env = (\<lambda>_. None), na_err_text = (\<lambda>_. ''error''), na_read_error_text = ''read'', na_events = count_events\<rparr>"

definition demo_clock :: gw_clock where
  "demo_clock = \<lparr>ck_utc = (\<lambda>i. 100 + int i), ck_mono = (\<lambda>i. 100 + i)\<rparr>"

definition demo_state :: gw_state where
  "demo_state =
     \<lparr>gs_sessions = [], gs_reviews = \<lparr>rv_inner = review_inner_default\<lparr>ri_capacity := 10\<rparr>, rv_file = []\<rparr>,
      gs_audit = \<lparr>sk_store = audit_store_new 10, sk_channel = [], sk_file = []\<rparr>, gs_metrics = [], gs_sent = []\<rparr>"

definition demo_request :: "string \<Rightarrow> gw_request" where
  "demo_request body =
     \<lparr>rq_method = ''POST'', rq_path_and_query = ''/v1'',
      rq_headers = [(''authorization'', ''Bearer s''), (''accept'', ''x''), (''content-type'', ''text/plain'')],
      rq_body = Inr body\<rparr>"

definition demo_uuid :: uuid_source where
  "demo_uuid path = concat (map show_nat path)"

lemma demo_gw_sound:
  "regex_sound (sc_regex (ga_scan demo_gw))" "json_sound (sc_json (ga_scan demo_gw))"
  "json_strings_ok (sc_json (ga_scan demo_gw))"
proof -
  have "json_sound (one_json ''j'' JNull)" "json_strings_ok (one_json ''j'' JNull)"
    by (simp add: one_json_sound) (simp add: json_strings_ok_def one_json_def)
  then show "regex_sound (sc_regex (ga_scan demo_gw))" "json_sound (sc_json (ga_scan demo_gw))"
    "json_strings_ok (sc_json (ga_scan demo_gw))"
    by (simp_all add: demo_gw_def lit_regex_sound)
qed

end
