(* ===== verification/Gw_Claims.thy ===== *)
theory Gw_Claims
  imports Gw_Demo
begin

text \<open>
  The properties of the reverse proxy: what is sent upstream, what the client receives, the audit
  trail, the review store and the attachments, each with an application at a concrete input.
\<close>

section \<open>What is sent upstream\<close>

text \<open>
  (C1) A request reaches the upstream at most once, and only after the caller was authenticated
  and the decision on it is to allow or to redact; under \<open>redact\<close> the body sent is the sanitised
  one, under \<open>allow\<close> the original.
\<close>

theorem sent_only_when_permitted:
  assumes "proxy_handler G N K rt rng io rq s = (response, s')" and "gs_sent s' \<noteq> gs_sent s"
  shows "\<exists>who v s1 r. authenticate (ga_http G) (sc_hash (ga_scan G)) (run_auth rt) (rq_headers rq) = Inr who \<and>
    decide_request G K rt rng who (rng [0]) rq s = (Ok v, s1) \<and> po_decision (qv_policy v) \<in> {Allow, Redact} \<and>
    gs_sent s' = gs_sent s @ [r] \<and>
    ur_body r = (if po_decision (qv_policy v) = Redact then qv_sanitized v else qv_body v)"
  using assms by (rule proxy_handler_sent)

lemma demo_sent:
  "map ur_body (gs_sent (snd (proxy_handler demo_gw demo_net demo_clock demo_runtime demo_uuid None
      (demo_request ''x a@b y'') demo_state))) = [''x [email] y'']"
  by code_simp

theorem sent_only_when_permitted_witness:
  "\<exists>who v s1 r. authenticate (ga_http demo_gw) (sc_hash (ga_scan demo_gw)) (run_auth demo_runtime)
      (rq_headers (demo_request ''x a@b y'')) = Inr who \<and>
    decide_request demo_gw demo_clock demo_runtime demo_uuid who (demo_uuid [0]) (demo_request ''x a@b y'') demo_state = (Ok v, s1) \<and>
    po_decision (qv_policy v) \<in> {Allow, Redact} \<and>
    gs_sent (snd (proxy_handler demo_gw demo_net demo_clock demo_runtime demo_uuid None (demo_request ''x a@b y'') demo_state)) =
      gs_sent demo_state @ [r]"
proof -
  let ?out = "proxy_handler demo_gw demo_net demo_clock demo_runtime demo_uuid None (demo_request ''x a@b y'') demo_state"
  have eq: "?out = (fst ?out, snd ?out)" by simp
  have "gs_sent (snd ?out) \<noteq> gs_sent demo_state" using demo_sent by (auto simp: demo_state_def)
  from sent_only_when_permitted [OF eq this] show ?thesis by blast
qed



text \<open>
  (C2) When the decision allows a request in clear, no finding of the pipeline asks for anything
  else, or an approved review ticket of this very request says so: of the same caller, path and
  body, or with its fingerprint.
\<close>

theorem clear_request_has_no_finding:
  assumes "decide_request G K rt rng who rid rq s = (Ok v, s1)" and "review_inv (gs_reviews s)"
    and "po_decision (qv_policy v) = Allow"
  shows "(\<forall>f \<in> set (po_findings (qv_policy v)). rs_action f = Allow) \<or>
    (\<exists>k t. hm_get (ri_tickets (rv_inner (gs_reviews s))) k = Some t \<and> rt_post_approval_action t = Allow \<and>
       approves (sc_hash (ga_scan G)) who (rq_path_and_query rq)
         (sha256_hex_bytes (sc_hash (ga_scan G)) (qv_body v)) t)"
proof -
  from decide_request_ge [OF assms(1,2)] obtain processed where p:
    "process_payload G rt (\<lambda>p. rng (1 # p)) who (qv_body v)
      (header_str (ga_http G) (rq_headers rq) ''content-type'') Request = Ok processed"
    "po_findings (qv_policy v) = po_findings (pp_policy processed)"
    and alt: "rank (po_decision (pp_policy processed)) \<le> rank (po_decision (qv_policy v)) \<or>
     (\<exists>k t. hm_get (ri_tickets (rv_inner (gs_reviews s))) k = Some t \<and>
        approves (sc_hash (ga_scan G)) who (rq_path_and_query rq) (sha256_hex_bytes (sc_hash (ga_scan G)) (qv_body v)) t \<and>
        po_decision (qv_policy v) = rt_post_approval_action t)"
    by blast
  from alt show ?thesis
  proof
    assume "rank (po_decision (pp_policy processed)) \<le> rank (po_decision (qv_policy v))"
    with assms(3) have "po_decision (pp_policy processed) = Allow"
      by (cases "po_decision (pp_policy processed)") simp_all
    with process_payload_Allow [OF p(1)] p(2) show ?thesis by simp
  qed (use assms(3) in auto)
qed

lemma demo_state_inv: "review_inv (gs_reviews demo_state)"
proof -
  have "review_core (review_inner_default\<lparr>ri_capacity := 10\<rparr>)"
    by (rule review_coreI) (simp_all add: review_inner_default_def)
  then show ?thesis by (simp add: demo_state_def review_inv_def review_inner_default_def)
qed

theorem clear_request_has_no_finding_witness:
  "\<exists>v s1. decide_request demo_gw demo_clock demo_runtime demo_uuid bob ''r'' (demo_request ''hello'') demo_state = (Ok v, s1) \<and>
     (\<forall>f \<in> set (po_findings (qv_policy v)). rs_action f = Allow)"
proof -
  let ?out = "decide_request demo_gw demo_clock demo_runtime demo_uuid bob ''r'' (demo_request ''hello'') demo_state"
  have "(case fst ?out of Ok v \<Rightarrow> po_decision (qv_policy v) = Allow | _ \<Rightarrow> False)" by code_simp
  then obtain v s1 where v: "?out = (Ok v, s1)" "po_decision (qv_policy v) = Allow"
    by (cases ?out; cases "fst ?out") auto
  have "ri_tickets (rv_inner (gs_reviews demo_state)) = []" by (simp add: demo_state_def review_inner_default_def)
  with clear_request_has_no_finding [OF v(1) demo_state_inv v(2)] v(1) show ?thesis
    by (auto simp: hm_get_def)
qed

text \<open>
  A request without valid credentials is answered 401: nothing is sent, no record is written
  and no store changes; only the failure is counted.
\<close>

theorem unauthenticated_has_no_effect:
  assumes "authenticate (ga_http G) (sc_hash (ga_scan G)) (run_auth rt) (rq_headers rq) = Inl e"
  shows "\<exists>response. proxy_handler G N K rt rng io rq s =
      (Some response, s\<lparr>gs_metrics := gs_metrics s @ [MAuthFailure ''invalid_credentials'']\<rparr>) \<and> hr_status response = 401"
  using assms by (simp add: proxy_handler_def Let_def metric_def gateway_error_def)

theorem unauthenticated_has_no_effect_witness:
  "\<exists>response. proxy_handler demo_gw demo_net demo_clock demo_runtime demo_uuid None
      ((demo_request ''x a@b y'')\<lparr>rq_headers := []\<rparr>) demo_state =
      (Some response, demo_state\<lparr>gs_metrics := [MAuthFailure ''invalid_credentials'']\<rparr>) \<and> hr_status response = 401"
proof -
  have "\<exists>e. authenticate (ga_http demo_gw) (sc_hash (ga_scan demo_gw)) (run_auth demo_runtime) [] = Inl e"
    by (simp add: authenticate_def header_get_def)
  then obtain e where e: "authenticate (ga_http demo_gw) (sc_hash (ga_scan demo_gw)) (run_auth demo_runtime)
      (rq_headers ((demo_request ''x a@b y'')\<lparr>rq_headers := []\<rparr>)) = Inl e" by auto
  show ?thesis
    using unauthenticated_has_no_effect [OF e, of demo_net demo_clock demo_uuid None demo_state] by (simp add: demo_state_def)
qed

text \<open>
  (C14) What a request leaves on the audit trail, on every path. Without valid credentials it is answered 401 and
  leaves nothing. Once the request is decided, the first record is that decision: the caller, the request, the
  decision, its source and its findings, with the status of the refusal when it was refused, and then nothing is sent;
  the one exception is a request for review whose ticket cannot be written, which is answered 502 and leaves the
  skeleton of that failure instead. A request that fails before it is decided is answered 502, and leaves a skeleton
  when the failure is of an audited kind and nothing otherwise.
\<close>

theorem every_request_audited:
  assumes "proxy_handler G N K rt rng io rq s = (response, s')"
  shows "case authenticate (ga_http G) (sc_hash (ga_scan G)) (run_auth rt) (rq_headers rq) of
      Inl _ \<Rightarrow> (\<exists>r. response = Some r \<and> hr_status r = 401) \<and> gs_audit s' = gs_audit s \<and> gs_sent s' = gs_sent s
    | Inr who \<Rightarrow>
        (case fst (decide_request G K rt rng who (rng [0]) rq s) of
           Ok v \<Rightarrow>
             ((\<exists>entry rest. sk_channel (gs_audit s') = sk_channel (gs_audit s) @ entry # rest \<and>
                decision_recorded who (rng [0]) (qv_policy v) entry) \<or>
              (\<exists>r e. response = Some r \<and> hr_status r = 502 \<and> po_decision (qv_policy v) = Review \<and>
                sk_channel (gs_audit s') = sk_channel (gs_audit s) @
                  [pre_upstream_skeleton G N K rt who (rng [0]) rq (ReviewStoreErr e)])) \<and>
             (po_decision (qv_policy v) \<in> {Block, Review} \<longrightarrow> gs_sent s' = gs_sent s)
         | Err err \<Rightarrow>
             (\<exists>r. response = Some r \<and> hr_status r = 502) \<and> gs_sent s' = gs_sent s \<and>
             sk_channel (gs_audit s') = sk_channel (gs_audit s) @
               (if should_emit_request_pre_upstream_error_audit err
                then [pre_upstream_skeleton G N K rt who (rng [0]) rq err] else [])
         | Panic \<Rightarrow> response = None \<and> sk_channel (gs_audit s') = sk_channel (gs_audit s) \<and> gs_sent s' = gs_sent s)"
proof (cases "authenticate (ga_http G) (sc_hash (ga_scan G)) (run_auth rt) (rq_headers rq)")
  case (Inl e)
  with assms show ?thesis by (auto simp: proxy_handler_def Let_def metric_def gateway_error_def)
next
  case (Inr who)
  obtain res s1 where run: "handle_proxy G N K rt rng io who (rng [0]) rq s = (res, s1)" by fastforce
  obtain d s2 where d: "decide_request G K rt rng who (rng [0]) rq s = (d, s2)" by fastforce
  note answer = proxy_handler_answers [OF Inr run assms]
  show ?thesis
  proof (cases d)
    case (Ok v)
    with handle_proxy_trail [OF run] d answer Inr show ?thesis by (cases res) auto
  next
    case (Err e)
    with handle_proxy_undecided [OF d] run answer Inr d show ?thesis by auto
  next
    case Panic
    with handle_proxy_undecided [OF d] run answer Inr d show ?thesis by auto
  qed
qed

theorem every_request_audited_witness:
  "\<exists>entry rest. sk_channel (gs_audit (snd (proxy_handler demo_gw demo_net demo_clock demo_runtime demo_uuid None
       (demo_request ''x a@b y'') demo_state))) = entry # rest \<and>
     ar_principal entry = ''bob'' \<and> ar_decision entry = ''redact'' \<and> ar_status_code entry = None"
proof -
  let ?rq = "demo_request ''x a@b y''"
  let ?out = "proxy_handler demo_gw demo_net demo_clock demo_runtime demo_uuid None ?rq demo_state"
  have eq: "?out = (fst ?out, snd ?out)" by simp
  have who: "authenticate (ga_http demo_gw) (sc_hash (ga_scan demo_gw)) (run_auth demo_runtime) (rq_headers ?rq) = Inr bob"
    by code_simp
  have "(case fst (decide_request demo_gw demo_clock demo_runtime demo_uuid bob (demo_uuid [0]) ?rq demo_state) of
      Ok v \<Rightarrow> po_decision (qv_policy v) = Redact | _ \<Rightarrow> False)" by code_simp
  then obtain v where v: "fst (decide_request demo_gw demo_clock demo_runtime demo_uuid bob (demo_uuid [0]) ?rq demo_state) = Ok v"
    "po_decision (qv_policy v) = Redact" by (auto split: rres.splits)
  have "sk_channel (gs_audit demo_state) = []" "pr_name bob = ''bob''" by (simp_all add: demo_state_def bob_def)
  with every_request_audited [OF eq] who v show ?thesis by (auto simp: decision_recorded_def)
qed

text \<open>
  (C22) Of the caller's headers the upstream sees only those on the allow-list, none of them
  hop-by-hop; the rest of the request's headers are the request identifier and the configured
  credential.
\<close>

theorem forwarded_headers_on_allowlist:
  assumes "build_upstream_request G N rt rid rq body = Ok r" and "(name, v) \<in> set (ur_headers r)"
  shows "(name = ''x-request-id'' \<and> v = rid) \<or>
    (name \<in> up_forward_headers (cfg_upstream (run_config rt)) \<and> name \<notin> set hop_by_hop_headers \<and>
     (\<exists>n raw. (n, raw) \<in> set (rq_headers rq) \<and> name = to_ascii_lowercase n \<and> ht_to_str (ga_http G) raw = Some v)) \<or>
    (up_auth_header (cfg_upstream (run_config rt)) = Some name \<and>
     (\<exists>env. up_auth_value_env (cfg_upstream (run_config rt)) = Some env \<and> na_env N env = Some v))"
proof -
  let ?up = "cfg_upstream (run_config rt)"
  let ?fwd = "forward_header_map (ga_http G) (rq_headers rq) (up_forward_headers ?up) rid"
  from assms build_upstream_request_Ok [OF assms(1)] have "(name, v) \<in> set ?fwd \<or> (name, v) \<in> set (upstream_credential N ?up)"
    by auto
  then show ?thesis
  proof
    assume "(name, v) \<in> set ?fwd"
    then have "hm_get ?fwd name = Some v" using forward_header_map_wf by (simp add: hm_get_def hm_wf_def)
    from forward_header_map_get [OF this] show ?thesis by blast
  next
    assume "(name, v) \<in> set (upstream_credential N ?up)"
    then show ?thesis by (auto simp: upstream_credential_def bind_eq_Some_conv split: option.splits)
  qed
qed

theorem forwarded_headers_on_allowlist_witness:
  "\<exists>r. build_upstream_request demo_gw demo_net demo_runtime ''r'' (demo_request ''x'') ''x'' = Ok r \<and>
     (''accept'', ''x'') \<in> set (ur_headers r) \<and> ''accept'' \<in> up_forward_headers (cfg_upstream (run_config demo_runtime))"
proof -
  let ?out = "build_upstream_request demo_gw demo_net demo_runtime ''r'' (demo_request ''x'') ''x''"
  have "(case ?out of Ok r \<Rightarrow> (''accept'', ''x'') \<in> set (ur_headers r) | _ \<Rightarrow> False)" by code_simp
  then obtain r where r: "?out = Ok r" "(''accept'', ''x'') \<in> set (ur_headers r)" by (cases ?out) auto
  have "up_auth_header (cfg_upstream (run_config demo_runtime)) = None" by (simp add: demo_runtime_def demo_config_def)
  with forwarded_headers_on_allowlist [OF r] r show ?thesis by auto
qed

section \<open>What the client receives\<close>

text \<open>
  (C9) What the client receives on a buffered response, on every branch. When the upstream's body cannot be read it
  is the error 502, and nothing changes. Otherwise the body is processed, or taken as it is where response filtering is
  off, and OPA is asked; the client receives the upstream's bytes unchanged exactly when the final decision is to
  allow, which it is only if the pipeline allows them too. A response that OPA makes stricter is replaced as a whole, one
  that cannot be processed by the fixed error body, and any other by its redacted form. One record is written, with
  this decision and the findings.
\<close>

theorem buffered_response_filtered:
  assumes "response_from_buffered_body G N K rt rng who ctx status headers ct chunks s = (res, s')"
  shows "(None \<in> set chunks \<longrightarrow> s' = s \<and> (\<exists>r. res = Ok r \<and> hr_status r = 502)) \<and>
    (\<forall>bs. chunks = map Some bs \<longrightarrow>
      (case (if rf_enabled (cfg_response_filtering (run_config rt))
          then unwrap_or_else (\<lambda>_. payload_error_fallback) (process_payload G rt rng who (concat bs) ct Response)
          else Some (payload_passthrough (concat bs))) of
        None \<Rightarrow> res = Panic \<and> s' = s
      | Some processed \<Rightarrow> \<exists>final r entry.
          finalize_response_policy G rt who (ax_path_and_query ctx) (ax_session_escalated ctx) (pp_policy processed) = Some final \<and>
          res = Ok r \<and> hr_status r = status \<and>
          hr_body r = (if po_decision final = Allow then concat bs
                       else if rank (po_decision (pp_policy processed)) < rank (po_decision final) then generic_redacted_body ct
                       else pp_sanitized_body processed) \<and>
          (po_decision final = Allow \<longrightarrow> po_decision (pp_policy processed) = Allow) \<and>
          sk_channel (gs_audit s') = sk_channel (gs_audit s) @ [entry] \<and>
          ar_request_id entry = ax_request_id ctx \<and> ar_direction entry = ''response'' \<and>
          ar_decision entry = (if po_decision final = Allow then ''allow'' else ''redact'') \<and>
          ar_findings entry = map audit_finding_of (po_findings (pp_policy processed))))"
proof (intro conjI impI allI)
  assume "None \<in> set chunks"
  from response_from_buffered_body_unread [OF this] assms
  show "s' = s" "\<exists>r. res = Ok r \<and> hr_status r = 502" by (auto simp: gateway_error_def)
qed (use response_from_buffered_body_cases assms in blast)

definition demo_context :: audit_context where
  "demo_context = \<lparr>ax_request_id = ''r'', ax_path_and_query = ''/v1'', ax_session_id = None, ax_session_escalated = False\<rparr>"

theorem buffered_response_filtered_witness:
  "\<exists>r s' processed final entry. response_from_buffered_body demo_gw demo_net demo_clock demo_runtime demo_uuid bob demo_context 200 []
      (Some ''text/plain'') (map Some [''hi a'', ''@b'']) demo_state = (Ok r, s') \<and> hr_body r = ''hi [email]'' \<and>
    unwrap_or_else (\<lambda>_. payload_error_fallback)
      (process_payload demo_gw demo_runtime demo_uuid bob (concat [''hi a'', ''@b'']) (Some ''text/plain'') Response) = Some processed \<and>
    finalize_response_policy demo_gw demo_runtime bob ''/v1'' False (pp_policy processed) = Some final \<and>
    po_decision final \<noteq> Allow \<and> pp_sanitized_body processed = ''hi [email]'' \<and>
    sk_channel (gs_audit s') = [entry] \<and> ar_decision entry = ''redact''"
proof -
  let ?bs = "[''hi a'', ''@b'']"
  let ?out = "response_from_buffered_body demo_gw demo_net demo_clock demo_runtime demo_uuid bob demo_context 200 []
      (Some ''text/plain'') (map Some ?bs) demo_state"
  have out: "(case fst ?out of Ok r \<Rightarrow> hr_body r = ''hi [email]'' | _ \<Rightarrow> False)" by code_simp
  have bodies: "concat ?bs = ''hi a@b''" "generic_redacted_body (Some ''text/plain'') = ''[REDACTED]''" by code_simp+
  have on: "rf_enabled (cfg_response_filtering (run_config demo_runtime))" by (simp add: demo_runtime_def demo_config_def)
  have ctx: "ax_path_and_query demo_context = ''/v1''" "ax_session_escalated demo_context = False" "sk_channel (gs_audit demo_state) = []"
    by (simp_all add: demo_context_def demo_state_def)
  have eq: "?out = (fst ?out, snd ?out)" by simp
  note all = buffered_response_filtered [OF eq, THEN conjunct2, rule_format, OF refl]
  obtain processed where p: "unwrap_or_else (\<lambda>_. payload_error_fallback)
      (process_payload demo_gw demo_runtime demo_uuid bob (concat ?bs) (Some ''text/plain'') Response) = Some processed"
    using all on out by (auto split: option.split_asm)
  from all [unfolded if_P [OF on] p option.case ctx] obtain final :: policy_outcome and r :: http_response and entry :: audit_record where
    f: "finalize_response_policy demo_gw demo_runtime bob ''/v1'' False (pp_policy processed) = Some final"
    and r: "fst ?out = Ok r"
    and body: "hr_body r = (if po_decision final = Allow then concat ?bs
       else if rank (po_decision (pp_policy processed)) < rank (po_decision final) then generic_redacted_body (Some ''text/plain'')
       else pp_sanitized_body processed)"
    and trail: "sk_channel (gs_audit (snd ?out)) = [] @ [entry]"
    and d: "ar_decision entry = (if po_decision final = Allow then ''allow'' else ''redact'')"
    by (elim exE conjE) (rule that)
  from r out have hi: "hr_body r = ''hi [email]''" by simp
  with body bodies have "po_decision final \<noteq> Allow" "pp_sanitized_body processed = ''hi [email]''"
    by (auto split: if_split_asm)
  with hi p f r trail d eq show ?thesis
    by (intro exI [of _ r] exI [of _ "snd ?out"] exI [of _ processed] exI [of _ final] exI [of _ entry] conjI) auto
qed

text \<open>
  A filtered event stream does not depend on how the upstream's bytes are cut into chunks,
  and neither do its metrics and its audit record: they are those of the lines of the bytes
  received.
\<close>

theorem sse_chunking_irrelevant:
  assumes "received chunks = received chunks'"
  shows "response_from_sse_stream G K rt rng who ctx status headers chunks s =
    response_from_sse_stream G K rt rng who ctx status headers chunks' s"
  using assms by (simp add: response_from_sse_stream_def sse_stream_eq)

theorem sse_chunking_irrelevant_witness:
  "response_from_sse_stream demo_gw demo_clock demo_runtime demo_uuid bob demo_context 200 [] [Some ''data: a@'', Some ''b''] demo_state =
   response_from_sse_stream demo_gw demo_clock demo_runtime demo_uuid bob demo_context 200 [] [Some ''data: a@b''] demo_state"
  by (rule sse_chunking_irrelevant) (simp add: received_def)

text \<open>
  (C10) The body of a filtered event stream is the sequence of its lines, each transformed on its
  own: the audit record of the stream has every finding of every line, and its decision is \<open>allow\<close>
  exactly when each line was allowed.
\<close>

theorem sse_stream_lines:
  assumes "response_from_sse_stream G K rt rng who ctx status headers chunks s = (Ok r, s')"
  shows "\<exists>xs entry. length xs = length (stream_lines (received chunks)) \<and> hr_body r = concat (map fst xs) \<and>
    (\<forall>i < length xs. transform_sse_line G rt (\<lambda>p. rng (i # p)) who (ax_path_and_query ctx) (ax_session_escalated ctx)
        (from_utf8_lossy (stream_lines (received chunks) ! i)) = Some (xs ! i)) \<and>
    sk_channel (gs_audit s') = sk_channel (gs_audit s) @ [entry] \<and>
    ar_findings entry = map audit_finding_of (concat (map (po_findings \<circ> snd) xs)) \<and>
    (ar_decision entry = ''allow'' \<longleftrightarrow> (\<forall>x \<in> set xs. po_decision (snd x) = Allow))"
proof -
  from assms obtain q where q: "sse_stream (sse_line_fn G rt rng who (ax_path_and_query ctx) (ax_session_escalated ctx))
      allow_outcome chunks = Some q"
    by (auto simp: response_from_sse_stream_def split: option.splits)
  from q obtain xs where xs: "length xs = length (stream_lines (received chunks))" "sq_out q = map fst xs"
    "\<And>i. i < length xs \<Longrightarrow> transform_sse_line G rt (\<lambda>p. rng (i # p)) who (ax_path_and_query ctx)
        (ax_session_escalated ctx) (from_utf8_lossy (stream_lines (received chunks) ! i)) = Some (xs ! i)"
    "po_decision (sq_user q) = combine (po_decision allow_outcome) (strictest (po_decision \<circ> snd) xs)"
    "po_findings (sq_user q) = po_findings allow_outcome @ concat (map (po_findings \<circ> snd) xs)"
    by (rule gateway_stream.stream_trace) (rule that)
  let ?entry = "build_audit_record (ck_utc K 6) who Response (normalize_response_decision (po_decision (sq_user q)))
      (sq_user q) ctx (Some status)"
  have "combine Allow d = d" for d by (cases d) simp_all
  then have "po_decision (sq_user q) = Allow \<longleftrightarrow> (\<forall>x \<in> set xs. po_decision (snd x) = Allow)"
    by (simp add: xs(4) allow_outcome_def strictest_eq_Allow_iff)
  then have "ar_decision ?entry = ''allow'' \<longleftrightarrow> (\<forall>x \<in> set xs. po_decision (snd x) = Allow)"
    by (simp add: build_audit_record_def normalize_response_decision_def)
  moreover have "ar_findings ?entry = map audit_finding_of (concat (map (po_findings \<circ> snd) xs))"
    by (simp add: build_audit_record_def xs(5) allow_outcome_def)
  moreover have "sk_channel (gs_audit s') = sk_channel (gs_audit s) @ [?entry]" "hr_body r = concat (map fst xs)"
    using assms q xs(2) by (auto simp: response_from_sse_stream_def Let_def telemetry build_upstream_response_def)
  ultimately show ?thesis using xs(1,3) by blast
qed

theorem sse_stream_lines_witness:
  "\<exists>r s' xs entry. response_from_sse_stream demo_gw demo_clock demo_runtime demo_uuid bob demo_context 200 []
      [Some ''data: a@'', Some ''b''] demo_state = (Ok r, s') \<and>
      hr_body r = concat (map fst (xs :: (string \<times> policy_outcome) list)) \<and>
      sk_channel (gs_audit s') = [entry]"
proof -
  let ?out = "response_from_sse_stream demo_gw demo_clock demo_runtime demo_uuid bob demo_context 200 []
      [Some ''data: a@'', Some ''b''] demo_state"
  have "(case fst ?out of Ok r \<Rightarrow> True | _ \<Rightarrow> False)" by code_simp
  then obtain r s' where r: "?out = (Ok r, s')" by (cases ?out; cases "fst ?out") auto
  have "sk_channel (gs_audit demo_state) = []" by (simp add: demo_state_def)
  with sse_stream_lines [OF r] r show ?thesis by auto
qed

end
