(* ===== verification/Store_Claims.thy ===== *)
theory Store_Claims
  imports Gw_Demo
begin

text \<open>
  The properties of the two stores that outlive a request: the review store with its event file,
  and the audit trail with its ring buffer, its channel and its file.
\<close>

section \<open>The review store\<close>

text \<open>
  (C15) In every state the review store can reach, an override found for a fingerprint is the
  unexpired resolution of a ticket that is still stored: same fingerprint, same operator, an
  approval with the action the ticket fixed when it was opened, or a rejection.
\<close>

theorem override_is_a_resolution:
  assumes "review_start s0" and "(review_step E add_secs)\<^sup>*\<^sup>* s0 s" and "fst (lookup_override now fp s) = Some d"
  shows "\<exists>t e r. hm_get (ri_tickets (rv_inner s)) (ov_ticket_id d) = Some t \<and> rt_fingerprint t = fp \<and>
    rt_resolution t = Some r \<and> rn_expires_at r = Some e \<and> now < e \<and> rn_resolved_by r = ov_resolved_by d \<and>
    (case d of OvApproved _ a _ \<Rightarrow> rt_status t = RApproved \<and> a = rt_post_approval_action t
             | OvRejected _ _ \<Rightarrow> rt_status t = RRejected)"
  using review.reachable_invariant [OF assms(1,2)] assms(3) by (rule lookup_override_backed)

definition demo_ticket :: "string \<Rightarrow> new_review_ticket" where
  "demo_ticket fp =
     \<lparr>nt_request_id = ''q'', nt_principal = ''bob'', nt_tenant_id = ''t'', nt_direction = ''request'', nt_path = ''/v1'',
      nt_policy_source = ''builtin'', nt_decision_reason = None, nt_matched_labels = [], nt_matched_rules = [],
      nt_findings = [], nt_session_id = None, nt_session_escalated = False, nt_request_sha256 = ''h'',
      nt_sanitized_preview = None, nt_post_approval_action = Redact, nt_fingerprint = fp\<rparr>"

definition plus_secs :: "int \<Rightarrow> int \<Rightarrow> int option" where
  "plus_secs now secs = Some (now + secs)"

definition empty_reviews :: review_store where
  "empty_reviews = \<lparr>rv_inner = review_inner_default\<lparr>ri_capacity := 10\<rparr>, rv_file = []\<rparr>"

definition one_pending :: review_store where
  "one_pending = snd (upsert_pending count_events None 100 ''k'' (demo_ticket ''fp'') empty_reviews)"

definition one_approved :: review_store where
  "one_approved = snd (review_resolve count_events plus_secs None 101 ''k'' RApproved ''alice'' None 60 one_pending)"

lemma empty_reviews_new: "review_store_new E now 10 None True [] = Inr empty_reviews"
  by (subst review_store_new_def)
    (simp add: empty_reviews_def load_existing_def List.map_filter_def prune_expired_overrides_def hm_retain_def
      review_inner_default_def trim_to_capacity.simps)

lemma one_pending_step: "review_step count_events plus_secs empty_reviews one_pending"
  unfolding one_pending_def by (rule upsert) (simp add: empty_reviews_def review_inner_default_def hm_get_def)

lemma one_approved_reached: "(review_step count_events plus_secs)\<^sup>*\<^sup>* empty_reviews one_approved"
  using one_pending_step resolve [of count_events plus_secs one_pending None 101 "''k''" RApproved "''alice''" None 60]
  by (simp add: one_approved_def)

lemma review_demo_ticket:
  "hm_get (ri_tickets (rv_inner one_pending)) ''k'' = Some (ticket_of_new 100 ''k'' (demo_ticket ''fp''))"
  unfolding one_pending_def
  by (simp add: upsert_pending_def Let_def empty_reviews_def review_inner_default_def prune_expired_overrides_def
      hm_retain_def hm_get_def append_review_event_def count_events_def insert_ticket_def demo_ticket_def
      ticket_of_new_def trim_to_capacity.simps)

lemma empty_reviews_start: "review_start empty_reviews"
  unfolding review_start_def using empty_reviews_new review_file_fits_Nil by blast

lemma empty_reviews_tick: "tick_start count_events (100, empty_reviews)"
  unfolding tick_start_def using empty_reviews_new [of count_events 100]
  by (auto simp: empty_reviews_def replay_def List.map_filter_def review_inner_default_def)

lemma one_pending_inv: "review_inv one_pending"
  using review.step_invariant [OF review.start_invariant [OF empty_reviews_start] one_pending_step] .

definition approved_ticket :: review_ticket where
  "approved_ticket = resolve_ticket RApproved ''alice'' None 101 161 (ticket_of_new 100 ''k'' (demo_ticket ''fp''))"

lemma approved_ticket_simps [simp]:
  "rt_fingerprint approved_ticket = ''fp''" "rt_post_approval_action approved_ticket = Redact"
  by (simp_all add: approved_ticket_def ticket_of_new_def demo_ticket_def)

lemma minute_ttl: "plus_secs 101 (as_i64 60) = Some 161"
  by (simp add: plus_secs_def as_i64_def Let_def)

lemma one_approved_Ok:
  "review_resolve count_events plus_secs None 101 ''k'' RApproved ''alice'' None 60 one_pending = (Ok approved_ticket, one_approved)"
proof -
  have "fst (review_resolve count_events plus_secs None 101 ''k'' RApproved ''alice'' None 60 one_pending) = Ok approved_ticket"
    by (simp add: review_resolve_def review_demo_ticket Let_def minute_ttl append_review_event_def count_events_def
        ticket_of_new_def approved_ticket_def)
  then show ?thesis unfolding one_approved_def by (metis prod.collapse)
qed

theorem override_is_a_resolution_witness:
  "\<exists>t. hm_get (ri_tickets (rv_inner one_approved)) ''k'' = Some t \<and> rt_fingerprint t = ''fp'' \<and> rt_status t = RApproved \<and>
     rt_post_approval_action t = Redact"
proof -
  have "fst (lookup_override 102 ''fp'' one_approved) = Some (OvApproved ''k'' Redact ''alice'')"
    using resolve_then_lookup [OF one_pending_inv one_approved_Ok minute_ttl, of 102] by simp
  from override_is_a_resolution [OF empty_reviews_start one_approved_reached this] show ?thesis by auto
qed

text \<open>
  (C17) Approving a pending ticket installs an override for its fingerprint that is found with the
  ticket's own action, by the same operator, at every time before the expiry that the time-to-live
  gives, and at no later one.
\<close>

theorem approval_holds_until_expiry:
  assumes "review_inv s"
    and "review_resolve E add_secs io now k RApproved by_whom note ttl s = (Ok t', s')"
    and "add_secs now (as_i64 ttl) = Some expires"
  shows "fst (lookup_override later (rt_fingerprint t') s') =
    (if later < expires then Some (OvApproved k (rt_post_approval_action t') by_whom) else None)"
  using assms by (rule resolve_then_lookup)

theorem approval_holds_until_expiry_witness:
  "fst (lookup_override 160 ''fp'' one_approved) = Some (OvApproved ''k'' Redact ''alice'') \<and>
   fst (lookup_override 161 ''fp'' one_approved) = None"
  using approval_holds_until_expiry [OF one_pending_inv one_approved_Ok minute_ttl, of 160]
    approval_holds_until_expiry [OF one_pending_inv one_approved_Ok minute_ttl, of 161] by simp

text \<open>
  When the resolution cannot be appended to the event file, the caller is told that the ticket
  does not exist, although the ticket in memory has already changed its status: it can no longer be
  resolved, has no override, and is pending again after a restart.
\<close>

theorem resolution_lost_when_append_fails:
  assumes "hm_get (ri_tickets (rv_inner s)) k = Some t" and "rt_status t = RPending"
    and "add_secs now (as_i64 ttl) = Some expires"
    and "ev_print E (Resolved k status by_whom note now expires) = Inr line"
    and "review_resolve E add_secs (Some err) now k status by_whom note ttl s = (res, s')"
  shows "res = Err NotFound \<and> rv_file s' = rv_file s \<and>
    hm_get (ri_tickets (rv_inner s')) k = Some (resolve_ticket status by_whom note now expires t) \<and>
    (status \<noteq> RPending \<longrightarrow>
      fst (review_resolve E add_secs io later k status' other note' ttl' s') = Err (AlreadyResolved status))"
proof -
  note fail = resolve_append_failure [where add_secs = add_secs, OF assms(1-4), of err]
  have "hm_get (ri_tickets (rv_inner s')) k = Some (resolve_ticket status by_whom note now expires t)"
    using fail(2) assms(5) by simp
  moreover from this have "fst (review_resolve E add_secs io later k status' other note' ttl' s') = Err (AlreadyResolved status)"
    if "status \<noteq> RPending"
    using that by (simp add: review_resolve_def Let_def)
  ultimately show ?thesis using fail(1,3) assms(5) by auto
qed

theorem resolution_lost_when_append_fails_witness:
  "\<exists>s'. review_resolve count_events plus_secs (Some ''disk full'') 101 ''k'' RApproved ''alice'' None 60 one_pending =
     (Err NotFound, s') \<and> rv_file s' = rv_file one_pending \<and>
     fst (review_resolve count_events plus_secs None 102 ''k'' RApproved ''alice'' None 60 s') = Err (AlreadyResolved RApproved)"
proof -
  let ?out = "review_resolve count_events plus_secs (Some ''disk full'') 101 ''k'' RApproved ''alice'' None 60 one_pending"
  have pending: "rt_status (ticket_of_new 100 ''k'' (demo_ticket ''fp'')) = RPending" by (simp add: ticket_of_new_def)
  obtain line where line: "ev_print count_events (Resolved ''k'' RApproved ''alice'' None 101 161) = Inr line"
    by (simp add: count_events_def)
  have out: "?out = (fst ?out, snd ?out)" by simp
  note lost = resolution_lost_when_append_fails [where add_secs = plus_secs, OF review_demo_ticket pending minute_ttl line out]
  then have "?out = (Err NotFound, snd ?out)" by (metis prod.collapse)
  with lost show ?thesis by (intro exI [of _ "snd ?out"]) simp
qed

lemma tick_bounded:
  "transition_system (tick_start E) (review_tick E add_secs)
     (\<lambda>(now, s). 0 < ri_capacity (rv_inner s) \<and> length (ri_order (rv_inner s)) \<le> ri_capacity (rv_inner s))"
proof (unfold_locales, goal_cases)
  case (1 s)
  then show ?case
    by (auto simp: tick_start_def review_store_new_def load_existing_def fold_apply_capacity trim_to_capacity_order last_n_def)
next
  case (2 s t)
  from 2(2,1) show ?case
    by (cases rule: review_tick.cases)
      (auto simp: upsert_pending_def review_resolve_def Let_def trim_to_capacity_order
        insert_ticket_def split: option.splits sum.splits)
qed

lemma lookup_same_view:
  assumes "same_view now (rv_inner s) (rv_inner s')"
    and "hm_wf (ri_overrides (rv_inner s))" and "hm_wf (ri_overrides (rv_inner s'))"
  shows "fst (lookup_override now fp s) = fst (lookup_override now fp s')"
proof -
  let ?a = "rv_inner s" and ?b = "rv_inner s'"
  have "hm_get (ri_overrides (prune_expired_overrides now ?a)) fp = Some so \<longleftrightarrow>
      hm_get (ri_overrides (prune_expired_overrides now ?b)) fp = Some so" for so
    using assms by (auto simp: prune_overrides same_view_def)
  then have "hm_get (ri_overrides (prune_expired_overrides now ?a)) fp = hm_get (ri_overrides (prune_expired_overrides now ?b)) fp"
    by (metis not_Some_eq)
  then show ?thesis by (simp add: lookup_override_def Let_def)
qed

text \<open>
  (C16) A restart loses nothing that an operation can see, as long as the store never had to evict a ticket. The run
  starts from a store that was built from an event file whose tickets fit into its capacity (so also from a restarted
  store); its clock does not run backwards, every append to the event file succeeds, and a ticket is opened only when
  there is room for it. After any such run the store that a restarted gateway builds from the event file, with the
  same capacity, has the same tickets in the same order, the same pending index and the same unexpired overrides, and
  answers every lookup as the old one would. Without the room it is false: see \<open>restart_drops_override\<close>.
\<close>

theorem review_restart_refines:
  assumes "event_sound E" and "tick_start E (t0, s0)" and "(review_tick E add_secs)\<^sup>*\<^sup>* (t0, s0) (now, s)"
  shows "\<exists>s'. review_store_new E now (ri_capacity (rv_inner s)) None True (rv_file s) = Inr s' \<and>
    same_view now (rv_inner s') (rv_inner s) \<and> rv_file s' = rv_file s \<and>
    (\<forall>fp. fst (lookup_override now fp s') = fst (lookup_override now fp s))"
proof -
  from transition_system.reachable_invariant [OF tick_system [OF assms(1)] assms(2,3)]
  have inv: "replay_inv E now s" by simp
  from transition_system.reachable_invariant [OF tick_bounded assms(2,3)]
  have room: "max (ri_capacity (rv_inner s)) (Suc 0) = ri_capacity (rv_inner s)"
    "length (ri_order (rv_inner s)) \<le> ri_capacity (rv_inner s)" by auto
  let ?i = "load_existing E now (Some (rv_file s)) (review_inner_default\<lparr>ri_capacity := ri_capacity (rv_inner s)\<rparr>)"
  have view: "same_view now ?i (rv_inner s)" by (rule same_view_load [OF inv replay_wf])
  have i: "?i = prune_expired_overrides now (replay E s)" by (simp add: load_existing_def replay_def)
  have "ri_capacity ?i = ri_capacity (rv_inner s)" by (simp add: i replay_def fold_apply_capacity)
  with view room have "trim_to_capacity ?i = ?i" by (intro trim_to_capacity_id) (simp add: same_view_def)
  with room have new: "review_store_new E now (ri_capacity (rv_inner s)) None True (rv_file s) =
      Inr \<lparr>rv_inner = ?i, rv_file = rv_file s\<rparr>"
    by (simp add: review_store_new_def)
  have "fst (lookup_override now fp \<lparr>rv_inner = ?i, rv_file = rv_file s\<rparr>) = fst (lookup_override now fp s)" for fp
    by (rule lookup_same_view) (use view inv in \<open>simp_all add: i replay_wf replay_inv_def\<close>)
  with new view show ?thesis by simp
qed

theorem review_restart_refines_witness:
  "\<exists>s'. review_store_new count_events 101 (ri_capacity (rv_inner one_approved)) None True (rv_file one_approved) = Inr s' \<and>
     fst (lookup_override 101 ''fp'' s') = Some (OvApproved ''k'' Redact ''alice'')"
proof -
  note empty_reviews_tick
  moreover have "review_tick count_events plus_secs (100, empty_reviews) (100, one_pending)"
    unfolding one_pending_def by (rule tick_upsert) (simp_all add: empty_reviews_def review_inner_default_def)
  moreover have "review_tick count_events plus_secs (100, one_pending) (101, one_approved)"
    unfolding one_approved_def by (rule tick_resolve) simp_all
  ultimately have "\<exists>s'. review_store_new count_events 101 (ri_capacity (rv_inner one_approved)) None True
      (rv_file one_approved) = Inr s' \<and>
    (\<forall>fp. fst (lookup_override 101 fp s') = fst (lookup_override 101 fp one_approved))"
    using review_restart_refines [OF count_events_sound, of 100 empty_reviews plus_secs 101 one_approved]
    by (meson rtranclp.rtrancl_into_rtrancl rtranclp.rtrancl_refl)
  moreover have "fst (lookup_override 101 ''fp'' one_approved) = Some (OvApproved ''k'' Redact ''alice'')"
    using resolve_then_lookup [OF one_pending_inv one_approved_Ok minute_ttl, of 101] by simp
  ultimately show ?thesis by auto
qed

text \<open>
  What eviction does to a restart. Trimming removes the pending entry and the override of the fingerprint of the
  ticket that is dropped, also when a newer ticket with this fingerprint owns them. A running store with two places
  evicts the first ticket before the last one, of the same fingerprint, is opened and approved; a restart replays all
  four tickets and trims at the end, so it drops the override of the last one, which is not expired.
\<close>

definition open_demo :: "string \<Rightarrow> string \<Rightarrow> review_store \<Rightarrow> review_store" where
  "open_demo k fp s = snd (upsert_pending count_events None 100 k (demo_ticket fp) s)"

definition small_reviews :: review_store where
  "small_reviews = \<lparr>rv_inner = review_inner_default\<lparr>ri_capacity := 2\<rparr>, rv_file = []\<rparr>"

definition crowded_reviews :: review_store where
  "crowded_reviews = open_demo ''d'' ''fp'' (open_demo ''c'' ''fc'' (open_demo ''b'' ''fb'' (open_demo ''a'' ''fp'' small_reviews)))"

definition crowded_approved :: review_store where
  "crowded_approved = snd (review_resolve count_events plus_secs None 101 ''d'' RApproved ''alice'' None 60 crowded_reviews)"

definition demo_opened :: "string \<Rightarrow> string \<Rightarrow> review_ticket" where
  "demo_opened k fp = ticket_of_new 100 k (demo_ticket fp)"

definition demo_line :: "review_event \<Rightarrow> string" where
  "demo_line e = replicate (to_nat e) CHR ''i''"

lemma demo_opened_simps [simp]:
  "rt_id (demo_opened k fp) = k" "rt_fingerprint (demo_opened k fp) = fp" "rt_status (demo_opened k fp) = RPending"
  "rt_post_approval_action (demo_opened k fp) = Redact"
  by (simp_all add: demo_opened_def ticket_of_new_def demo_ticket_def)

lemma demo_line_parse: "ev_parse count_events (demo_line e) = Some e"
  by (simp add: demo_line_def count_events_def)

lemma open_demo_fresh:
  assumes "hm_get (ri_pending (rv_inner s)) fp = None" and "ri_overrides (rv_inner s) = []"
  shows "open_demo k fp s = \<lparr>rv_inner = trim_to_capacity (insert_ticket (demo_opened k fp) (rv_inner s)),
    rv_file = rv_file s @ [demo_line (Created (from_ticket (demo_opened k fp)))]\<rparr>"
proof -
  have "prune_expired_overrides 100 (rv_inner s) = rv_inner s"
    using assms(2) by (simp add: prune_expired_overrides_def hm_retain_def)
  moreover have "nt_fingerprint (demo_ticket fp) = fp" by (simp add: demo_ticket_def)
  ultimately show ?thesis
    using assms(1) by (simp add: open_demo_def upsert_pending_def Let_def append_review_event_def count_events_def
        demo_line_def demo_opened_def)
qed

lemma crowded_reviews_eq:
  "crowded_reviews = \<lparr>rv_inner = \<lparr>ri_capacity = 2, ri_order = [''c'', ''d''],
       ri_tickets = [(''c'', demo_opened ''c'' ''fc''), (''d'', demo_opened ''d'' ''fp'')],
       ri_pending = [(''fc'', ''c''), (''fp'', ''d'')], ri_overrides = []\<rparr>,
     rv_file = map (\<lambda>(k, fp). demo_line (Created (from_ticket (demo_opened k fp))))
       [(''a'', ''fp''), (''b'', ''fb''), (''c'', ''fc''), (''d'', ''fp'')]\<rparr>"
  by (simp add: crowded_reviews_def open_demo_fresh small_reviews_def review_inner_default_def insert_ticket_def
      trim_to_capacity.simps drop_ticket_def hm_get_Cons hm_remove_def)

lemma crowded_approved_eq:
  "crowded_approved = crowded_reviews\<lparr>rv_inner := \<lparr>ri_capacity = 2, ri_order = [''c'', ''d''],
       ri_tickets = [(''c'', demo_opened ''c'' ''fc''),
         (''d'', resolve_ticket RApproved ''alice'' None 101 161 (demo_opened ''d'' ''fp''))],
       ri_pending = [(''fc'', ''c'')], ri_overrides = [(''fp'', \<lparr>so_decision = OvApproved ''d'' Redact ''alice'', so_expires_at = 161\<rparr>)]\<rparr>,
     rv_file := rv_file crowded_reviews @ [demo_line (Resolved ''d'' RApproved ''alice'' None 101 161)]\<rparr>"
  by (simp add: crowded_approved_def crowded_reviews_eq review_resolve_def Let_def prune_expired_overrides_def hm_retain_def
      hm_get_Cons minute_ttl append_review_event_def count_events_def demo_line_def hm_remove_def insert_override_def
      resolve_ticket_def)

lemma crowded_restart:
  "\<exists>s'. review_store_new count_events 102 2 None True (rv_file crowded_approved) = Inr s' \<and> ri_overrides (rv_inner s') = []"
  by (simp add: review_store_new_def load_existing_def crowded_approved_eq crowded_reviews_eq map_filter_simps
      demo_line_parse review_inner_default_def prune_expired_overrides_def hm_retain_def hm_get_Cons insert_override_def
      hm_remove_def trim_to_capacity.simps drop_ticket_def Let_def)

lemma open_demo_step:
  "hm_get (ri_tickets (rv_inner s)) k = None \<Longrightarrow> review_step count_events plus_secs s (open_demo k fp s)"
  unfolding open_demo_def by (rule upsert)

lemma crowded_reached: "(review_step count_events plus_secs)\<^sup>*\<^sup>* small_reviews crowded_approved"
proof -
  let ?a = "open_demo ''a'' ''fp'' small_reviews"
  let ?b = "open_demo ''b'' ''fb'' ?a"
  let ?c = "open_demo ''c'' ''fc'' ?b"
  note opened = open_demo_fresh small_reviews_def review_inner_default_def insert_ticket_def trim_to_capacity.simps
      drop_ticket_def hm_get_Cons hm_remove_def
  have "review_step count_events plus_secs small_reviews ?a" by (rule open_demo_step) (simp add: opened)
  moreover have "review_step count_events plus_secs ?a ?b" by (rule open_demo_step) (simp add: opened)
  moreover have "review_step count_events plus_secs ?b ?c" by (rule open_demo_step) (simp add: opened)
  moreover have "review_step count_events plus_secs ?c crowded_reviews"
    unfolding crowded_reviews_def by (rule open_demo_step) (simp add: opened)
  moreover have "review_step count_events plus_secs crowded_reviews crowded_approved"
    unfolding crowded_approved_def by (rule resolve)
  ultimately show ?thesis by (meson rtranclp.rtrancl_into_rtrancl rtranclp.rtrancl_refl)
qed

lemma restart_drops_override:
  "review_start small_reviews \<and> (review_step count_events plus_secs)\<^sup>*\<^sup>* small_reviews crowded_approved \<and>
   fst (lookup_override 102 ''fp'' crowded_approved) = Some (OvApproved ''d'' Redact ''alice'') \<and>
   (\<exists>s'. review_store_new count_events 102 2 None True (rv_file crowded_approved) = Inr s' \<and>
     fst (lookup_override 102 ''fp'' s') = None)"
proof -
  have "review_store_new count_events 100 2 None True [] = Inr small_reviews"
    by (simp add: review_store_new_def small_reviews_def load_existing_def List.map_filter_def prune_expired_overrides_def
        hm_retain_def review_inner_default_def trim_to_capacity.simps)
  then have "review_start small_reviews" unfolding review_start_def using review_file_fits_Nil by blast
  moreover have "fst (lookup_override 102 ''fp'' crowded_approved) = Some (OvApproved ''d'' Redact ''alice'')"
    by (simp add: lookup_override_def Let_def crowded_approved_eq prune_expired_overrides_def hm_retain_def hm_get_Cons)
  moreover have "fst (lookup_override 102 ''fp'' s') = None" if "ri_overrides (rv_inner s') = []" for s'
    using that by (simp add: lookup_override_def Let_def prune_expired_overrides_def hm_retain_def)
  ultimately show ?thesis using crowded_reached crowded_restart by blast
qed

section \<open>The audit trail\<close>

text \<open>
  (C23) The ring buffer of the audit store refines the list of all records: after any sequence of
  pushes the snapshot is its last \<open>max capacity 1\<close> records, in order, and after a change of the
  capacity the most recent ones that fit.
\<close>

theorem audit_ring_refines_history:
  "audit_snapshot (fold audit_push rs (audit_store_new n)) = last_n (max n 1) rs \<and>
   audit_snapshot (fold audit_push rs' (audit_set_capacity m (fold audit_push rs (audit_store_new n)))) =
     last_n (max m 1) (last_n (max n 1) rs @ rs')"
proof -
  have new: "fold audit_push rs (audit_store_new n) = \<lparr>as_capacity = max n 1, as_records = last_n (max n 1) rs\<rparr>"
    by (simp add: audit_store_new_def audit_push_all audit_set_capacity_inv)
      (simp add: audit_set_capacity_def pop_to_capacity_last_n audit_store_default_def last_n_def)
  have "fold audit_push rs' (audit_set_capacity m \<lparr>as_capacity = max n 1, as_records = last_n (max n 1) rs\<rparr>) =
      \<lparr>as_capacity = max m 1, as_records = last_n (max m 1) (last_n (max n 1) rs @ rs')\<rparr>"
    by (simp add: audit_push_all audit_set_capacity_inv)
      (simp add: audit_set_capacity_def pop_to_capacity_last_n last_n_append_last_n)
  with new show ?thesis by (simp add: audit_snapshot_def)
qed

text \<open>
  Whatever the interleaving of the handlers that emit records, the task that writes them and
  the resizing of the buffer, once the channel is drained the file read back gives the records
  emitted so far, in order and without loss, up to the limit asked for.
\<close>

theorem audit_file_refines_history:
  assumes "line_sound L" and "sink_start n s0" and "(sink_step L)\<^sup>*\<^sup>* s0 (k, h)" and "sk_channel k = []"
  shows "read_recent_audit_file L (Opened (sk_file k)) limit = Some (last_n limit h)"
  using assms by (rule read_recent_reachable)

definition demo_record :: audit_record where
  "demo_record = build_audit_record 100 bob Request Allow allow_outcome
     \<lparr>ax_request_id = ''r'', ax_path_and_query = ''/v1'', ax_session_id = None, ax_session_escalated = False\<rparr> None"

definition demo_sink :: audit_sink where
  "demo_sink = \<lparr>sk_store = audit_store_new 10, sk_channel = [], sk_file = []\<rparr>"

lemma demo_emitted: "(sink_step count_lines)\<^sup>*\<^sup>* (demo_sink, []) (audit_emit demo_record demo_sink, [demo_record])"
  using emit [of count_lines demo_sink "[]" demo_record] by auto

theorem audit_file_refines_history_witness:
  "read_recent_audit_file count_lines
     (Opened (sk_file (audit_writer_step count_lines True (audit_emit demo_record demo_sink)))) 5 = Some [demo_record]"
proof -
  let ?k = "audit_writer_step count_lines True (audit_emit demo_record demo_sink)"
  have start: "sink_start 10 (demo_sink, [])" by (simp add: sink_start_def demo_sink_def)
  have run: "(sink_step count_lines)\<^sup>*\<^sup>* (demo_sink, []) (?k, [demo_record])"
    using demo_emitted writer [of count_lines "audit_emit demo_record demo_sink" "[demo_record]"]
    by (rule rtranclp.rtrancl_into_rtrancl)
  have "sk_channel ?k = []" by (simp add: audit_writer_step_def audit_emit_def demo_sink_def count_lines_def)
  from audit_file_refines_history [OF count_lines_sound start run this, of 5] show ?thesis by (simp add: last_n_def)
qed

lemma writer_drains:
  assumes "line_sound L" and "length (sk_channel k) \<le> m"
  shows "sk_channel ((audit_writer_step L True ^^ m) k) = []"
  using assms(2)
proof (induction m arbitrary: k)
  case (Suc m)
  have "length (sk_channel (audit_writer_step L True k)) \<le> m"
    using Suc.prems by (auto simp: audit_writer_step_def split: list.splits option.splits)
  from Suc.IH [OF this] show ?case by (simp only: funpow_Suc_right o_apply)
qed simp

lemma writer_turns: "(sink_step L)\<^sup>*\<^sup>* (k, h) ((audit_writer_step L True ^^ m) k, h)"
proof (induction m)
  case (Suc m)
  with writer [of L "(audit_writer_step L True ^^ m) k" h] show ?case
    by (simp add: rtranclp.rtrancl_into_rtrancl)
qed simp

text \<open>
  (C24) The writer catches up: from every state the sink can reach, as many turns of the writer as
  there are queued records empty the channel, and then the file holds every record ever emitted.
\<close>

theorem audit_writer_catches_up:
  assumes "line_sound L" and "sink_start n s0" and "(sink_step L)\<^sup>*\<^sup>* s0 (k, h)" and "length (sk_channel k) \<le> m"
  shows "sk_channel ((audit_writer_step L True ^^ m) k) = [] \<and>
    read_recent_audit_file L (Opened (sk_file ((audit_writer_step L True ^^ m) k))) (length h) = Some h"
proof -
  note drained = writer_drains [OF assms(1,4)]
  from assms(3) writer_turns have "(sink_step L)\<^sup>*\<^sup>* s0 ((audit_writer_step L True ^^ m) k, h)" by (rule rtranclp_trans)
  from read_recent_reachable [OF assms(1,2) this drained, of "length h"] drained show ?thesis
    by (simp add: last_n_all)
qed

theorem audit_writer_catches_up_witness:
  "read_recent_audit_file count_lines
     (Opened (sk_file ((audit_writer_step count_lines True ^^ 3) (audit_emit demo_record demo_sink)))) 1 = Some [demo_record]"
proof -
  have start: "sink_start 10 (demo_sink, [])" by (simp add: sink_start_def demo_sink_def)
  have "length (sk_channel (audit_emit demo_record demo_sink)) \<le> 3" by (simp add: audit_emit_def demo_sink_def)
  from audit_writer_catches_up [OF count_lines_sound start demo_emitted this] show ?thesis by simp
qed

end
