(* ===== verification/Gw_Multipart_Loop.thy ===== *)
theory Gw_Multipart_Loop
  imports Gw_Multipart
begin

text \<open>
  The loop of \<open>parse_multipart_parts\<close> as \<open>src/attachments.rs\<close> has it, over a cursor into the bytes, with no
  bound on its rounds: not returning would be the value \<open>None\<close>, a slice out of range is \<open>Panic\<close>. It always
  returns, and it is the parser of \<open>Gw_Multipart\<close>.
\<close>

text \<open>\<open>bytes.get(a..a + 2)\<close>\<close>

definition get_two :: "string \<Rightarrow> nat \<Rightarrow> string option" where
  "get_two bytes a = (if a + 2 \<le> length bytes then Some (take 2 (drop a bytes)) else None)"

partial_function (option) multipart_loop ::
  "string \<Rightarrow> string \<Rightarrow> nat \<Rightarrow> multipart_part list \<Rightarrow> (attachment_error, multipart_part list) rres option" where
  "multipart_loop boundary bytes cursor parts =
     (if get_two bytes cursor = Some ''--'' then Some (Ok parts)
      else
        let start = (if get_two bytes cursor = Some crlf then cursor + 2 else cursor) in
        if start > length bytes then Some Panic
        else case find_subslice (drop start bytes) (crlf @ crlf) of
          None \<Rightarrow> Some (Err MalformedMultipart)
        | Some headers_len \<Rightarrow>
            let body_start = start + headers_len + 4 in
            if body_start > length bytes then Some Panic
            else case find_subslice (drop body_start bytes) (next_marker boundary) of
              None \<Rightarrow> Some (Err MalformedMultipart)
            | Some body_len \<Rightarrow>
                let parts' = parts @ [make_part (take headers_len (drop start bytes)) (take body_len (drop body_start bytes))];
                    cursor' = body_start + body_len + 2 + length (boundary_marker boundary)
                in if get_two bytes cursor' = Some ''--'' then Some (Ok parts')
                   else multipart_loop boundary bytes cursor' parts')"

definition multipart_parse :: "string \<Rightarrow> string \<Rightarrow> (attachment_error, multipart_part list) rres option" where
  "multipart_parse body boundary =
     (case find_subslice body (boundary_marker boundary) of
        None \<Rightarrow> Some (Err MalformedMultipart)
      | Some found \<Rightarrow> multipart_loop boundary body (found + length (boundary_marker boundary)) [])"

lemma get_two_eq: "length x = 2 \<Longrightarrow> get_two bytes a = Some x \<longleftrightarrow> take 2 (drop a bytes) = x"
  by (auto simp: get_two_def)

lemma find_subslice_le: "find_subslice xs pat = Some n \<Longrightarrow> n + length pat \<le> length xs"
  using find_sub_SomeD [of xs pat n] by (simp add: find_subslice_def)

lemma length_markers: "length (next_marker boundary) = 4 + length boundary" "length (boundary_marker boundary) = 2 + length boundary"
  "length crlf = 2"
  by (simp_all add: next_marker_def boundary_marker_def crlf_def)

text \<open>One round: it stops, or it goes on with a cursor that is at least eight bytes further and still in range.\<close>

lemma multipart_loop_returns:
  assumes "cursor \<le> length bytes"
  shows "multipart_loop boundary bytes cursor parts = Some (parse_part_loop boundary (drop cursor bytes) parts)"
  using assms
proof (induction "length bytes - cursor" arbitrary: cursor parts rule: less_induct)
  case less
  let ?rest = "drop cursor bytes"
  define start where "start = (if take 2 ?rest = crlf then cursor + 2 else cursor)"
  have two: "get_two bytes a = Some ''--'' \<longleftrightarrow> take 2 (drop a bytes) = ''--''"
    "get_two bytes a = Some crlf \<longleftrightarrow> take 2 (drop a bytes) = crlf" for a
    by (simp_all add: get_two_eq length_markers)
  have "cursor + 2 \<le> length bytes" if "take 2 ?rest = crlf"
  proof -
    have "length (take 2 ?rest) = 2" using that by (simp only: length_markers)
    then show ?thesis by simp
  qed
  then have start: "start \<le> length bytes" "cursor \<le> start" "(if take 2 ?rest = crlf then drop 2 ?rest else ?rest) = drop start bytes"
    using less.prems by (simp_all add: start_def add.commute)
  show ?case
  proof (cases "find_subslice (drop start bytes) (crlf @ crlf)")
    case None
    with start show ?thesis
      by (subst multipart_loop.simps, subst parse_part_loop.simps) (simp add: two start_def [symmetric] Let_def)
  next
    case (Some h)
    note headers = this
    define body_start where "body_start = start + h + 4"
    have drops: "drop (h + 4) (drop start bytes) = drop body_start bytes"
      by (simp add: body_start_def ac_simps)
    have h: "body_start \<le> length bytes"
      using find_subslice_le [OF Some] start(1) by (simp add: body_start_def length_markers)
    show ?thesis
    proof (cases "find_subslice (drop body_start bytes) (next_marker boundary)")
      case None
      with start headers h show ?thesis
        by (subst multipart_loop.simps, subst parse_part_loop.simps)
          (simp add: two start_def [symmetric] body_start_def [symmetric] Let_def drops del: drop_drop add_2_eq_Suc add_2_eq_Suc')
    next
      case (Some b)
      define next_cursor where "next_cursor = body_start + b + 2 + length (boundary_marker boundary)"
      have next_le: "next_cursor \<le> length bytes"
        using find_subslice_le [OF Some] h by (simp add: next_cursor_def length_markers)
      have "cursor < next_cursor" using start(2) by (simp add: next_cursor_def body_start_def)
      then have "length bytes - next_cursor < length bytes - cursor" using next_le by simp
      note ih = less.hyps [OF this next_le]
      have next_drop: "drop (b + 2 + length (boundary_marker boundary)) (drop body_start bytes) = drop next_cursor bytes"
        by (simp add: next_cursor_def ac_simps)
      show ?thesis
        using ih start headers h Some
        by (subst multipart_loop.simps, subst parse_part_loop.simps)
          (simp add: two start_def [symmetric] body_start_def [symmetric] next_cursor_def [symmetric] Let_def
            drops next_drop del: drop_drop add_2_eq_Suc add_2_eq_Suc')
    qed
  qed
qed

lemma parse_part_loop_size:
  "parse_part_loop boundary rest parts = Ok parts' \<Longrightarrow>
     length parts * (8 + length boundary) + length rest \<ge> length parts' * (8 + length boundary)"
proof (induction boundary rest parts rule: parse_part_loop.induct)
  case (1 boundary rest parts)
  define rest1 where "rest1 = (if take 2 rest = crlf then drop 2 rest else rest)"
  have le: "length rest1 \<le> length rest" by (simp add: rest1_def)
  show ?case
  proof (cases "take 2 rest = ''--''")
    case True
    with "1.prems" show ?thesis by (subst (asm) parse_part_loop.simps) simp
  next
    case False
    with "1.prems" obtain h b where h: "find_subslice rest1 (crlf @ crlf) = Some h"
      and b: "find_subslice (drop (h + 4) rest1) (next_marker boundary) = Some b"
      by (subst (asm) parse_part_loop.simps) (auto simp: rest1_def [symmetric] Let_def split: option.split_asm)
    let ?rest3 = "drop (b + 2 + length (boundary_marker boundary)) (drop (h + 4) rest1)"
    let ?parts = "parts @ [make_part (take h rest1) (take b (drop (h + 4) rest1))]"
    have "length ?rest3 + (8 + length boundary) \<le> length rest"
      using find_subslice_le [OF h] find_subslice_le [OF b] le by (simp add: length_markers)
    moreover have "parts' = ?parts \<or> take 2 ?rest3 \<noteq> ''--'' \<and> parse_part_loop boundary ?rest3 ?parts = Ok parts'"
      using "1.prems" False h b
      by (subst (asm) parse_part_loop.simps) (auto simp: rest1_def [symmetric] Let_def split: if_split_asm)
    ultimately show ?thesis
      using "1.IH" [OF False rest1_def h refl b refl refl] by (auto simp: Let_def)
  qed
qed

lemma parse_part_loop_not_Panic: "parse_part_loop boundary rest parts \<noteq> Panic"
proof (induction boundary rest parts rule: parse_part_loop.induct)
  case (1 boundary rest parts)
  define rest1 where "rest1 = (if take 2 rest = crlf then drop 2 rest else rest)"
  show ?case
  proof (cases "take 2 rest = ''--'' \<or> (\<exists>h b. find_subslice rest1 (crlf @ crlf) = Some h \<and>
      find_subslice (drop (h + 4) rest1) (next_marker boundary) = Some b)")
    case True
    then show ?thesis
      using "1.IH" [OF _ rest1_def _ refl _ refl refl]
      by (subst parse_part_loop.simps) (auto simp: rest1_def [symmetric] Let_def split: if_split_asm)
  next
    case False
    then show ?thesis
      by (subst parse_part_loop.simps) (auto simp: rest1_def [symmetric] Let_def split: option.split)
  qed
qed

end
