(* ===== verification/Attach_Claims.thy ===== *)
theory Attach_Claims
  imports Gw_Demo Gw_Multipart_Loop
begin

text \<open>
  The properties of uploads: what happens to the parts of a \<^verbatim>\<open>multipart/form-data\<close> request, and to
  the JSON bodies and texts of the payload pipeline.
\<close>

section \<open>Uploads\<close>

lemma list_all2_memD: "list_all2 P xs ys \<Longrightarrow> y \<in> set ys \<Longrightarrow> \<exists>x \<in> set xs. P x y"
  by (induction rule: list_all2_induct) auto

lemma scan_parts_raw: "scan_parts D E parts = Ok (sps, fs) \<Longrightarrow> map sp_raw sps = parts"
  by (induction parts arbitrary: sps fs) (auto simp: rres_iffs dest: scan_part_raw)

definition demo_deps :: attach_deps where
  "demo_deps = attachment_deps demo_gw demo_runtime"

definition quoted :: "string \<Rightarrow> string" where
  "quoted s = [CHR 0x22] @ s @ [CHR 0x22]"

definition upload_part :: "string \<Rightarrow> string \<Rightarrow> string \<Rightarrow> string" where
  "upload_part name extra content =
     ''--B'' @ crlf @ ''Content-Disposition: form-data; name='' @ quoted name @ extra @ crlf @
     ''Content-Type: text/plain'' @ crlf @ crlf @ content @ crlf"

definition demo_upload :: string where
  "demo_upload = upload_part ''f'' (''; filename='' @ quoted ''a.txt'') ''hi a@b'' @ ''--B--'' @ crlf"

definition twin_upload :: string where
  "twin_upload = upload_part ''f'' (''; filename='' @ quoted ''a.txt'') ''a@b'' @
     upload_part ''f'' (''; filename='' @ quoted ''b.txt'') ''it'' @ ''--B--'' @ crlf"

text \<open>
  (C18) A redacted upload is the upload again with new bodies. When the decision on a multipart
  request is to redact, the body that is forwarded has the old parts in the old order with their headers, between
  boundaries of the same text; the body of a part is what the rewriting of that part gives, or the old one when there is
  nothing to rewrite. It parses back to exactly these parts whenever no rewritten body has a line that begins with the
  boundary: the code does not look for one, and a caller who chooses the boundary can bring it about (see below). A
  boundary has no carriage return, as no header value has.
\<close>

theorem redacted_upload_parses_back:
  assumes "scan_request D E rng who body (Some ct) = Ok (Some res)" and "po_decision (sr_policy res) = Redact"
    and "parse_boundary ct = Some boundary" and "CHR 0x0D \<notin> set boundary"
    and "parse_multipart_parts body boundary = Ok parts" and "scan_parts D E parts = Ok (sps, fs)"
  shows "\<exists>sps'. sr_sanitized_body res = rebuild_multipart_body boundary sps' \<and>
    list_all2 (\<lambda>sp sp'. \<exists>q r. plan_rewrite D q (sp_rewrite_plan sp) (mp_body (sp_raw sp)) (sp_pointer sp)
        (po_findings (sr_policy res)) = Ok r \<and> sp' = sp\<lparr>sp_rewritten_body := r\<rparr>) sps sps' \<and>
    map sp_raw sps' = parts \<and>
    ((\<forall>sp' \<in> set sps'. \<forall>b. sp_rewritten_body sp' = Some b \<longrightarrow> \<not> contains_str b (next_marker boundary)) \<longrightarrow>
      parse_multipart_parts (sr_sanitized_body res) boundary =
        Ok (map (\<lambda>sp'. with_body (sp_raw sp', sp_rewritten_body sp')) sps'))"
  using assms(1)
proof (cases rule: scan_request_SomeE)
  case (Empty b)
  with assms(2) show ?thesis by (simp add: policy_resolve_def)
next
  case (Parts b ps sps1 fs1)
  from Parts(1-3) assms(3,5,6) have eq: "b = boundary" "sps1 = sps" "fs1 = fs" by auto
  from Parts(4)[unfolded eq] assms(2) obtain sps' where pol: "sr_policy res = policy_resolve who fs Request"
    and rw: "rewrite_parts D rng (po_findings (policy_resolve who fs Request)) 0 sps = Ok (Some sps')"
    and body: "sr_sanitized_body res = rebuild_multipart_body boundary sps'"
    by (rule finish_scan_Redact) (rule that)
  have each: "list_all2 (\<lambda>sp sp'. \<exists>q r. plan_rewrite D q (sp_rewrite_plan sp) (mp_body (sp_raw sp))
      (sp_pointer sp) (po_findings (sr_policy res)) = Ok r \<and> sp' = sp\<lparr>sp_rewritten_body := r\<rparr>) sps sps'"
    using rewrite_parts_Some [OF rw] unfolding pol by (rule list_all2_mono) blast
  then have same: "list_all2 (\<lambda>sp sp'. \<exists>r. sp' = sp\<lparr>sp_rewritten_body := r\<rparr>) sps sps'"
    by (rule list_all2_mono) blast
  then have "map sp_raw sps' = map sp_raw sps" by (induction rule: list_all2_induct) auto
  moreover have "map sp_raw sps = parts" using assms(6) by (rule scan_parts_raw)
  ultimately show ?thesis
    using body each rebuild_parses [OF assms(5,6) same assms(4)] by (intro exI [of _ sps']) auto
qed

definition upload_type :: string where
  "upload_type = ''multipart/form-data; boundary=B''"

definition upload_finding :: resolved_finding where
  "upload_finding =
     \<lparr>rs_label = ''email'', rs_rule_name = ''mail'', rs_action = Redact, rs_effective_action = Redact,
      rs_pointer = ''/attachments/f'', rs_severity = Medium, rs_masking = Placeholder,
      rs_matched_sha256 = replicate 64 CHR ''a'', rs_matched_len = 3, rs_start = 3, rs_end = 6, rs_matched = ''a@b''\<rparr>"

lemma upload_rewrite:
  "plan_rewrite demo_deps q PlanText ''hi a@b'' ''/attachments/f'' [upload_finding] = Ok (Some ''hi [email]'')"
  by code_simp

lemma upload_parts:
  "(case parse_multipart_parts demo_upload ''B'' of
      Ok ps \<Rightarrow> (case scan_parts demo_deps (run_attachments demo_runtime) ps of
          Ok (sps, fs) \<Rightarrow> map (\<lambda>sp. (sp_rewrite_plan sp, mp_body (sp_raw sp), sp_pointer sp)) sps =
              [(PlanText, ''hi a@b'', ''/attachments/f'')]
        | _ \<Rightarrow> False)
    | _ \<Rightarrow> False)"
  by code_simp

lemma upload_scan:
  "(case scan_request demo_deps (run_attachments demo_runtime) demo_uuid bob demo_upload (Some upload_type) of
      Ok (Some res) \<Rightarrow> po_decision (sr_policy res) = Redact \<and> po_findings (sr_policy res) = [upload_finding]
    | _ \<Rightarrow> False)"
  by code_simp

lemma contains_marker: "\<not> contains_str ''hi [email]'' (next_marker ''B'')"
  by code_simp

theorem redacted_upload_parses_back_witness:
  "\<exists>res p. scan_request demo_deps (run_attachments demo_runtime) demo_uuid bob demo_upload (Some upload_type) = Ok (Some res) \<and>
     parse_multipart_parts (sr_sanitized_body res) ''B'' = Ok [p] \<and> mp_body p = ''hi [email]''"
proof -
  from upload_parts obtain ps sps fs where ps: "parse_multipart_parts demo_upload ''B'' = Ok ps"
    "scan_parts demo_deps (run_attachments demo_runtime) ps = Ok (sps, fs)"
    "map (\<lambda>sp. (sp_rewrite_plan sp, mp_body (sp_raw sp), sp_pointer sp)) sps = [(PlanText, ''hi a@b'', ''/attachments/f'')]"
    by (auto split: rres.splits)
  then obtain sp where sp: "sps = [sp]" "sp_rewrite_plan sp = PlanText" "mp_body (sp_raw sp) = ''hi a@b''"
    "sp_pointer sp = ''/attachments/f''" by auto
  from upload_scan obtain res where res:
    "scan_request demo_deps (run_attachments demo_runtime) demo_uuid bob demo_upload (Some upload_type) = Ok (Some res)"
    "po_decision (sr_policy res) = Redact" "po_findings (sr_policy res) = [upload_finding]"
    by (auto split: rres.splits option.splits)
  have boundary: "parse_boundary upload_type = Some ''B''" "CHR 0x0D \<notin> set ''B''" by code_simp+
  from redacted_upload_parses_back [OF res(1,2) boundary ps(1,2)] obtain sps' where
    each: "list_all2 (\<lambda>sp sp'. \<exists>q r. plan_rewrite demo_deps q (sp_rewrite_plan sp) (mp_body (sp_raw sp)) (sp_pointer sp)
        (po_findings (sr_policy res)) = Ok r \<and> sp' = sp\<lparr>sp_rewritten_body := r\<rparr>) sps sps'"
    and parsed: "(\<forall>sp' \<in> set sps'. \<forall>b. sp_rewritten_body sp' = Some b \<longrightarrow> \<not> contains_str b (next_marker ''B'')) \<longrightarrow>
      parse_multipart_parts (sr_sanitized_body res) ''B'' = Ok (map (\<lambda>sp'. with_body (sp_raw sp', sp_rewritten_body sp')) sps')"
    by blast
  from each have "sps' = [sp\<lparr>sp_rewritten_body := Some ''hi [email]''\<rparr>]"
    by (auto simp: sp res(3) upload_rewrite list_all2_Cons1 simp del: plan_rewrite.simps)
  with parsed contains_marker res(1) show ?thesis by (auto simp: with_body_def)
qed

text \<open>
  A caller can choose the boundary so that a mask completes it: the address behind \<open>--\<close> at the beginning of a line
  becomes the boundary, and what is forwarded is no multipart body any more.
\<close>

definition mask_type :: string where
  "mask_type = ''multipart/form-data; boundary=[email]''"

definition mask_upload :: string where
  "mask_upload = ''--[email]'' @ crlf @ ''Content-Disposition: form-data; name='' @ quoted ''f'' @ ''; filename='' @ quoted ''a.txt'' @
     crlf @ ''Content-Type: text/plain'' @ crlf @ crlf @ ''x'' @ crlf @ ''--a@b y'' @ crlf @ ''--[email]--'' @ crlf"

lemma mask_completes_boundary:
  "(case scan_request demo_deps (run_attachments demo_runtime) demo_uuid bob mask_upload (Some mask_type) of
      Ok (Some res) \<Rightarrow> po_decision (sr_policy res) = Redact \<and>
        parse_multipart_parts (sr_sanitized_body res) ''[email]'' = Err MalformedMultipart
    | _ \<Rightarrow> False)"
  by code_simp

text \<open>
  (C19) The loop over the parts of an upload always returns, whatever the bytes and the boundary, and no slice in
  it is out of range; it is the parser used in this development, and it makes at most one part for every eight bytes
  and a boundary of the body, so its rounds are bounded by the size of the body.
\<close>

theorem multipart_loop_terminates:
  "multipart_parse body boundary = Some (parse_multipart_parts body boundary) \<and>
   parse_multipart_parts body boundary \<noteq> Panic \<and>
   (\<forall>parts. parse_multipart_parts body boundary = Ok parts \<longrightarrow> length parts * (8 + length boundary) \<le> length body)"
proof (cases "find_subslice body (boundary_marker boundary)")
  case None
  then show ?thesis by (simp add: multipart_parse_def parse_multipart_parts_def)
next
  case (Some found)
  let ?cursor = "found + length (boundary_marker boundary)"
  have le: "?cursor \<le> length body" using find_subslice_le [OF Some] by simp
  have size: "length parts * (8 + length boundary) \<le> length body"
    if "parse_part_loop boundary (drop ?cursor body) [] = Ok parts" for parts
    using parse_part_loop_size [OF that] by simp
  show ?thesis
    using multipart_loop_returns [OF le, of boundary "[]"] parse_part_loop_not_Panic size
    by (simp add: multipart_parse_def parse_multipart_parts_def Some)
qed

theorem multipart_loop_terminates_witness:
  "\<exists>parts. multipart_parse demo_upload ''B'' = Some (Ok parts) \<and> length parts * 9 \<le> length demo_upload"
proof -
  from upload_parts obtain parts where "parse_multipart_parts demo_upload ''B'' = Ok parts" by (auto split: rres.splits)
  with multipart_loop_terminates [of demo_upload "''B''"] show ?thesis by auto
qed

text \<open>
  The fields of a form are not scanned. Whatever the text of the parts without a file name,
  a multipart request that has only such parts is allowed as it is, with no finding.
\<close>

theorem form_fields_pass_unscanned:
  assumes "ae_enabled (run_attachments rt)" and "is_multipart_form (Some ct)" and "parse_boundary ct = Some boundary"
    and "parse_multipart_parts body boundary = Ok parts" and "\<forall>p \<in> set parts. \<not> is_attachment p"
  shows "process_payload G rt rng who body (Some ct) Request =
    Ok \<lparr>pp_sanitized_body = body, pp_policy = policy_resolve who [] Request\<rparr>"
  using scan_request_fields [OF assms, of "attachment_deps G rt" rng who] assms(2)
  by (simp add: process_payload_def)

definition form_upload :: string where
  "form_upload = upload_part ''prompt'' [] ''hi a@b'' @ ''--B--'' @ crlf"

theorem form_fields_pass_unscanned_witness:
  "process_payload demo_gw demo_runtime demo_uuid bob form_upload (Some upload_type) Request =
     Ok \<lparr>pp_sanitized_body = form_upload, pp_policy = policy_resolve bob [] Request\<rparr>"
proof -
  have "(case parse_multipart_parts form_upload ''B'' of Ok ps \<Rightarrow> list_all (\<lambda>p. \<not> is_attachment p) ps | _ \<Rightarrow> False)"
    by code_simp
  then obtain ps where ps: "parse_multipart_parts form_upload ''B'' = Ok ps" "\<forall>p \<in> set ps. \<not> is_attachment p"
    by (auto simp: list_all_iff split: rres.splits)
  have "ae_enabled (run_attachments demo_runtime)" "is_multipart_form (Some upload_type)" "parse_boundary upload_type = Some ''B''"
    by code_simp+
  from form_fields_pass_unscanned [OF this ps] show ?thesis .
qed

text \<open>
  Two text attachments under one form name share their findings: the spans found in the first
  file are cut out of the second. Here the second file is shorter than the first one's address, and
  the request panics instead of being answered.
\<close>

theorem twin_attachments_panic:
  "scan_request demo_deps (run_attachments demo_runtime) demo_uuid bob twin_upload (Some upload_type) = Panic"
  by code_simp

section \<open>JSON bodies and OPA\<close>

text \<open>The service answers: with a decision, or that it has none.\<close>

definition opa_answers :: "opa_service \<Rightarrow> opa_authorizer \<Rightarrow> opa_input \<Rightarrow> opa_decision option \<Rightarrow> bool" where
  "opa_answers S opa input answer \<longleftrightarrow>
     (\<exists>status body. os_post S (oa_url opa) input = HttpReply status body \<and> 200 \<le> status \<and> status < 300 \<and>
        os_parse S body = Inr answer)"

lemma opa_answers_evaluate: "opa_answers S opa input answer \<Longrightarrow> opa_evaluate S opa input = Inr answer"
  by (auto simp: opa_answers_def opa_evaluate_def status_is_success_def)

lemma opa_unanswered_evaluate: "\<nexists>answer. opa_answers S opa input answer \<Longrightarrow> \<exists>e. opa_evaluate S opa input = Inl e"
  by (auto simp: opa_answers_def opa_evaluate_def status_is_success_def split: http_reply.split sum.split)

text \<open>
  (C20) Sanitising a JSON value changes its string nodes and nothing else: the shape of the value,
  its keys, its numbers and its other leaves stay, the node at an ignored pointer stays, and every
  other string node becomes the redaction of its own text under its own pointer.
\<close>

theorem sanitized_json_keeps_shape:
  assumes "sanitize_json_value G rt rng who v dir = Ok (v', policy)" and "json_sound (sc_json (ga_scan G))" and "json_wf v"
  shows "json_shape v' = json_shape v \<and>
    list_all2 (\<lambda>n n'. fst n' = fst n \<and>
      (if should_ignore_pointer (run_detector rt) (fst n) then snd n' = snd n
       else \<exists>k p. process_text G rt (\<lambda>j. rng [k, j]) who (snd n) (fst n) dir = Ok (snd n', p)))
      (collect_string_nodes v []) (collect_string_nodes v' [])"
proof
  show "json_shape v' = json_shape v" by (rule sanitize_json_value_shape [OF assms])
qed (use sanitize_json_value_nodes [OF assms] in \<open>rule list_all2_mono, simp add: node_redacted_def split: if_splits\<close>)

definition demo_json :: json where
  "demo_json = JObj [(''m'', JStr ''a@b''), (''n'', JNull)]"

theorem sanitized_json_keeps_shape_witness:
  "\<exists>v' policy. sanitize_json_value demo_gw demo_runtime demo_uuid bob demo_json Request = Ok (v', policy) \<and>
     json_shape v' = json_shape demo_json \<and> map fst (collect_string_nodes v' []) = [''/m'']"
proof -
  let ?out = "sanitize_json_value demo_gw demo_runtime demo_uuid bob demo_json Request"
  have "(case ?out of Ok (v', policy) \<Rightarrow> True | _ \<Rightarrow> False)" by code_simp
  then obtain v' policy where out: "?out = Ok (v', policy)" by (auto split: rres.splits)
  have sound: "json_sound (sc_json (ga_scan demo_gw))" by (simp add: demo_gw_def one_json_sound)
  have wf: "json_wf demo_json" by (simp add: demo_json_def)
  have "collect_string_nodes demo_json [] = [(''/m'', ''a@b'')]" by code_simp
  with sanitized_json_keeps_shape [OF out sound wf] out show ?thesis
    by (auto simp: list_all2_Cons1)
qed

text \<open>
  (C39) OPA makes a decision stricter and never laxer, and it is obeyed. When the service answers with a decision, the
  outcome is the stricter of that and the gateway's own, from the source \<open>opa\<close>; when it answers that it has none,
  the gateway's own stands. When it does not answer so (no connection, a status outside 200 to 299, a body that
  cannot be read), the request fails with an OPA error unless the policy is configured to fail open, and then the
  gateway's own decision stands and says that it was taken without OPA. The findings are never touched.
\<close>

theorem opa_never_laxer:
  assumes "run_opa rt = Some opa"
    and "input = \<lparr>oi_principal = who, oi_direction = dir, oi_path = path, oi_session_escalated = esc,
      oi_current_decision = po_decision base, oi_findings = po_findings base\<rparr>"
  shows "(\<forall>d. opa_answers (ga_opa G) opa input (Some d) \<longrightarrow>
      (\<exists>out. apply_opa_policy G rt who dir path esc base = Ok out \<and> po_source out = ''opa'' \<and>
        rank (po_decision out) = max (rank (po_decision base)) (rank (od_action d)) \<and> po_findings out = po_findings base)) \<and>
    (opa_answers (ga_opa G) opa input None \<longrightarrow> apply_opa_policy G rt who dir path esc base = Ok base) \<and>
    ((\<nexists>answer. opa_answers (ga_opa G) opa input answer) \<longrightarrow>
      (if oa_fail_open opa
       then \<exists>out. apply_opa_policy G rt who dir path esc base = Ok out \<and> po_source out = ''builtin_fail_open'' \<and>
         po_decision out = po_decision base \<and> po_findings out = po_findings base
       else \<exists>e. apply_opa_policy G rt who dir path esc base = Err (OpaErr e)))"
proof (intro conjI allI impI)
  fix d
  assume "opa_answers (ga_opa G) opa input (Some d)"
  then have "apply_opa_policy G rt who dir path esc base = Ok (opa_merge d base)"
    using assms by (simp add: apply_opa_policy_def opa_answers_evaluate)
  then show "\<exists>out. apply_opa_policy G rt who dir path esc base = Ok out \<and> po_source out = ''opa'' \<and>
      rank (po_decision out) = max (rank (po_decision base)) (rank (od_action d)) \<and> po_findings out = po_findings base"
    by (simp add: opa_merge_def decisions.strictness_join)
next
  assume "opa_answers (ga_opa G) opa input None"
  then show "apply_opa_policy G rt who dir path esc base = Ok base"
    using assms by (simp add: apply_opa_policy_def opa_answers_evaluate)
next
  assume "\<nexists>answer. opa_answers (ga_opa G) opa input answer"
  then obtain e where "opa_evaluate (ga_opa G) opa input = Inl e" using opa_unanswered_evaluate by blast
  then show "if oa_fail_open opa
       then \<exists>out. apply_opa_policy G rt who dir path esc base = Ok out \<and> po_source out = ''builtin_fail_open'' \<and>
         po_decision out = po_decision base \<and> po_findings out = po_findings base
       else \<exists>e. apply_opa_policy G rt who dir path esc base = Err (OpaErr e)"
    using assms by (simp add: apply_opa_policy_def)
qed

definition strict_opa :: opa_authorizer where
  "strict_opa = \<lparr>oa_url = ''u'', oa_healthcheck_url = ''h'', oa_fail_open = False, oa_timeout_ms = 1\<rparr>"

definition denying_gw :: gw_api where
  "denying_gw = demo_gw\<lparr>ga_opa := \<lparr>os_post = (\<lambda>_ _. HttpReply 200 (Some ''deny'')),
     os_parse = (\<lambda>_. Inr (Some \<lparr>od_action = Block, od_reason = None\<rparr>))\<rparr>\<rparr>"

text \<open>A service that denies, and one that cannot be reached.\<close>

theorem opa_never_laxer_witness:
  "(\<exists>out. apply_opa_policy denying_gw (demo_runtime\<lparr>run_opa := Some strict_opa\<rparr>) bob Request ''/v1'' False allow_outcome = Ok out \<and>
     rank (po_decision out) = rank Block) \<and>
   (\<exists>e. apply_opa_policy demo_gw (demo_runtime\<lparr>run_opa := Some strict_opa\<rparr>) bob Request ''/v1'' False allow_outcome = Err (OpaErr e))"
proof -
  let ?rt = "demo_runtime\<lparr>run_opa := Some strict_opa\<rparr>"
  have opa: "run_opa ?rt = Some strict_opa" by simp
  note rule = opa_never_laxer [OF opa refl, where who = bob and dir = Request and path = "''/v1''" and esc = False
      and base = allow_outcome]
  have "opa_answers (ga_opa denying_gw) strict_opa i (Some \<lparr>od_action = Block, od_reason = None\<rparr>)" for i
    by (simp add: opa_answers_def denying_gw_def)
  then have "\<exists>out. apply_opa_policy denying_gw ?rt bob Request ''/v1'' False allow_outcome = Ok out \<and>
      rank (po_decision out) = max (rank (po_decision allow_outcome)) (rank Block)"
    using rule [where G = denying_gw] by fastforce
  moreover have "max (rank (po_decision allow_outcome)) (rank Block) = rank Block" by (simp add: allow_outcome_def)
  moreover have "\<nexists>answer. opa_answers (ga_opa demo_gw) strict_opa i answer" for i
    by (simp add: opa_answers_def demo_gw_def)
  then have "\<exists>e. apply_opa_policy demo_gw ?rt bob Request ''/v1'' False allow_outcome = Err (OpaErr e)"
    using rule [where G = demo_gw] by (simp add: strict_opa_def)
  ultimately show ?thesis by simp
qed

end
