(* ===== verification/Mitm_Claims.thy ===== *)
theory Mitm_Claims
  imports Gw_Demo
begin

text \<open>
  The properties of the transparent proxy: which hosts are intercepted whatever rule-sets arrive,
  what is forwarded, and what is counted.
\<close>

section \<open>Rule-sets\<close>

abbreviation ruleset_updates ::
  "host_regex_api \<Rightarrow> sig_api \<Rightarrow> string \<Rightarrow> updater \<Rightarrow> updater \<Rightarrow> bool" where
  "ruleset_updates X A pubkey \<equiv> (\<lambda>u v. \<exists>resp. v = updater_poll X A pubkey resp u)\<^sup>*\<^sup>*"

text \<open>
  (C12) No sequence of rule-set downloads takes the protection of a baked-in provider away: after
  any update, a request to such a host is intercepted, whatever the rule-sets pass through, unless
  this client's connection to it is in the pin cache.
\<close>

theorem baked_in_hosts_stay_intercepted:
  assumes "ruleset_updates X A pubkey (updater_start X cfg) u" and "0 < ud_current_version u"
    and "baked_in_host X (request_host W (mq_uri_host rq) (mq_headers rq))"
  shows "fst (should_intercept W X (ud_classifier u) now peer rq pins) \<longleftrightarrow>
    \<not> fst (is_pinned now peer (request_host W (mq_uri_host rq) (mq_headers rq)) pins)"
proof -
  have "updater_inv X A pubkey cfg u" using updates.reachable_invariant [OF refl assms(1)] .
  with assms(2) obtain rs where "ud_classifier u = classifier_from_ruleset X rs"
    by (auto simp: updater_inv_def updater_start_def)
  with assms(3) show ?thesis by (simp add: should_intercept_eq classify_from_ruleset_floor)
qed

definition demo_hosts :: host_regex_api where
  "demo_hosts = \<lparr>hx_error = (\<lambda>_. False), hx_is_match = (\<lambda>_ _. False)\<rparr>"

definition hostile_rules :: ruleset where
  "hostile_rules = \<lparr>rl_version = 3, rl_intercept = [], rl_passthrough = [Exact ''api.openai.com''],
     rl_default_action = Passthrough, rl_signs_body = [Exact ''api.openai.com'']\<rparr>"

definition demo_sig :: sig_api where
  "demo_sig = \<lparr>sg_envelope = (\<lambda>b. Inr \<lparr>sr_ruleset = b, sr_signature = ''s''\<rparr>),
     sg_hex_decode = (\<lambda>s. Some (replicate (if s = ''s'' then 64 else 32) CHR ''0'')), sg_key_ok = (\<lambda>_. True),
     sg_verify = (\<lambda>_ m _. m = ''rules''), sg_payload = (\<lambda>_. Inr hostile_rules)\<rparr>"

definition demo_proxy :: proxy_config where
  "demo_proxy = \<lparr>px_listen_addr = [], px_ca_dir = [], px_ca_key_path = None, px_ca_cert_path = None, px_ca_key_path_env = [],
     px_leaf_ttl_days = 1, px_cert_cache_size = 1, px_intercept = default_intercept_hosts, px_passthrough = [],
     px_default_action = Passthrough, px_signs_body = [], px_per_app_rules = [], px_pin_fallback = pin_fallback_config_default,
     px_ruleset_url = None, px_ruleset_pubkey = None, px_ruleset_poll_secs = 1\<rparr>"

definition demo_feed :: feed_response where
  "demo_feed = \<lparr>fr_content_length = Some 5, fr_chunks = [Some ''ru'', Some ''les'']\<rparr>"

definition hostile_update :: updater where
  "hostile_update = updater_poll demo_hosts demo_sig ''key'' (Some demo_feed) (updater_start demo_hosts demo_proxy)"

definition openai_request :: mitm_request where
  "openai_request = \<lparr>mq_uri_host = Some ''API.openai.com'', mq_path = ''/v1'', mq_headers = [], mq_body = [DataFrame ''hi a@b'']\<rparr>"

lemma hostile_update_eq:
  "hostile_update = \<lparr>ud_classifier = classifier_from_ruleset demo_hosts hostile_rules, ud_current_version = 3\<rparr>"
proof -
  have "trim ''key'' = ''key''" "trim ''s'' = ''s''" by code_simp+
  then have v: "parse_and_verify demo_sig ''rules'' ''key'' = Ok hostile_rules"
    by (simp add: parse_and_verify_def decode_exact_def demo_sig_def max_ruleset_bytes_def)
  have f: "fetch_ruleset (Some demo_feed) = Some ''rules''"
    by (simp add: fetch_ruleset_def demo_feed_def max_ruleset_bytes_def)
  show ?thesis by (simp add: hostile_update_def updater_poll_def f v updater_start_def) (simp add: hostile_rules_def)
qed

lemma hostile_update_reached: "ruleset_updates demo_hosts demo_sig ''key'' (updater_start demo_hosts demo_proxy) hostile_update"
  unfolding hostile_update_def by (rule r_into_rtranclp) blast

theorem baked_in_hosts_stay_intercepted_witness:
  "rl_passthrough hostile_rules = [Exact ''api.openai.com''] \<and>
   fst (should_intercept demo_http demo_hosts (ud_classifier hostile_update) 5 ''peer'' openai_request \<lparr>pin_ttl = 60, pin_inner = []\<rparr>)"
proof -
  have "baked_in_host demo_hosts (request_host demo_http (mq_uri_host openai_request) (mq_headers openai_request))"
    by code_simp
  moreover have "0 < ud_current_version hostile_update" by (simp add: hostile_update_eq)
  moreover have "\<not> fst (is_pinned 5 ''peer'' (request_host demo_http (mq_uri_host openai_request) (mq_headers openai_request))
      \<lparr>pin_ttl = 60, pin_inner = []\<rparr>)" by (simp add: is_pinned_def hm_get_def)
  ultimately show ?thesis
    using baked_in_hosts_stay_intercepted [OF hostile_update_reached] by (simp add: hostile_rules_def)
qed

lemma updates_monotone:
  assumes "ruleset_updates X A pubkey u v"
  shows "ud_current_version u \<le> ud_current_version v \<and> (ud_current_version v = ud_current_version u \<longrightarrow> v = u)"
  using assms
proof (induction rule: rtranclp_induct)
  case (step v w)
  then obtain resp where w: "w = updater_poll X A pubkey resp v" by blast
  with step.IH updater_poll_version [of v X A pubkey resp] updater_poll_same_version [of X A pubkey resp v]
  show ?case by (metis dual_order.antisym le_trans)
qed simp

text \<open>
  (C13) The classifier in force only moves forward: after further polls its version has not gone
  down, the same version means the same classifier, and a version other than the first is that of a
  rule-set whose signature the pinned key verified and whose bytes were within the size limit.
\<close>

theorem updates_verified_and_monotone:
  assumes "ruleset_updates X A pubkey (updater_start X cfg) u" and "ruleset_updates X A pubkey u v"
  shows "ud_current_version u \<le> ud_current_version v \<and> (ud_current_version v = ud_current_version u \<longrightarrow> v = u) \<and>
    (v \<noteq> updater_start X cfg \<longrightarrow> (\<exists>rs bytes env key sig.
      ud_classifier v = classifier_from_ruleset X rs \<and> ud_current_version v = rl_version rs \<and>
      length bytes \<le> max_ruleset_bytes \<and> sg_envelope A bytes = Inr env \<and> sg_hex_decode A (trim pubkey) = Some key \<and>
      sg_hex_decode A (trim (sr_signature env)) = Some sig \<and> sg_verify A key (sr_ruleset env) sig \<and>
      sg_payload A (sr_ruleset env) = Inr rs))"
proof -
  from assms have "ruleset_updates X A pubkey (updater_start X cfg) v" by (rule rtranclp_trans)
  from updates.reachable_invariant [OF refl this] have "updater_inv X A pubkey cfg v" .
  then have "v \<noteq> updater_start X cfg \<longrightarrow> (\<exists>rs bytes. parse_and_verify A bytes pubkey = Ok rs \<and>
      ud_classifier v = classifier_from_ruleset X rs \<and> ud_current_version v = rl_version rs)"
    unfolding updater_inv_def by auto
  with updates_monotone [OF assms(2)] parse_and_verify_Ok show ?thesis by metis
qed

theorem updates_verified_and_monotone_witness:
  "\<exists>rs env key sig. ud_classifier hostile_update = classifier_from_ruleset demo_hosts rs \<and>
     sg_verify demo_sig key (sr_ruleset (env :: signed_ruleset)) sig \<and> sg_payload demo_sig (sr_ruleset env) = Inr rs"
proof -
  have "ud_current_version hostile_update \<noteq> ud_current_version (updater_start demo_hosts demo_proxy)"
    by (simp add: hostile_update_eq updater_start_def)
  then have "hostile_update \<noteq> updater_start demo_hosts demo_proxy" by metis
  with updates_verified_and_monotone [OF rtranclp.rtrancl_refl hostile_update_reached] show ?thesis by blast
qed

section \<open>Requests and responses\<close>

text \<open>
  (C11) What the proxy forwards of an intercepted request: never a request whose decision is to
  block; otherwise the sanitised body, except to a host whose requests sign their body, which gets
  the original bytes. Everything else of the request stays but its framing headers, and exactly
  one audit record is written, with the decision.
\<close>

theorem mitm_forwards_sanitized:
  assumes "mitm_handle_request G M now rt rng who cls rq0 s = (Some (ForwardRequest out), s')"
  shows "\<exists>rq raw processed entry. mi_decode_request M rq0 = Some rq \<and> collect_body (mq_body rq) = Inr raw \<and>
    process_payload G rt (\<lambda>p. rng (1 # p)) who raw (header_str (ga_http G) (mq_headers rq) ''content-type'') Request = Ok processed \<and>
    po_decision (pp_policy processed) \<noteq> Block \<and>
    mq_body out = [DataFrame (if signs_body (mi_hosts M) cls (request_host (ga_http G) (mq_uri_host rq) (mq_headers rq))
      then raw else pp_sanitized_body processed)] \<and>
    mq_uri_host out = mq_uri_host rq \<and> mq_path out = mq_path rq \<and> mq_headers out = strip_framing_headers (mq_headers rq) \<and>
    sk_channel (gs_audit s') = sk_channel (gs_audit s) @ [entry] \<and>
    ar_decision entry = action_name (po_decision (pp_policy processed))"
proof -
  from assms obtain rq raw processed where "mi_decode_request M rq0 = Some rq" "collect_body (mq_body rq) = Inr raw"
    "process_payload G rt (\<lambda>p. rng (1 # p)) who raw (header_str (ga_http G) (mq_headers rq) ''content-type'') Request = Ok processed"
    "po_decision (pp_policy processed) \<noteq> Block"
    and body: "mq_body out = [DataFrame (mitm_outbound (mi_hosts M) cls
         (request_host (ga_http G) (mq_uri_host rq) (mq_headers rq)) raw (pp_sanitized_body processed))]"
    and "mq_uri_host out = mq_uri_host rq" "mq_path out = mq_path rq" "mq_headers out = strip_framing_headers (mq_headers rq)"
    "\<exists>record. trail s' = trail s @ [record] \<and> ar_decision record = action_name (po_decision (pp_policy processed)) \<and>
         ar_path record = mq_path rq"
    by (rule mitm_handle_request_forward) (rule that)
  moreover have "mitm_outbound (mi_hosts M) cls h raw b = (if signs_body (mi_hosts M) cls h then raw else b)" for h b
    by (simp add: mitm_outbound_def)
  ultimately show ?thesis by auto
qed

definition demo_mitm :: mitm_api where
  "demo_mitm = \<lparr>mi_hosts = demo_hosts, mi_decode_request = Some, mi_decode_response = Some\<rparr>"

theorem mitm_forwards_sanitized_witness:
  "\<exists>out s' processed. mitm_handle_request demo_gw demo_mitm 100 demo_runtime demo_uuid bob
      (classifier_from_config demo_hosts demo_proxy) openai_request demo_state = (Some (ForwardRequest out), s') \<and>
     process_payload demo_gw demo_runtime (\<lambda>p. demo_uuid (1 # p)) bob ''hi a@b'' None Request = Ok processed \<and>
     mq_body out = [DataFrame (pp_sanitized_body processed)]"
proof -
  let ?cls = "classifier_from_config demo_hosts demo_proxy"
  let ?out = "mitm_handle_request demo_gw demo_mitm 100 demo_runtime demo_uuid bob ?cls openai_request demo_state"
  have "(case fst ?out of Some (ForwardRequest out) \<Rightarrow> True | _ \<Rightarrow> False)" by code_simp
  then obtain out s' where out: "?out = (Some (ForwardRequest out), s')"
    by (cases ?out) (auto split: option.splits request_or_response.splits)
  have "\<not> signs_body demo_hosts ?cls h" for h
    by (simp add: signs_body_def classifier_from_config_def classifier_new_def demo_proxy_def compile_all_def
        List.map_filter_def any_match_def)
  moreover have "header_str (ga_http demo_gw) (mq_headers openai_request) ''content-type'' = None" by code_simp
  ultimately show ?thesis
    using mitm_forwards_sanitized [OF out] out by (auto simp: demo_mitm_def openai_request_def)
qed

text \<open>
  A buffered response reaches the client only in its sanitised form, with the status it had;
  one that cannot be decoded, read or processed becomes the fixed error response.
\<close>

theorem mitm_response_sanitized:
  assumes "mitm_handle_response G M now rt rng who res0 s = (Some out, s')"
    and "\<not> is_sse (header_str (ga_http G) (mr_headers res0) ''content-type'')"
  shows "out = bad_gateway \<or> (\<exists>res raw processed. mi_decode_response M res0 = Some res \<and>
    collect_body (mr_body res) = Inr raw \<and>
    process_payload G rt rng who raw (header_str (ga_http G) (mr_headers res) ''content-type'') Response = Ok processed \<and>
    mr_status out = mr_status res \<and> mr_body out = [DataFrame (pp_sanitized_body processed)])"
  using assms by (rule mitm_handle_response_buffered)

definition openai_response :: mitm_response where
  "openai_response = \<lparr>mr_status = 200, mr_headers = [], mr_body = [DataFrame ''hi a'', TrailersFrame, DataFrame ''@b'']\<rparr>"

lemma demo_response:
  "\<exists>out s'. mitm_handle_response demo_gw demo_mitm 100 demo_runtime demo_uuid bob openai_response demo_state = (Some out, s') \<and>
     mr_status out = 200 \<and> mr_body out = [DataFrame ''hi [email]'']"
proof -
  let ?out = "mitm_handle_response demo_gw demo_mitm 100 demo_runtime demo_uuid bob openai_response demo_state"
  have "(case fst ?out of Some out \<Rightarrow> mr_status out = 200 \<and> mr_body out = [DataFrame ''hi [email]''] | _ \<Rightarrow> False)" by code_simp
  then show ?thesis by (cases ?out) (auto split: option.splits)
qed

lemma openai_response_type: "header_str (ga_http demo_gw) (mr_headers openai_response) ''content-type'' = None"
  by code_simp

theorem mitm_response_sanitized_witness:
  "\<exists>out s' processed. mitm_handle_response demo_gw demo_mitm 100 demo_runtime demo_uuid bob openai_response demo_state = (Some out, s') \<and>
     process_payload demo_gw demo_runtime demo_uuid bob ''hi a@b'' None Response = Ok processed \<and>
     mr_status out = 200 \<and> mr_body out = [DataFrame (pp_sanitized_body processed)]"
proof -
  let ?out = "mitm_handle_response demo_gw demo_mitm 100 demo_runtime demo_uuid bob openai_response demo_state"
  from demo_response obtain out s' where out: "?out = (Some out, s')" "mr_status out = 200" by blast
  note ct = openai_response_type
  then have "\<not> is_sse (header_str (ga_http demo_gw) (mr_headers openai_response) ''content-type'')" by (simp add: is_sse_def)
  from mitm_response_sanitized [OF out(1) this] out ct show ?thesis
    by (auto simp: demo_mitm_def openai_response_def bad_gateway_def)
qed

text \<open>
  (C38) The body of a buffered response that reaches the client keeps the promise of the pipeline: the upstream's
  text, or each string of its JSON value, with flagged spans replaced by their masks and nothing else touched.
  A response that cannot be decoded, read or processed becomes the fixed error response.
\<close>

theorem mitm_response_masked:
  assumes "mitm_handle_response G M now rt rng who res0 s = (Some out, s')"
    and "\<not> is_sse (header_str (ga_http G) (mr_headers res0) ''content-type'')"
    and "regex_sound (sc_regex (ga_scan G))" and "json_sound (sc_json (ga_scan G))" and "json_strings_ok (sc_json (ga_scan G))"
  shows "out = bad_gateway \<or> (\<exists>res raw masked. mi_decode_response M res0 = Some res \<and>
    collect_body (mr_body res) = Inr raw \<and> mr_status out = mr_status res \<and> mr_body out = [DataFrame masked] \<and>
    payload_masked G rt who Response (header_str (ga_http G) (mr_headers res) ''content-type'') raw masked)"
  using mitm_handle_response_buffered [OF assms(1,2)]
proof (elim disjE exE conjE)
  fix res raw processed
  assume "mi_decode_response M res0 = Some res" "collect_body (mr_body res) = Inr raw" "mr_status out = mr_status res"
    "mr_body out = [DataFrame (pp_sanitized_body processed)]"
    and "process_payload G rt rng who raw (header_str (ga_http G) (mr_headers res) ''content-type'') Response = Ok processed"
  with process_payload_masked [OF this(5) _ assms(3-5)] show ?thesis by blast
qed simp

theorem mitm_response_masked_witness:
  "text_masked demo_gw demo_runtime (text_findings demo_gw demo_runtime bob Response ''hi a@b'' ''/'') ''hi a@b'' ''hi [email]''"
proof -
  let ?out = "mitm_handle_response demo_gw demo_mitm 100 demo_runtime demo_uuid bob openai_response demo_state"
  from demo_response obtain out s' where out: "?out = (Some out, s')" "mr_status out = 200" "mr_body out = [DataFrame ''hi [email]'']"
    by blast
  note ct = openai_response_type
  then have sse: "\<not> is_sse (header_str (ga_http demo_gw) (mr_headers openai_response) ''content-type'')" by (simp add: is_sse_def)
  have body: "collect_body (mr_body openai_response) = Inr ''hi a@b''" "utf8_valid ''hi a@b''" by code_simp+
  from mitm_response_masked [OF out(1) sse demo_gw_sound] out ct body
  have "payload_masked demo_gw demo_runtime bob Response None ''hi a@b'' ''hi [email]''"
    by (auto simp: demo_mitm_def bad_gateway_def)
  with body(2) show ?thesis by (simp add: payload_masked_def is_json_def)
qed

fun is_tokens :: "metric_event \<Rightarrow> bool" where
  "is_tokens (MLlmTokens m p c) = True"
| "is_tokens e = False"

definition token_events :: "gw_state \<Rightarrow> metric_event list" where
  "token_events s = filter is_tokens (gs_metrics s)"

lemma token_events_metric: "token_events (metric e s) = token_events s @ (if is_tokens e then [e] else [])"
  by (simp add: token_events_def metric_def)

lemma token_events_fold: "token_events (fold metric es s) = token_events s @ filter is_tokens es"
  by (induction es arbitrary: s) (simp_all add: token_events_metric)

lemma token_events_telemetry:
  "token_events (emit_decision_telemetry now who dir rid path pol st s) = token_events s"
proof -
  have findings: "token_events (emit_metrics_for_findings dir fs s) = token_events s" for fs s
    by (induction fs arbitrary: s) (simp_all add: emit_metrics_for_findings_def token_events_metric)
  have audit: "token_events (emit_audit r s) = token_events s" for r s
    by (simp add: emit_audit_def token_events_def)
  have "token_events (emit_processing_fallback_metric src s) = token_events s" for src s
    by (simp add: emit_processing_fallback_metric_def token_events_metric)
  with findings audit show ?thesis by (simp add: emit_decision_telemetry_def Let_def token_events_metric)
qed

text \<open>
  An event stream is redacted and counted by its bytes: how they are cut into frames makes no
  difference to the output, the metrics or the audit record, and however many lines report usage,
  the tokens of one stream are counted at most once.
\<close>

theorem mitm_stream_counted_once:
  assumes "collect_body a = Inr bytes" and "collect_body b = Inr bytes"
    and "redact_sse_stream G now rt rng who a s = (out, s')"
  shows "redact_sse_stream G now rt rng who b s = (out, s') \<and>
    length (token_events s') \<le> Suc (length (token_events s))"
proof
  have "received (stream_chunks b) = received (stream_chunks a)" using assms(1,2) by (simp add: stream_chunks_received)
  from redact_sse_stream_frames [OF this] assms(3) show "redact_sse_stream G now rt rng who b s = (out, s')" by simp
  show "length (token_events s') \<le> Suc (length (token_events s))"
  proof (cases "sse_stream (mitm_line_fn G rt rng who)
      \<lparr>tr_policy = allow_outcome, tr_metered = False, tr_events = []\<rparr> (stream_chunks a)")
    case (Some q)
    with assms(3) have "token_events s' = token_events s @ filter is_tokens (tr_events (sq_user q))"
      by (auto simp: redact_sse_stream_def Let_def token_events_telemetry token_events_fold)
    moreover have "length (filter is_tokens (tr_events (sq_user q))) \<le> 1"
      using stream_metered_once [OF Some] length_filter_le le_trans by blast
    ultimately show ?thesis by simp
  qed (use assms(3) in \<open>simp add: redact_sse_stream_def\<close>)
qed

theorem mitm_stream_counted_once_witness:
  "redact_sse_stream demo_gw 100 demo_runtime demo_uuid bob [DataFrame ''data: a@b'', TrailersFrame] demo_state =
   redact_sse_stream demo_gw 100 demo_runtime demo_uuid bob [DataFrame ''data: a'', DataFrame ''@b''] demo_state"
proof -
  let ?a = "[DataFrame ''data: a'', DataFrame ''@b'']" and ?b = "[DataFrame ''data: a@b'', TrailersFrame]"
  obtain out s' where a: "redact_sse_stream demo_gw 100 demo_runtime demo_uuid bob ?a demo_state = (out, s')" by fastforce
  have "collect_body ?a = Inr ''data: a@b''" "collect_body ?b = Inr ''data: a@b''" by simp_all
  from mitm_stream_counted_once [OF this a] a show ?thesis by simp
qed

text \<open>
  A signed rule-set can still let the bodies of a baked-in provider through in clear: it may
  list the provider among the hosts that sign their body, and the proxy then intercepts the request
  and forwards its original bytes.
\<close>

theorem ruleset_can_clear_a_baked_in_host:
  "fst (should_intercept demo_http demo_hosts (ud_classifier hostile_update) 5 ''peer'' openai_request \<lparr>pin_ttl = 60, pin_inner = []\<rparr>) \<and>
   (\<exists>out s'. mitm_handle_request demo_gw demo_mitm 100 demo_runtime demo_uuid bob (ud_classifier hostile_update) openai_request
      demo_state = (Some (ForwardRequest out), s') \<and> mq_body out = [DataFrame ''hi a@b''])"
proof
  show "fst (should_intercept demo_http demo_hosts (ud_classifier hostile_update) 5 ''peer'' openai_request \<lparr>pin_ttl = 60, pin_inner = []\<rparr>)"
    unfolding hostile_update_eq by code_simp
  let ?out = "mitm_handle_request demo_gw demo_mitm 100 demo_runtime demo_uuid bob (classifier_from_ruleset demo_hosts hostile_rules)
    openai_request demo_state"
  have "(case fst ?out of Some (ForwardRequest out) \<Rightarrow> mq_body out = [DataFrame ''hi a@b''] | _ \<Rightarrow> False)" by code_simp
  then show "\<exists>out s'. mitm_handle_request demo_gw demo_mitm 100 demo_runtime demo_uuid bob (ud_classifier hostile_update) openai_request
      demo_state = (Some (ForwardRequest out), s') \<and> mq_body out = [DataFrame ''hi a@b'']"
    unfolding hostile_update_eq by (cases ?out) (auto split: option.splits request_or_response.splits)
qed

end
