(* ===== verification/Gw_Bench.thy ===== *)
theory Gw_Bench
  imports Core_Config
begin

text \<open>
  \<open>src/benchmarks.rs\<close>: the benchmark summaries, the comparison of a summary with its baseline, the
  surface shown to administrators, and the promotion of a summary to baseline. The file system is
  the result of reading each path; the two JSON parsers are parameters; \<open>f64\<close> is \<open>real\<close> (the numbers
  come from JSON, so there is no NaN and no infinity).
\<close>

section \<open>Data\<close>

record benchmark_aggregation_summary =
  bmba_method :: string
  bmba_runs :: nat

record benchmark_latency_summary =
  bmbl_min :: real
  bmbl_p50 :: real
  bmbl_p95 :: real
  bmbl_max :: real
  bmbl_avg :: real

record benchmark_decision_sources =
  bmbd_request :: "string list"
  bmbd_response :: "string list"

record benchmark_dependency_ready =
  bmbr_opa :: bool
  bmbr_presidio :: bool

record benchmark_features =
  bmbf_attachment_scanning :: bool
  bmbf_opa :: bool
  bmbf_presidio :: bool
  bmbf_response_filtering :: bool
  bmbf_session_correlation :: bool
  bmbf_tokenization :: bool

record benchmark_thresholds =
  bmbt_throughput_rps_min :: real
  bmbt_avg_ms_max :: real
  bmbt_p95_ms_max :: real
  bmbt_payload_request_avg_ms_max :: real
  bmbt_payload_response_avg_ms_max :: real
  bmbt_upstream_avg_ms_max :: real

record benchmark_scenario_aggregation_run =
  bmbu_run :: string
  bmbu_artifacts_root :: string
  bmbu_throughput_rps :: real
  bmbu_avg_ms :: real
  bmbu_p95_ms :: real
  bmbu_payload_request_avg_ms :: real
  bmbu_payload_response_avg_ms :: real
  bmbu_upstream_avg_ms :: real
  bmbu_ok :: bool

record benchmark_scenario_aggregation_summary =
  bmbg_method :: string
  bmbg_runs :: nat
  bmbg_sample_runs :: "benchmark_scenario_aggregation_run list"

record benchmark_scenario_summary =
  bmbn_scenario :: string
  bmbn_description :: string
  bmbn_generated_at :: string
  bmbn_requests :: nat
  bmbn_concurrency :: nat
  bmbn_throughput_rps :: real
  bmbn_latency_ms :: benchmark_latency_summary
  bmbn_payload_request_avg_ms :: real
  bmbn_payload_response_avg_ms :: real
  bmbn_upstream_avg_ms :: real
  bmbn_request_payload_kind :: string
  bmbn_decision_sources :: benchmark_decision_sources
  bmbn_dependency_ready :: benchmark_dependency_ready
  bmbn_features :: benchmark_features
  bmbn_artifacts_root :: string
  bmbn_thresholds :: benchmark_thresholds
  bmbn_ok :: bool
  bmbn_aggregation :: "benchmark_scenario_aggregation_summary option"

record benchmark_summary =
  bmbs_generated_at :: string
  bmbs_scenario_count :: nat
  bmbs_aggregation :: "benchmark_aggregation_summary option"
  bmbs_scenarios :: "benchmark_scenario_summary list"

record benchmark_scenario_surface =
  bmsc_scenario :: string
  bmsc_description :: string
  bmsc_requests :: nat
  bmsc_concurrency :: nat
  bmsc_throughput_rps :: real
  bmsc_latency_ms :: benchmark_latency_summary
  bmsc_payload_request_avg_ms :: real
  bmsc_payload_response_avg_ms :: real
  bmsc_upstream_avg_ms :: real
  bmsc_request_payload_kind :: string
  bmsc_features :: benchmark_features
  bmsc_dependency_ready :: benchmark_dependency_ready
  bmsc_decision_sources :: benchmark_decision_sources
  bmsc_ok :: bool
  bmsc_artifacts_root :: string
  bmsc_aggregation :: "benchmark_scenario_aggregation_summary option"

record benchmark_scenario_delta_surface =
  bmsd_scenario :: string
  bmsd_classification :: string
  bmsd_throughput_rps_current :: real
  bmsd_throughput_rps_baseline :: "real option"
  bmsd_throughput_delta_pct :: "real option"
  bmsd_avg_ms_current :: real
  bmsd_avg_ms_baseline :: "real option"
  bmsd_avg_delta_pct :: "real option"
  bmsd_p95_ms_current :: real
  bmsd_p95_ms_baseline :: "real option"
  bmsd_p95_delta_pct :: "real option"

record benchmark_baseline_surface =
  bmsb_configured_path :: string
  bmsb_loaded :: bool
  bmsb_generated_at :: "string option"
  bmsb_scenario_count :: nat
  bmsb_regressions :: nat
  bmsb_improvements :: nat
  bmsb_unchanged :: nat
  bmsb_missing_in_baseline :: nat
  bmsb_scenarios :: "benchmark_scenario_delta_surface list"
  bmsb_error :: "string option"

record benchmark_gate_threshold_surface =
  bmgt_max_regressions :: nat
  bmgt_fail_on_new :: bool
  bmgt_throughput_regression_pct :: real
  bmgt_avg_latency_regression_pct :: real
  bmgt_p95_latency_regression_pct :: real
  bmgt_avg_latency_floor_ms :: real
  bmgt_p95_latency_floor_ms :: real
  bmgt_throughput_improvement_pct :: real
  bmgt_latency_improvement_pct :: real
  bmgt_volatility_guard_mode :: string

record benchmark_gate_volatility_band_surface =
  bmgb_metric :: string
  bmgb_sample_count :: nat
  bmgb_low :: real
  bmgb_high :: real
  bmgb_spread_abs :: real
  bmgb_spread_pct :: "real option"

record benchmark_gate_volatility_pair_surface =
  bmgp_current :: benchmark_gate_volatility_band_surface
  bmgp_baseline :: "benchmark_gate_volatility_band_surface option"

record benchmark_gate_volatility_surface =
  bmgv_throughput_rps :: benchmark_gate_volatility_pair_surface
  bmgv_avg_ms :: benchmark_gate_volatility_pair_surface
  bmgv_p95_ms :: benchmark_gate_volatility_pair_surface

record benchmark_gate_row_surface =
  bmgr_scenario :: string
  bmgr_classification :: string
  bmgr_throughput_rps_current :: real
  bmgr_throughput_rps_baseline :: "real option"
  bmgr_throughput_delta_pct :: "real option"
  bmgr_avg_ms_current :: real
  bmgr_avg_ms_baseline :: "real option"
  bmgr_avg_delta_pct :: "real option"
  bmgr_p95_ms_current :: real
  bmgr_p95_ms_baseline :: "real option"
  bmgr_p95_delta_pct :: "real option"
  bmgr_ok :: bool
  bmgr_raw_regression_metrics :: "string list"
  bmgr_raw_improvement_metrics :: "string list"
  bmgr_suppressed_regression_metrics :: "string list"
  bmgr_suppressed_improvement_metrics :: "string list"
  bmgr_volatility_bands :: benchmark_gate_volatility_surface

record benchmark_gate_surface =
  bmsg_configured_path :: string
  bmsg_loaded :: bool
  bmsg_fresh :: bool
  bmsg_status :: "string option"
  bmsg_summary_generated_at :: "string option"
  bmsg_baseline_generated_at :: "string option"
  bmsg_summary_aggregation :: "benchmark_aggregation_summary option"
  bmsg_baseline_aggregation :: "benchmark_aggregation_summary option"
  bmsg_aggregation_compatible :: bool
  bmsg_scenario_count :: nat
  bmsg_baseline_scenario_count :: nat
  bmsg_regressions :: nat
  bmsg_improvements :: nat
  bmsg_unchanged :: nat
  bmsg_new_scenarios :: nat
  bmsg_thresholds :: "benchmark_gate_threshold_surface option"
  bmsg_rows :: "benchmark_gate_row_surface list"
  bmsg_failures :: "string list"
  bmsg_error :: "string option"

record benchmark_surface =
  bmsu_enabled :: bool
  bmsu_configured_path :: string
  bmsu_loaded :: bool
  bmsu_generated_at :: "string option"
  bmsu_scenario_count :: nat
  bmsu_aggregation :: "benchmark_aggregation_summary option"
  bmsu_scenarios :: "benchmark_scenario_surface list"
  bmsu_baseline :: "benchmark_baseline_surface option"
  bmsu_gate :: "benchmark_gate_surface option"
  bmsu_error :: "string option"

record benchmark_gate_report =
  bmgg_status :: string
  bmgg_summary_path :: string
  bmgg_baseline_path :: string
  bmgg_summary_generated_at :: "string option"
  bmgg_baseline_generated_at :: "string option"
  bmgg_summary_aggregation :: benchmark_aggregation_summary
  bmgg_baseline_aggregation :: benchmark_aggregation_summary
  bmgg_aggregation_compatible :: bool
  bmgg_scenario_count :: nat
  bmgg_baseline_scenario_count :: nat
  bmgg_regressions :: nat
  bmgg_improvements :: nat
  bmgg_unchanged :: nat
  bmgg_new_scenarios :: nat
  bmgg_thresholds :: benchmark_gate_threshold_surface
  bmgg_rows :: "benchmark_gate_row_surface list"
  bmgg_failures :: "string list"

record benchmark_baseline_promotion =
  bmbp_summary_path :: string
  bmbp_baseline_path :: string

definition benchmark_summary_default :: benchmark_summary where
  "benchmark_summary_default =
     \<lparr>bmbs_generated_at = [],
      bmbs_scenario_count = 0,
      bmbs_aggregation = None,
      bmbs_scenarios = []\<rparr>"

definition benchmark_surface_default :: benchmark_surface where
  "benchmark_surface_default =
     \<lparr>bmsu_enabled = False,
      bmsu_configured_path = [],
      bmsu_loaded = False,
      bmsu_generated_at = None,
      bmsu_scenario_count = 0,
      bmsu_aggregation = None,
      bmsu_scenarios = [],
      bmsu_baseline = None,
      bmsu_gate = None,
      bmsu_error = None\<rparr>"

definition benchmark_baseline_surface_default :: benchmark_baseline_surface where
  "benchmark_baseline_surface_default =
     \<lparr>bmsb_configured_path = [],
      bmsb_loaded = False,
      bmsb_generated_at = None,
      bmsb_scenario_count = 0,
      bmsb_regressions = 0,
      bmsb_improvements = 0,
      bmsb_unchanged = 0,
      bmsb_missing_in_baseline = 0,
      bmsb_scenarios = [],
      bmsb_error = None\<rparr>"

definition benchmark_gate_surface_default :: benchmark_gate_surface where
  "benchmark_gate_surface_default =
     \<lparr>bmsg_configured_path = [],
      bmsg_loaded = False,
      bmsg_fresh = False,
      bmsg_status = None,
      bmsg_summary_generated_at = None,
      bmsg_baseline_generated_at = None,
      bmsg_summary_aggregation = None,
      bmsg_baseline_aggregation = None,
      bmsg_aggregation_compatible = False,
      bmsg_scenario_count = 0,
      bmsg_baseline_scenario_count = 0,
      bmsg_regressions = 0,
      bmsg_improvements = 0,
      bmsg_unchanged = 0,
      bmsg_new_scenarios = 0,
      bmsg_thresholds = None,
      bmsg_rows = [],
      bmsg_failures = [],
      bmsg_error = None\<rparr>"

section \<open>Errors and files\<close>

datatype benchmark_summary_error =
    BenchRead string string
  | BenchParse string string
  | BenchDisabled
  | MissingBaselinePath
  | BenchWrite string string

fun bench_error_text :: "benchmark_summary_error \<Rightarrow> string" where
  "bench_error_text (BenchRead path source) = ''failed to read benchmark summary '' @ path @ '': '' @ source"
| "bench_error_text (BenchParse path source) = ''failed to parse benchmark summary '' @ path @ '': '' @ source"
| "bench_error_text BenchDisabled = ''benchmark matrix is disabled''"
| "bench_error_text MissingBaselinePath = ''benchmark baseline path is not configured''"
| "bench_error_text (BenchWrite path source) = ''failed to write benchmark baseline '' @ path @ '': '' @ source"

text \<open>
  \<open>serde_json::from_str\<close> at the two types; the errors of creating the parent directory of a path
  (\<open>None\<close> when there is no parent or it is there) and of writing a file.
\<close>

record bench_api =
  bi_summary :: "string \<Rightarrow> string + benchmark_summary"
  bi_gate :: "string \<Rightarrow> string + benchmark_gate_report"
  bi_create_parent :: "string \<Rightarrow> string option"
  bi_write :: "string \<Rightarrow> string option"

type_synonym bench_files = "string \<Rightarrow> string + string"

definition benchmark_summary_load ::
  "bench_api \<Rightarrow> bench_files \<Rightarrow> string \<Rightarrow> benchmark_summary_error + benchmark_summary" where
  "benchmark_summary_load B files path =
     (case files path of
        Inl source \<Rightarrow> Inl (BenchRead path source)
      | Inr raw \<Rightarrow> (case bi_summary B raw of Inl source \<Rightarrow> Inl (BenchParse path source) | Inr s \<Rightarrow> Inr s))"

definition non_empty_path :: "string option \<Rightarrow> string option" where
  "non_empty_path p = (case p of Some q \<Rightarrow> if q = [] then None else Some q | None \<Rightarrow> None)"

definition promote_benchmark_baseline ::
  "bench_api \<Rightarrow> benchmark_config \<Rightarrow> bench_files \<Rightarrow>
     (benchmark_summary_error + benchmark_baseline_promotion) \<times> bench_files" where
  "promote_benchmark_baseline B config files =
     (if \<not> bc_enabled config then (Inl BenchDisabled, files)
      else case non_empty_path (bc_baseline_summary_json_path config) of
          None \<Rightarrow> (Inl MissingBaselinePath, files)
        | Some baseline_path \<Rightarrow>
            (case files (bc_summary_json_path config) of
               Inl source \<Rightarrow> (Inl (BenchRead (bc_summary_json_path config) source), files)
             | Inr raw \<Rightarrow>
                 (case bi_summary B raw of
                    Inl source \<Rightarrow> (Inl (BenchParse (bc_summary_json_path config) source), files)
                  | Inr _ \<Rightarrow>
                      (case bi_create_parent B baseline_path of
                         Some source \<Rightarrow> (Inl (BenchWrite baseline_path source), files)
                       | None \<Rightarrow>
                           (case bi_write B baseline_path of
                              Some source \<Rightarrow> (Inl (BenchWrite baseline_path source), files)
                            | None \<Rightarrow>
                                (Inr \<lparr>bmbp_summary_path = bc_summary_json_path config, bmbp_baseline_path = baseline_path\<rparr>,
                                 files(baseline_path := Inr raw)))))))"

section \<open>Comparing two summaries\<close>

definition throughput_delta_threshold_pct :: real where
  "throughput_delta_threshold_pct = 5"

definition latency_delta_threshold_pct :: real where
  "latency_delta_threshold_pct = 10"

definition avg_latency_noise_floor_ms :: real where
  "avg_latency_noise_floor_ms = 1 / 4"

definition p95_latency_noise_floor_ms :: real where
  "p95_latency_noise_floor_ms = 1 / 2"

definition f64_epsilon :: real where
  "f64_epsilon = 1 / 2 ^ 52"

definition pct_delta :: "real \<Rightarrow> real \<Rightarrow> real option" where
  "pct_delta current baseline =
     (if \<bar>baseline\<bar> < f64_epsilon then None else Some ((current - baseline) / baseline * 100))"

definition latency_regressed :: "real \<Rightarrow> real \<Rightarrow> real option \<Rightarrow> real \<Rightarrow> bool" where
  "latency_regressed current_ms baseline_ms delta_pct noise_floor_ms \<longleftrightarrow>
     (case delta_pct of Some delta \<Rightarrow> delta \<ge> latency_delta_threshold_pct | None \<Rightarrow> False) \<and>
     current_ms - baseline_ms \<ge> noise_floor_ms"

definition latency_improved :: "real \<Rightarrow> real \<Rightarrow> real option \<Rightarrow> real \<Rightarrow> bool" where
  "latency_improved current_ms baseline_ms delta_pct noise_floor_ms \<longleftrightarrow>
     (case delta_pct of Some delta \<Rightarrow> delta \<le> - latency_delta_threshold_pct | None \<Rightarrow> False) \<and>
     baseline_ms - current_ms \<ge> noise_floor_ms"

definition compare_scenarios ::
  "benchmark_scenario_summary \<Rightarrow> benchmark_scenario_summary \<Rightarrow> benchmark_scenario_delta_surface" where
  "compare_scenarios current baseline =
     (let throughput_delta = pct_delta (bmbn_throughput_rps current) (bmbn_throughput_rps baseline);
          avg = bmbl_avg (bmbn_latency_ms current); avg0 = bmbl_avg (bmbn_latency_ms baseline);
          p95 = bmbl_p95 (bmbn_latency_ms current); p950 = bmbl_p95 (bmbn_latency_ms baseline);
          avg_delta = pct_delta avg avg0; p95_delta = pct_delta p95 p950;
          throughput_regressed =
            (case throughput_delta of Some delta \<Rightarrow> delta \<le> - throughput_delta_threshold_pct | None \<Rightarrow> False);
          avg_regressed = latency_regressed avg avg0 avg_delta avg_latency_noise_floor_ms;
          p95_regressed = latency_regressed p95 p950 p95_delta p95_latency_noise_floor_ms;
          throughput_improved =
            (case throughput_delta of Some delta \<Rightarrow> delta \<ge> throughput_delta_threshold_pct | None \<Rightarrow> False);
          avg_improved = latency_improved avg avg0 avg_delta avg_latency_noise_floor_ms;
          p95_improved = latency_improved p95 p950 p95_delta p95_latency_noise_floor_ms;
          classification =
            (if throughput_regressed \<or> avg_regressed \<or> p95_regressed then ''regression''
             else if throughput_improved \<or> avg_improved \<or> p95_improved then ''improvement''
             else ''unchanged'')
      in \<lparr>bmsd_scenario = bmbn_scenario current, bmsd_classification = classification,
          bmsd_throughput_rps_current = bmbn_throughput_rps current,
          bmsd_throughput_rps_baseline = Some (bmbn_throughput_rps baseline),
          bmsd_throughput_delta_pct = throughput_delta,
          bmsd_avg_ms_current = avg, bmsd_avg_ms_baseline = Some avg0, bmsd_avg_delta_pct = avg_delta,
          bmsd_p95_ms_current = p95, bmsd_p95_ms_baseline = Some p950, bmsd_p95_delta_pct = p95_delta\<rparr>)"

definition new_scenario_delta :: "benchmark_scenario_summary \<Rightarrow> benchmark_scenario_delta_surface" where
  "new_scenario_delta current =
     \<lparr>bmsd_scenario = bmbn_scenario current, bmsd_classification = ''new'',
      bmsd_throughput_rps_current = bmbn_throughput_rps current, bmsd_throughput_rps_baseline = None,
      bmsd_throughput_delta_pct = None,
      bmsd_avg_ms_current = bmbl_avg (bmbn_latency_ms current), bmsd_avg_ms_baseline = None, bmsd_avg_delta_pct = None,
      bmsd_p95_ms_current = bmbl_p95 (bmbn_latency_ms current), bmsd_p95_ms_baseline = None, bmsd_p95_delta_pct = None\<rparr>"

text \<open>The closure of the \<open>map\<close>, with the four counters it moves.\<close>

record delta_counts =
  dn_regressions :: nat
  dn_improvements :: nat
  dn_unchanged :: nat
  dn_missing :: nat

definition delta_step ::
  "(string, benchmark_scenario_summary) hmap \<Rightarrow> benchmark_scenario_summary \<Rightarrow> delta_counts \<Rightarrow>
     benchmark_scenario_delta_surface \<times> delta_counts" where
  "delta_step baseline_map current n =
     (case hm_get baseline_map (bmbn_scenario current) of
        Some baseline \<Rightarrow>
          (let delta = compare_scenarios current baseline in
           (delta,
            if bmsd_classification delta = ''regression'' then n\<lparr>dn_regressions := dn_regressions n + 1\<rparr>
            else if bmsd_classification delta = ''improvement'' then n\<lparr>dn_improvements := dn_improvements n + 1\<rparr>
            else n\<lparr>dn_unchanged := dn_unchanged n + 1\<rparr>))
      | None \<Rightarrow> (new_scenario_delta current, n\<lparr>dn_missing := dn_missing n + 1\<rparr>))"

fun delta_steps ::
  "(string, benchmark_scenario_summary) hmap \<Rightarrow> benchmark_scenario_summary list \<Rightarrow> delta_counts \<Rightarrow>
     benchmark_scenario_delta_surface list \<times> delta_counts" where
  "delta_steps m [] n = ([], n)"
| "delta_steps m (c # cs) n =
     (let (d, n1) = delta_step m c n; (ds, n2) = delta_steps m cs n1 in (d # ds, n2))"

definition load_benchmark_baseline ::
  "bench_api \<Rightarrow> bench_files \<Rightarrow> string option \<Rightarrow> benchmark_summary \<Rightarrow> benchmark_baseline_surface" where
  "load_benchmark_baseline B files baseline_path current =
     (case non_empty_path baseline_path of
        None \<Rightarrow> benchmark_baseline_surface_default
      | Some path \<Rightarrow>
          (let surface = benchmark_baseline_surface_default\<lparr>bmsb_configured_path := path\<rparr> in
           case benchmark_summary_load B files path of
             Inr summary \<Rightarrow>
               (let baseline_map = hm_from_list (map (\<lambda>s. (bmbn_scenario s, s)) (bmbs_scenarios summary));
                    (deltas, n) = delta_steps baseline_map (bmbs_scenarios current)
                      \<lparr>dn_regressions = 0, dn_improvements = 0, dn_unchanged = 0, dn_missing = 0\<rparr>
                in surface\<lparr>bmsb_loaded := True, bmsb_generated_at := Some (bmbs_generated_at summary),
                     bmsb_scenario_count := bmbs_scenario_count summary, bmsb_scenarios := deltas,
                     bmsb_regressions := dn_regressions n, bmsb_improvements := dn_improvements n,
                     bmsb_unchanged := dn_unchanged n, bmsb_missing_in_baseline := dn_missing n\<rparr>)
           | Inl err \<Rightarrow> surface\<lparr>bmsb_error := Some (bench_error_text err)\<rparr>))"

section \<open>The surface\<close>

definition gate_of_report ::
  "benchmark_gate_surface \<Rightarrow> benchmark_gate_report \<Rightarrow> string option \<Rightarrow> string option \<Rightarrow> benchmark_gate_surface" where
  "gate_of_report surface report current_generated_at baseline_generated_at =
     surface\<lparr>bmsg_loaded := True, bmsg_status := Some (bmgg_status report),
       bmsg_summary_generated_at := bmgg_summary_generated_at report,
       bmsg_baseline_generated_at := bmgg_baseline_generated_at report,
       bmsg_summary_aggregation := Some (bmgg_summary_aggregation report),
       bmsg_baseline_aggregation := Some (bmgg_baseline_aggregation report),
       bmsg_aggregation_compatible := bmgg_aggregation_compatible report,
       bmsg_scenario_count := bmgg_scenario_count report,
       bmsg_baseline_scenario_count := bmgg_baseline_scenario_count report,
       bmsg_regressions := bmgg_regressions report, bmsg_improvements := bmgg_improvements report,
       bmsg_unchanged := bmgg_unchanged report, bmsg_new_scenarios := bmgg_new_scenarios report,
       bmsg_thresholds := Some (bmgg_thresholds report), bmsg_rows := bmgg_rows report,
       bmsg_failures := bmgg_failures report,
       bmsg_fresh := (current_generated_at = bmgg_summary_generated_at report \<and>
         baseline_generated_at = bmgg_baseline_generated_at report)\<rparr>"

definition load_benchmark_gate ::
  "bench_api \<Rightarrow> bench_files \<Rightarrow> string option \<Rightarrow> string option \<Rightarrow> string option \<Rightarrow> benchmark_gate_surface" where
  "load_benchmark_gate B files gate_path current_generated_at baseline_generated_at =
     (case non_empty_path gate_path of
        None \<Rightarrow> benchmark_gate_surface_default
      | Some path \<Rightarrow>
          (let surface = benchmark_gate_surface_default\<lparr>bmsg_configured_path := path\<rparr> in
           case files path of
             Inr raw \<Rightarrow>
               (case bi_gate B raw of
                  Inr report \<Rightarrow> gate_of_report surface report current_generated_at baseline_generated_at
                | Inl source \<Rightarrow> surface\<lparr>bmsg_error := Some (bench_error_text (BenchParse path source))\<rparr>)
           | Inl source \<Rightarrow> surface\<lparr>bmsg_error := Some (bench_error_text (BenchRead path source))\<rparr>))"

definition to_scenario_surface :: "benchmark_scenario_summary \<Rightarrow> benchmark_scenario_surface" where
  "to_scenario_surface s =
     \<lparr>bmsc_scenario = bmbn_scenario s, bmsc_description = bmbn_description s, bmsc_requests = bmbn_requests s,
      bmsc_concurrency = bmbn_concurrency s, bmsc_throughput_rps = bmbn_throughput_rps s,
      bmsc_latency_ms = bmbn_latency_ms s, bmsc_payload_request_avg_ms = bmbn_payload_request_avg_ms s,
      bmsc_payload_response_avg_ms = bmbn_payload_response_avg_ms s, bmsc_upstream_avg_ms = bmbn_upstream_avg_ms s,
      bmsc_request_payload_kind = bmbn_request_payload_kind s, bmsc_features = bmbn_features s,
      bmsc_dependency_ready = bmbn_dependency_ready s, bmsc_decision_sources = bmbn_decision_sources s,
      bmsc_ok = bmbn_ok s, bmsc_artifacts_root = bmbn_artifacts_root s, bmsc_aggregation = bmbn_aggregation s\<rparr>"

definition load_benchmark_surface :: "bench_api \<Rightarrow> bench_files \<Rightarrow> benchmark_config \<Rightarrow> benchmark_surface" where
  "load_benchmark_surface B files config =
     (let surface = benchmark_surface_default\<lparr>bmsu_enabled := bc_enabled config,
            bmsu_configured_path := bc_summary_json_path config\<rparr>
      in if \<not> bc_enabled config then surface
         else case benchmark_summary_load B files (bc_summary_json_path config) of
             Inr summary \<Rightarrow>
               (let baseline_surface = load_benchmark_baseline B files (bc_baseline_summary_json_path config) summary;
                    generated_at = Some (bmbs_generated_at summary)
                in surface\<lparr>bmsu_loaded := True, bmsu_generated_at := generated_at,
                     bmsu_scenario_count := bmbs_scenario_count summary, bmsu_aggregation := bmbs_aggregation summary,
                     bmsu_scenarios := map to_scenario_surface (bmbs_scenarios summary),
                     bmsu_gate := Some (load_benchmark_gate B files (bc_gate_report_json_path config)
                       generated_at (bmsb_generated_at baseline_surface)),
                     bmsu_baseline := Some baseline_surface\<rparr>)
           | Inl err \<Rightarrow>
               (let baseline_surface = load_benchmark_baseline B files (bc_baseline_summary_json_path config)
                      benchmark_summary_default
                in surface\<lparr>bmsu_error := Some (bench_error_text err),
                     bmsu_gate := Some (load_benchmark_gate B files (bc_gate_report_json_path config)
                       None (bmsb_generated_at baseline_surface)),
                     bmsu_baseline := Some baseline_surface\<rparr>))"

section \<open>The counts are those of the rows\<close>

definition rows_with :: "string \<Rightarrow> benchmark_scenario_delta_surface list \<Rightarrow> nat" where
  "rows_with c ds = length (filter (\<lambda>d. bmsd_classification d = c) ds)"

lemma compare_classification:
  "bmsd_classification (compare_scenarios c b) \<in> {''regression'', ''improvement'', ''unchanged''}"
  by (simp add: compare_scenarios_def Let_def)

lemma new_scenario_classification [simp]: "bmsd_classification (new_scenario_delta c) = ''new''"
  by (simp add: new_scenario_delta_def)

lemma delta_step_counts:
  assumes "delta_step m c n = (d, n')"
  shows "dn_regressions n' = dn_regressions n + (if bmsd_classification d = ''regression'' then 1 else 0) \<and>
    dn_improvements n' = dn_improvements n + (if bmsd_classification d = ''improvement'' then 1 else 0) \<and>
    dn_unchanged n' = dn_unchanged n + (if bmsd_classification d = ''unchanged'' then 1 else 0) \<and>
    dn_missing n' = dn_missing n + (if bmsd_classification d = ''new'' then 1 else 0)"
proof (cases "hm_get m (bmbn_scenario c)")
  case None
  with assms show ?thesis by (auto simp: delta_step_def)
next
  case (Some b)
  with assms have d: "d = compare_scenarios c b"
    "n' = (if bmsd_classification d = ''regression'' then n\<lparr>dn_regressions := dn_regressions n + 1\<rparr>
      else if bmsd_classification d = ''improvement'' then n\<lparr>dn_improvements := dn_improvements n + 1\<rparr>
      else n\<lparr>dn_unchanged := dn_unchanged n + 1\<rparr>)"
    by (auto simp: delta_step_def Let_def)
  from compare_classification [of c b] consider "bmsd_classification d = ''regression''"
    | "bmsd_classification d = ''improvement''" | "bmsd_classification d = ''unchanged''"
    unfolding d(1) by blast
  then show ?thesis by cases (simp_all add: d(2))
qed

lemma delta_steps_counts:
  "delta_steps m cs n = (ds, n') \<Longrightarrow>
     dn_regressions n' = dn_regressions n + rows_with ''regression'' ds \<and>
     dn_improvements n' = dn_improvements n + rows_with ''improvement'' ds \<and>
     dn_unchanged n' = dn_unchanged n + rows_with ''unchanged'' ds \<and>
     dn_missing n' = dn_missing n + rows_with ''new'' ds"
proof (induction cs arbitrary: n ds)
  case (Cons c cs)
  obtain d n1 ds' where d: "delta_step m c n = (d, n1)" "delta_steps m cs n1 = (ds', n')" "ds = d # ds'"
    using Cons.prems by (auto simp: Let_def split: prod.splits)
  from Cons.IH [OF d(2)] delta_step_counts [OF d(1)] show ?case by (simp add: d(3) rows_with_def)
qed (simp add: rows_with_def)

lemma delta_steps_rows:
  "delta_steps m cs n = (ds, n') \<Longrightarrow>
     ds = map (\<lambda>c. case hm_get m (bmbn_scenario c) of
         Some b \<Rightarrow> compare_scenarios c b | None \<Rightarrow> new_scenario_delta c) cs"
proof (induction cs arbitrary: n ds)
  case (Cons c cs)
  then show ?case by (auto simp: delta_step_def Let_def split: prod.splits option.splits)
qed simp

lemma compare_self: "bmsd_classification (compare_scenarios s s) = ''unchanged''"
  by (simp add: compare_scenarios_def Let_def pct_delta_def latency_regressed_def latency_improved_def
      throughput_delta_threshold_pct_def avg_latency_noise_floor_ms_def p95_latency_noise_floor_ms_def split: option.splits)

lemma load_benchmark_baseline_rows:
  assumes "non_empty_path path = Some q" and "benchmark_summary_load B files q = Inr summary"
  shows "let bl = load_benchmark_baseline B files path current in
    bmsb_loaded bl \<and> bmsb_error bl = None \<and>
    bmsb_scenarios bl = map (\<lambda>c. case map_of (rev (map (\<lambda>s. (bmbn_scenario s, s)) (bmbs_scenarios summary))) (bmbn_scenario c) of
         Some b \<Rightarrow> compare_scenarios c b | None \<Rightarrow> new_scenario_delta c) (bmbs_scenarios current) \<and>
    bmsb_regressions bl = rows_with ''regression'' (bmsb_scenarios bl) \<and>
    bmsb_improvements bl = rows_with ''improvement'' (bmsb_scenarios bl) \<and>
    bmsb_unchanged bl = rows_with ''unchanged'' (bmsb_scenarios bl) \<and>
    bmsb_missing_in_baseline bl = rows_with ''new'' (bmsb_scenarios bl)"
proof -
  let ?m = "hm_from_list (map (\<lambda>s. (bmbn_scenario s, s)) (bmbs_scenarios summary))"
  let ?n = "\<lparr>dn_regressions = 0, dn_improvements = 0, dn_unchanged = 0, dn_missing = 0\<rparr>"
  obtain ds n where d: "delta_steps ?m (bmbs_scenarios current) ?n = (ds, n)" by fastforce
  from delta_steps_counts [OF d] delta_steps_rows [OF d] show ?thesis
    by (simp add: load_benchmark_baseline_def assms d Let_def hm_get_from_list benchmark_baseline_surface_default_def)
qed

lemma map_of_self:
  assumes "distinct (map f xs)" and "x \<in> set xs"
  shows "map_of (rev (map (\<lambda>s. (f s, s)) xs)) (f x) = Some x"
proof -
  have "distinct (map fst (rev (map (\<lambda>s. (f s, s)) xs)))"
    using assms(1) by (simp add: comp_def flip: rev_map)
  with assms(2) show ?thesis by (intro map_of_is_SomeI) auto
qed

lemma promote_benchmark_baseline_Inr:
  assumes "promote_benchmark_baseline B config files = (Inr p, files')"
  obtains raw summary where "bc_enabled config" and "files (bc_summary_json_path config) = Inr raw"
    and "bi_summary B raw = Inr summary"
    and "non_empty_path (bc_baseline_summary_json_path config) = Some (bmbp_baseline_path p)"
    and "files' = files(bmbp_baseline_path p := Inr raw)"
  using assms by (auto simp: promote_benchmark_baseline_def split: if_splits option.splits sum.splits)

lemma promote_benchmark_baseline_Inl:
  "promote_benchmark_baseline B config files = (Inl e, files') \<Longrightarrow> files' = files"
  by (auto simp: promote_benchmark_baseline_def split: if_splits option.splits sum.splits)

end
