(* ===== verification/Gw_App.thy ===== *)
theory Gw_App
  imports Gw_Handler Gw_Bench
begin

text \<open>
  \<open>src/app.rs\<close> with the status of the dependencies from \<open>src/proxy.rs\<close>: the construction of the
  runtime from a configuration, its replacement on reload, the start of the gateway, the refresh of
  the gauges and the readiness probe. What the process meets outside (files, URLs, the environment,
  client construction, health endpoints) is a parameter.
\<close>

section \<open>The environment and the state\<close>

text \<open>
  An error of a construction step is its message. \<open>ae_opa_health\<close> and \<open>ae_presidio_health\<close> give the
  status code of a \<open>GET\<close> or the error; \<open>ae_review_file\<close> is what \<open>ReviewStore::new\<close> finds at a path:
  the error of opening it, whether it is readable, and its lines.
\<close>

record app_env =
  av_config :: config_io
  av_url_parse :: "string \<Rightarrow> string option"
  av_env :: "string \<Rightarrow> string option"
  av_presidio_build :: "string option"
  av_opa_build :: "string option"
  av_client_build :: "string option"
  av_audit_open :: "string \<Rightarrow> string + string list"
  av_metrics_error :: "string option"
  av_review_file :: "string \<Rightarrow> string option \<times> bool \<times> string list"
  av_opa_health :: "string \<Rightarrow> string + nat"
  av_presidio_health :: "string \<Rightarrow> string + nat"
  av_opa_error_text :: "opa_error \<Rightarrow> string"
  av_presidio_error_text :: "presidio_error \<Rightarrow> string"

text \<open>
  \<open>AppState\<close>: the path, the current runtime and the stores. A sink that a reload replaced keeps its
  own writer task; \<open>st_retired\<close> has the queues of those sinks.
\<close>

record app_state =
  st_config_path :: string
  st_runtime :: runtime_state
  st_stores :: gw_state
  st_retired :: "(string \<times> audit_record list) list"

section \<open>The runtime\<close>

definition requires_tokenization :: "app_config \<Rightarrow> bool" where
  "requires_tokenization config \<longleftrightarrow>
     (\<exists>rule \<in> set (dc_rules (cfg_detection config)). dr_masking rule = Tokenize) \<or>
     (case dc_high_entropy (cfg_detection config) of Some rule \<Rightarrow> he_masking rule = Tokenize | None \<Rightarrow> False) \<or>
     (case dc_presidio (cfg_detection config) of
        Some p \<Rightarrow> (\<exists>entity \<in> set (ps_entities p). pe_masking entity = Tokenize) | None \<Rightarrow> False)"

definition ensure_tokenization_configuration :: "app_config \<Rightarrow> (tokenization_error, unit) rres" where
  "ensure_tokenization_configuration config =
     (let tokenization_enabled = (case cfg_tokenization config of Some c \<Rightarrow> tk_enabled c | None \<Rightarrow> False) in
      if requires_tokenization config \<and> \<not> tokenization_enabled then Err RequiredButDisabled else Ok ())"

definition of_sum :: "('e \<Rightarrow> app_error) \<Rightarrow> 'e + 'a \<Rightarrow> (app_error, 'a) rres" where
  "of_sum f r = (case r of Inl e \<Rightarrow> Err (f e) | Inr x \<Rightarrow> Ok x)"

text \<open>Everything \<open>RuntimeState::from_config\<close> builds before it touches the audit store.\<close>

definition runtime_parts :: "app_env \<Rightarrow> gw_api \<Rightarrow> app_config \<Rightarrow> (app_error, runtime_state) rres" where
  "runtime_parts V G config =
     rbind (rmap_err TokenizationErr (ensure_tokenization_configuration config)) (\<lambda>_.
     rbind (ok_or (InvalidUpstreamUrl (up_base_url (cfg_upstream config)))
              (av_url_parse V (up_base_url (cfg_upstream config)))) (\<lambda>url.
     rbind (of_sum AuthErr (authenticator_new (ga_http G) (sc_unicode (ga_scan G)) (cfg_auth config))) (\<lambda>auth.
     rbind (of_sum DetectorErr (detector_new (sc_regex (ga_scan G)) (cfg_detection config))) (\<lambda>detector.
     rbind (case dc_presidio (cfg_detection config) of
              Some p \<Rightarrow> of_sum PresidioErr (presidio_from_config (av_presidio_build V) p)
            | None \<Rightarrow> Ok None) (\<lambda>presidio.
     rbind (case pb_opa (cfg_policy_backend config) of
              Some o_config \<Rightarrow> of_sum OpaErr (opa_from_config (av_opa_build V) o_config)
            | None \<Rightarrow> Ok None) (\<lambda>opa.
     rbind (rmap_err TokenizationErr
              (tokenizer_from_config (sc_crypto (ga_scan G)) (av_env V) (cfg_tokenization config))) (\<lambda>tokenizer.
     case av_client_build V of
       Some e \<Rightarrow> Err (BuildClientErr e)
     | None \<Rightarrow>
         Ok \<lparr>run_config = config, run_upstream_base_url = url, run_auth = auth, run_detector = detector,
             run_presidio = presidio, run_opa = opa, run_tokenizer = tokenizer,
             run_attachments = attachment_engine_from_config (cfg_attachments config)\<rparr>)))))))"

text \<open>The runtime and its sink; the store has its new capacity even when the file cannot be opened.\<close>

definition runtime_from_config ::
  "app_env \<Rightarrow> gw_api \<Rightarrow> app_config \<Rightarrow> audit_store \<Rightarrow> (app_error, runtime_state \<times> audit_sink) rres \<times> audit_store" where
  "runtime_from_config V G config store =
     (case runtime_parts V G config of
        Err e \<Rightarrow> (Err e, store)
      | Panic \<Rightarrow> (Panic, store)
      | Ok rt \<Rightarrow>
          (let store' = audit_set_capacity (au_buffer_capacity (cfg_audit config)) store in
           case av_audit_open V (au_jsonl_path (cfg_audit config)) of
             Inl e \<Rightarrow> (Err (AuditInitErr e), store')
           | Inr lines \<Rightarrow> (Ok (rt, \<lparr>sk_store = store', sk_channel = [], sk_file = lines\<rparr>), store')))"

section \<open>Start and reload\<close>

definition build_state :: "app_env \<Rightarrow> gw_api \<Rightarrow> event_api \<Rightarrow> int \<Rightarrow> string \<Rightarrow> (app_error, app_state) rres" where
  "build_state V G E now config_path =
     rbind (of_sum ConfigErr (app_config_load (av_config V) config_path)) (\<lambda>config.
     rbind (fst (runtime_from_config V G config (audit_store_new (au_buffer_capacity (cfg_audit config))))) (\<lambda>(rt, sink).
     rbind (case av_metrics_error V of Some e \<Rightarrow> Err (MetricsErr e) | None \<Rightarrow> Ok ()) (\<lambda>_.
     rbind (case av_review_file V (rc_jsonl_path (cfg_review config)) of
              (open_error, readable, lines) \<Rightarrow>
                of_sum ReviewStoreErr (review_store_new E now (rc_capacity (cfg_review config)) open_error readable lines)) (\<lambda>reviews.
     Ok \<lparr>st_config_path = config_path, st_runtime = rt,
         st_stores = \<lparr>gs_sessions = [], gs_reviews = reviews, gs_audit = sink, gs_metrics = [], gs_sent = []\<rparr>,
         st_retired = []\<rparr>))))"

definition replace_sink :: "string \<Rightarrow> audit_sink \<Rightarrow> app_state \<Rightarrow> app_state" where
  "replace_sink path sink st =
     st\<lparr>st_stores := (st_stores st)\<lparr>gs_audit := sink\<rparr>,
        st_retired := st_retired st @ [(path, sk_channel (gs_audit (st_stores st)))]\<rparr>"

definition reload :: "app_env \<Rightarrow> gw_api \<Rightarrow> app_state \<Rightarrow> (app_error, unit) rres \<times> app_state" where
  "reload V G st =
     (case app_config_load (av_config V) (st_config_path st) of
        Inl e \<Rightarrow> (Err (ConfigErr e), st)
      | Inr config \<Rightarrow>
          (let sink0 = gs_audit (st_stores st);
               (res, store') = runtime_from_config V G config (sk_store sink0);
               st1 = st\<lparr>st_stores := (st_stores st)\<lparr>gs_audit := sink0\<lparr>sk_store := store'\<rparr>\<rparr>\<rparr>
           in case res of
                Err e \<Rightarrow> (Err e, st1)
              | Panic \<Rightarrow> (Panic, st1)
              | Ok (rt, sink) \<Rightarrow>
                  (Ok (), (replace_sink (au_jsonl_path (cfg_audit (run_config (st_runtime st)))) sink st)\<lparr>st_runtime := rt\<rparr>)))"

section \<open>Dependencies\<close>

definition opa_healthcheck :: "app_env \<Rightarrow> opa_authorizer \<Rightarrow> opa_error + nat" where
  "opa_healthcheck V opa =
     (case av_opa_health V (oa_healthcheck_url opa) of Inl e \<Rightarrow> Inl (OpaRequest e) | Inr status \<Rightarrow> Inr status)"

definition presidio_healthcheck :: "app_env \<Rightarrow> presidio_analyzer \<Rightarrow> presidio_error + nat" where
  "presidio_healthcheck V p =
     (case av_presidio_health V (pz_healthcheck_url p) of Inl e \<Rightarrow> Inl (PsRequest e) | Inr status \<Rightarrow> Inr status)"

abbreviation json_nat :: "nat \<Rightarrow> json" where
  "json_nat n \<equiv> JNum (PosInt n)"

definition dependency_status_opa :: "app_env \<Rightarrow> opa_authorizer option \<Rightarrow> json" where
  "dependency_status_opa V opa =
     (case opa of
        None \<Rightarrow> JObj [(''configured'', JBool False), (''reachable'', JBool False)]
      | Some a \<Rightarrow>
          (case opa_healthcheck V a of
             Inr status \<Rightarrow>
               JObj [(''configured'', JBool True), (''reachable'', JBool (200 \<le> status \<and> status < 500)),
                 (''status_code'', json_nat status), (''timeout_ms'', json_nat (oa_timeout_ms a)),
                 (''url'', JStr (oa_url a)), (''fail_open'', JBool (oa_fail_open a))]
           | Inl err \<Rightarrow>
               JObj [(''configured'', JBool True), (''reachable'', JBool False),
                 (''timeout_ms'', json_nat (oa_timeout_ms a)), (''url'', JStr (oa_url a)),
                 (''fail_open'', JBool (oa_fail_open a)), (''error'', JStr (av_opa_error_text V err))]))"

definition dependency_status_presidio :: "app_env \<Rightarrow> presidio_analyzer option \<Rightarrow> json" where
  "dependency_status_presidio V presidio =
     (case presidio of
        None \<Rightarrow> JObj [(''configured'', JBool False), (''reachable'', JBool False)]
      | Some p \<Rightarrow>
          (case presidio_healthcheck V p of
             Inr status \<Rightarrow>
               JObj [(''configured'', JBool True), (''reachable'', JBool (200 \<le> status \<and> status < 500)),
                 (''status_code'', json_nat status), (''timeout_ms'', json_nat (pz_timeout_ms p)),
                 (''url'', JStr (pz_analyzer_url p))]
           | Inl err \<Rightarrow>
               JObj [(''configured'', JBool True), (''reachable'', JBool False),
                 (''timeout_ms'', json_nat (pz_timeout_ms p)), (''url'', JStr (pz_analyzer_url p)),
                 (''error'', JStr (av_presidio_error_text V err))]))"

definition json_flag :: "json \<Rightarrow> string \<Rightarrow> bool option" where
  "json_flag status key = Option.bind (json_get status key) json_as_bool"

definition dependency_configured :: "json \<Rightarrow> bool" where
  "dependency_configured status = (case json_flag status ''configured'' of Some b \<Rightarrow> b | None \<Rightarrow> False)"

definition dependency_ready :: "json \<Rightarrow> bool" where
  "dependency_ready status =
     (case (json_flag status ''configured'', json_flag status ''reachable'') of
        (Some True, Some reachable) \<Rightarrow> reachable | _ \<Rightarrow> True)"

definition dependency_reachable :: "json \<Rightarrow> bool" where
  "dependency_reachable status =
     (case (json_flag status ''configured'', json_flag status ''reachable'') of
        (Some True, Some reachable) \<Rightarrow> reachable | _ \<Rightarrow> False)"

definition dependency_status_code :: "json \<Rightarrow> int option" where
  "dependency_status_code status = Option.bind (json_get status ''status_code'') json_as_i64"

section \<open>Gauges and readiness\<close>

definition update_dependency :: "string \<Rightarrow> json \<Rightarrow> gw_state \<Rightarrow> gw_state" where
  "update_dependency name status =
     metric (MUpdateDependency name (dependency_configured status) (dependency_reachable status)
       (dependency_status_code status))"

text \<open>The sessions are counted first; the clock readings are those of the calls.\<close>

definition count_sessions :: "gw_clock \<Rightarrow> runtime_state \<Rightarrow> gw_state \<Rightarrow> nat \<times> gw_state" where
  "count_sessions K rt s =
     (let (n, sessions) = active_sessions (cfg_session (run_config rt)) (ck_mono K 0) (gs_sessions s)
      in (n, s\<lparr>gs_sessions := sessions\<rparr>))"

definition count_pending :: "gw_clock \<Rightarrow> gw_state \<Rightarrow> nat \<times> gw_state" where
  "count_pending K s =
     (let (n, reviews) = pending_count (ck_utc K 0) (gs_reviews s) in (n, s\<lparr>gs_reviews := reviews\<rparr>))"

definition refresh_metrics :: "app_env \<Rightarrow> gw_clock \<Rightarrow> app_state \<Rightarrow> app_state" where
  "refresh_metrics V K st =
     (let rt = st_runtime st;
          (sessions, s1) = count_sessions K rt (st_stores st);
          s2 = metric (MUpdateSessions sessions) s1;
          (pending, s3) = count_pending K s2;
          s4 = metric (MUpdateReviewQueue pending (rc_capacity (cfg_review (run_config rt)))) s3;
          s5 = update_dependency ''opa'' (dependency_status_opa V (run_opa rt)) s4;
          s6 = update_dependency ''presidio'' (dependency_status_presidio V (run_presidio rt)) s5
      in st\<lparr>st_stores := s6\<rparr>)"

definition json_response :: "json_api \<Rightarrow> json \<Rightarrow> http_response" where
  "json_response J v =
     (case js_print J v of
        Some b \<Rightarrow> \<lparr>hr_status = 200, hr_headers = [(''content-type'', ''application/json'')], hr_body = b\<rparr>
      | None \<Rightarrow> \<lparr>hr_status = 500, hr_headers = [(''content-type'', ''text/plain; charset=utf-8'')], hr_body = []\<rparr>)"

definition healthz :: http_response where
  "healthz = \<lparr>hr_status = 200, hr_headers = [(''content-type'', ''text/plain; charset=utf-8'')], hr_body = ''ok''\<rparr>"

definition readiness :: "app_env \<Rightarrow> app_state \<Rightarrow> nat \<Rightarrow> json" where
  "readiness V st sessions =
     (let rt = st_runtime st; store = sk_store (gs_audit (st_stores st));
          opa_status = dependency_status_opa V (run_opa rt);
          presidio_status = dependency_status_presidio V (run_presidio rt)
      in JObj [(''ready'', JBool (dependency_ready opa_status \<and> dependency_ready presidio_status)),
           (''runtime'', JObj [(''status'', JStr ''ready''), (''upstream'', JStr (run_upstream_base_url rt)),
             (''sessions'', json_nat sessions),
             (''audit_buffer'', JObj [(''len'', json_nat (audit_len store)), (''capacity'', json_nat (as_capacity store))]),
             (''dependencies'', JObj [(''opa'', opa_status), (''presidio'', presidio_status)])])])"

text \<open>The probe updates the gauges exactly as \<open>refresh_metrics\<close> does.\<close>

definition readyz :: "app_env \<Rightarrow> json_api \<Rightarrow> gw_clock \<Rightarrow> app_state \<Rightarrow> http_response \<times> app_state" where
  "readyz V J K st =
     (let (sessions, _) = count_sessions K (st_runtime st) (st_stores st);
          st' = refresh_metrics V K st
      in (json_response J (readiness V st sessions), st'))"

section \<open>A runtime has the tokenizer its rules need\<close>

lemma runtime_parts_Ok:
  assumes "runtime_parts V G config = Ok rt"
  shows "run_config rt = config" and "requires_tokenization config \<Longrightarrow> run_tokenizer rt \<noteq> None"
    and "detector_new (sc_regex (ga_scan G)) (cfg_detection config) = Inr (run_detector rt)"
    and "run_presidio rt = Some p \<Longrightarrow>
      \<exists>pc. dc_presidio (cfg_detection config) = Some pc \<and>
        pz_entity_map p = hm_from_list (map (\<lambda>e. (pe_entity_type e, e)) (ps_entities pc))"
proof -
  from assms obtain url auth detector presidio opa tokenizer where
    ok: "ensure_tokenization_configuration config = Ok ()"
    and det: "detector_new (sc_regex (ga_scan G)) (cfg_detection config) = Inr detector"
    and pres: "(case dc_presidio (cfg_detection config) of
        Some p \<Rightarrow> of_sum PresidioErr (presidio_from_config (av_presidio_build V) p) | None \<Rightarrow> Ok None) = Ok presidio"
    and tok: "tokenizer_from_config (sc_crypto (ga_scan G)) (av_env V) (cfg_tokenization config) = Ok tokenizer"
    and rt: "rt = \<lparr>run_config = config, run_upstream_base_url = url, run_auth = auth, run_detector = detector,
        run_presidio = presidio, run_opa = opa, run_tokenizer = tokenizer,
        run_attachments = attachment_engine_from_config (cfg_attachments config)\<rparr>"
    by (auto simp: runtime_parts_def rres_iffs of_sum_def split: sum.split_asm option.split_asm)
  show "run_config rt = config" "detector_new (sc_regex (ga_scan G)) (cfg_detection config) = Inr (run_detector rt)"
    using det by (simp_all add: rt)
  show "run_tokenizer rt \<noteq> None" if "requires_tokenization config"
  proof -
    from ok that obtain c where c: "cfg_tokenization config = Some c" "tk_enabled c"
      by (auto simp: ensure_tokenization_configuration_def Let_def split: if_splits option.splits)
    from tok c show ?thesis by (auto simp: rt tokenizer_from_config_def rres_iffs)
  qed
  show "\<exists>pc. dc_presidio (cfg_detection config) = Some pc \<and>
      pz_entity_map p = hm_from_list (map (\<lambda>e. (pe_entity_type e, e)) (ps_entities pc))" if "run_presidio rt = Some p"
    using pres that
    by (auto simp: rt of_sum_def presidio_from_config_def split: option.split_asm sum.split_asm if_split_asm)
qed

lemma redact_loop_Err:
  "redact_loop mk j out fs = Err e \<Longrightarrow> \<exists>i f. f \<in> set fs \<and> mk i f = Err e"
  by (induction fs arbitrary: j out) (auto simp: rres_iffs or_panic_def split: option.splits, blast+)

lemma redact_text_Err:
  assumes "redact_text C U H tz rng src fs = Err e"
  shows "\<exists>i f. f \<in> set fs \<and> finding_mask C U H tz rng i f = Err e"
proof -
  from assms have "redact_loop (finding_mask C U H tz rng) 0 src (rev (select_findings fs)) = Err e"
    by (auto simp: redact_text_def split: if_splits)
  from redact_loop_Err [OF this] show ?thesis by (auto dest: set_select_findings)
qed

lemma presidio_found_metadata:
  assumes "f \<in> set (presidio_found S H p src pointer)"
  shows "\<exists>k e. hm_get (pz_entity_map p) k = Some e \<and> df_metadata f = entity_metadata e"
proof -
  have one: "analyzer_finding H p src pointer item = Ok fs \<Longrightarrow> f \<in> set fs \<Longrightarrow>
      \<exists>k e. hm_get (pz_entity_map p) k = Some e \<and> df_metadata f = entity_metadata e" for item fs
    by (auto simp: analyzer_finding_def Let_def rres_iffs detection_finding_new_def split: option.splits if_splits) blast
  have "analyzer_findings H p src pointer items = Ok fs \<Longrightarrow> f \<in> set fs \<Longrightarrow>
      \<exists>k e. hm_get (pz_entity_map p) k = Some e \<and> df_metadata f = entity_metadata e" for items fs
    by (induction items arbitrary: fs) (auto simp: rres_iffs dest: one)
  moreover obtain fs where "presidio_analyze S H p src pointer = Ok fs" "f \<in> set fs"
    using assms by (cases "presidio_analyze S H p src pointer") (auto simp: presidio_found_def)
  ultimately show ?thesis
    by (auto simp: presidio_analyze_def split: if_split_asm http_reply.split_asm sum.split_asm)
qed

lemma pipeline_masking:
  assumes "runtime_parts V G config = Ok rt" and "f \<in> set (pipeline_scan G rt src pointer)"
    and "rm_masking (df_metadata f) = Tokenize"
  shows "requires_tokenization config"
proof -
  from assms(2) consider (builtin) "f \<in> set (scan_text (sc_regex (ga_scan G)) (sc_hash (ga_scan G)) (run_detector rt) src pointer)"
    | (presidio) p where "run_presidio rt = Some p" "f \<in> set (presidio_found (ga_presidio G) (sc_hash (ga_scan G)) p src pointer)"
    by (cases "run_presidio rt") (auto simp: pipeline_scan_def)
  then show ?thesis
  proof cases
    case builtin
    note d = detector_new_Inr [OF runtime_parts_Ok(3) [OF assms(1)]]
    from scan_text_metadata [OF conjunct1 [OF d] builtin] d assms(3) show ?thesis
      by (auto simp: requires_tokenization_def to_metadata_def to_high_entropy_metadata_def compile_high_entropy_def
          split: option.splits if_splits)
  next
    case presidio
    from runtime_parts_Ok(4) [OF assms(1) presidio(1)] presidio_found_metadata [OF presidio(2)]
    obtain pc k e where pc: "dc_presidio (cfg_detection config) = Some pc"
      "map_of (rev (map (\<lambda>e. (pe_entity_type e, e)) (ps_entities pc))) k = Some e"
      "df_metadata f = entity_metadata e"
      by (auto simp: hm_get_from_list)
    from map_of_SomeD [OF pc(2)] have "e \<in> set (ps_entities pc)" by auto
    with pc assms(3) show ?thesis by (auto simp: requires_tokenization_def entity_metadata_def)
  qed
qed

lemma process_text_has_tokenizer:
  assumes "runtime_parts V G config = Ok rt"
  shows "process_text G rt rng who src pointer dir \<noteq> Err (TokenizationErr RequiredButDisabled)"
proof
  assume err: "process_text G rt rng who src pointer dir = Err (TokenizationErr RequiredButDisabled)"
  then obtain fs where fs: "process_findings G rt src pointer = Ok fs"
    and red: "redact_text (sc_crypto (ga_scan G)) (sc_unicode (ga_scan G)) (sc_hash (ga_scan G)) (run_tokenizer rt)
      rng src (po_findings (policy_resolve who fs dir)) = Err RequiredButDisabled"
    by (auto simp: process_text_def Let_def rres_iffs process_findings_def rmap_err_eq_Err_iff split: option.splits)
  from redact_text_Err [OF red] obtain i r where r: "r \<in> set (po_findings (policy_resolve who fs dir))"
    "finding_mask (sc_crypto (ga_scan G)) (sc_unicode (ga_scan G)) (sc_hash (ga_scan G)) (run_tokenizer rt) rng i r =
      Err RequiredButDisabled" by blast
  from finding_mask_Err [OF r(2)] have none: "run_tokenizer rt = None" "rs_masking r = Tokenize" by auto
  from r(1) obtain f where "f \<in> set fs" "rs_masking r = rm_masking (df_metadata f)"
    by (auto simp: policy_resolve_def resolve_finding_def)
  with none(2) process_findings_Ok [OF fs] pipeline_masking [OF assms, of f src pointer]
  have "requires_tokenization config" by simp
  with runtime_parts_Ok(2) [OF assms] none(1) show False by blast
qed

section \<open>Reloading\<close>

lemma runtime_from_config_Ok:
  "fst (runtime_from_config V G config store) = Ok (rt, sink) \<Longrightarrow> runtime_parts V G config = Ok rt"
  by (auto simp: runtime_from_config_def Let_def split: rres.splits sum.splits)

lemma reload_Ok:
  assumes "reload V G st = (Ok u, st')"
  obtains config where "app_config_load (av_config V) (st_config_path st) = Inr config"
    and "runtime_parts V G config = Ok (st_runtime st')" and "st_config_path st' = st_config_path st"
    and "gs_reviews (st_stores st') = gs_reviews (st_stores st)"
    and "gs_sessions (st_stores st') = gs_sessions (st_stores st)"
    and "gs_metrics (st_stores st') = gs_metrics (st_stores st)"
    and "st_retired st' = st_retired st @ [(au_jsonl_path (cfg_audit (run_config (st_runtime st))),
        sk_channel (gs_audit (st_stores st)))]"
  using assms
  by (auto simp: reload_def replace_sink_def Let_def runtime_from_config_def
      split: sum.split_asm rres.split_asm prod.split_asm)

lemma reload_failed:
  assumes "reload V G st = (res, st')" and "\<nexists>u. res = Ok u"
  shows "st_runtime st' = st_runtime st \<and> st_config_path st' = st_config_path st \<and> st_retired st' = st_retired st \<and>
    (st' = st \<or> (\<exists>e config. res = Err (AuditInitErr e) \<and>
       app_config_load (av_config V) (st_config_path st) = Inr config \<and>
       st_stores st' = (st_stores st)\<lparr>gs_audit := (gs_audit (st_stores st))
         \<lparr>sk_store := audit_set_capacity (au_buffer_capacity (cfg_audit config)) (sk_store (gs_audit (st_stores st)))\<rparr>\<rparr>))"
  using assms
  by (auto simp: reload_def Let_def runtime_from_config_def split: sum.split_asm rres.split_asm prod.split_asm)

text \<open>Whatever reloads and requests do, the runtime in force was built from some configuration.\<close>

definition runtime_built :: "gw_api \<Rightarrow> app_state \<Rightarrow> bool" where
  "runtime_built G st \<longleftrightarrow> (\<exists>V config. runtime_parts V G config = Ok (st_runtime st))"

definition app_start :: "gw_api \<Rightarrow> app_state \<Rightarrow> bool" where
  "app_start G st \<longleftrightarrow> (\<exists>V E now path. build_state V G E now path = Ok st)"

definition app_step :: "gw_api \<Rightarrow> app_state \<Rightarrow> app_state \<Rightarrow> bool" where
  "app_step G st st' \<longleftrightarrow> (\<exists>s. st' = st\<lparr>st_stores := s\<rparr>) \<or> (\<exists>V. st' = snd (reload V G st))"

interpretation runtimes: transition_system "app_start G" "app_step G" "runtime_built G" for G
proof (unfold_locales, goal_cases)
  case (1 st)
  then obtain V E now path where "build_state V G E now path = Ok st" by (auto simp: app_start_def)
  then obtain config store sink where "fst (runtime_from_config V G config store) = Ok (st_runtime st, sink)"
    by (auto simp: build_state_def rres_iffs case_prod_unfold)
  from runtime_from_config_Ok [OF this] show ?case by (auto simp: runtime_built_def)
next
  case (2 st st')
  from 2(2) consider s where "st' = st\<lparr>st_stores := s\<rparr>" | V where "st' = snd (reload V G st)"
    by (auto simp: app_step_def)
  then show ?case
  proof cases
    case (2 V)
    show ?thesis
    proof (cases "fst (reload V G st)")
      case (Ok u)
      then have "reload V G st = (Ok u, st')" using 2 by (metis prod.collapse)
      then show ?thesis by (rule reload_Ok) (auto simp: runtime_built_def)
    next
      case (Err e)
      then have "reload V G st = (Err e, st')" using 2 by (metis prod.collapse)
      from reload_failed [OF this] \<open>runtime_built G st\<close> show ?thesis by (simp add: runtime_built_def)
    next
      case Panic
      then have "reload V G st = (Panic, st')" using 2 by (metis prod.collapse)
      from reload_failed [OF this] \<open>runtime_built G st\<close> show ?thesis by (simp add: runtime_built_def)
    qed
  qed (use 2(1) in \<open>simp add: runtime_built_def\<close>)
qed

end
