(* ===== verification/Gw_Admin.thy ===== *)
theory Gw_Admin
  imports Gw_App "HOL-Library.List_Lexorder" "HOL-Library.Char_ord"
begin

text \<open>
  The administration handlers of \<open>src/proxy.rs\<close>: reload, the promotion of a benchmark baseline, the
  summary of the configuration, detokenization, the review queue and the audit trail. Every one
  asks for a principal with the role \<open>admin\<close>. The derived serializers of tickets and records, the
  texts of the errors and the iteration order of a hash set are parameters.
\<close>

section \<open>Parameters and requests\<close>

record admin_api =
  aj_ticket :: "review_ticket \<Rightarrow> json"
  aj_record :: "audit_record \<Rightarrow> json"
  aj_app_error :: "app_error \<Rightarrow> string"
  aj_token_error :: "tokenization_error \<Rightarrow> string"
  aj_resolve_error :: "review_resolve_error \<Rightarrow> string"
  aj_iter :: "string set \<Rightarrow> string list"
  aj_read_error :: "io_open option"

record audit_query =
  qa_limit :: "nat option"
  qa_source :: "string option"
  qa_principal :: "string option"
  qa_decision :: "string option"
  qa_label :: "string option"
  qa_direction :: "string option"
  qa_session_id :: "string option"
  qa_policy_source :: "string option"
  qa_request_id :: "string option"
  qa_error_stage :: "string option"
  qa_error_kind :: "string option"

record detokenize_request =
  dq_token :: string

record review_query =
  qr_limit :: "nat option"
  qr_status :: "string option"

record resolve_review_request =
  qv_id :: string
  qv_approve :: bool
  qv_note :: "string option"

section \<open>The guard\<close>

definition admin_only ::
  "gw_api \<Rightarrow> admin_api \<Rightarrow> app_state \<Rightarrow> header_map \<Rightarrow> (principal \<Rightarrow> http_response option \<times> app_state) \<Rightarrow>
     http_response option \<times> app_state" where
  "admin_only G A st headers k =
     (case authenticate (ga_http G) (sc_hash (ga_scan G)) (run_auth (st_runtime st)) headers of
        Inr who \<Rightarrow>
          if pr_role who = ''admin'' then k who
          else (Some (gateway_error (sc_json (ga_scan G)) 403 ''forbidden'' ''admin role required'' None), st)
      | Inl e \<Rightarrow>
          (Some (gateway_error (sc_json (ga_scan G)) 401 ''unauthorized'' (aj_app_error A (AuthErr e)) None), st))"

section \<open>The console, reload and baselines\<close>

text \<open>The console, \<^verbatim>\<open>src/admin_ui.rs\<close>; \<open>page\<close> is the file it includes.\<close>

definition admin_console :: "string \<Rightarrow> http_response" where
  "admin_console page =
     \<lparr>hr_status = 200,
      hr_headers = [(''content-type'', ''text/html; charset=utf-8''), (''cache-control'', ''no-store'')],
      hr_body = page\<rparr>"

definition admin_reload ::
  "app_env \<Rightarrow> gw_api \<Rightarrow> admin_api \<Rightarrow> header_map \<Rightarrow> app_state \<Rightarrow> http_response option \<times> app_state" where
  "admin_reload V G A headers st =
     admin_only G A st headers (\<lambda>_.
       case reload V G st of
         (Ok _, st') \<Rightarrow>
           (Some (json_response (sc_json (ga_scan G)) (JObj [(''status'', JStr ''reloaded''),
              (''config_path'', JStr (st_config_path st')),
              (''upstream'', JStr (run_upstream_base_url (st_runtime st')))])), st')
       | (Err e, st') \<Rightarrow>
           (Some (gateway_error (sc_json (ga_scan G)) 500 ''reload_failed'' (aj_app_error A e) None), st')
       | (Panic, st') \<Rightarrow> (None, st'))"

definition admin_benchmarks_promote ::
  "bench_api \<Rightarrow> gw_api \<Rightarrow> admin_api \<Rightarrow> header_map \<Rightarrow> app_state \<Rightarrow> bench_files \<Rightarrow>
     http_response option \<times> bench_files" where
  "admin_benchmarks_promote B G A headers st files =
     (case authenticate (ga_http G) (sc_hash (ga_scan G)) (run_auth (st_runtime st)) headers of
        Inr who \<Rightarrow>
          if pr_role who = ''admin''
          then (case promote_benchmark_baseline B (cfg_benchmarks (run_config (st_runtime st))) files of
              (Inr p, files') \<Rightarrow>
                (Some (json_response (sc_json (ga_scan G)) (JObj [(''status'', JStr ''baseline_promoted''),
                   (''summary_path'', JStr (bmbp_summary_path p)),
                   (''baseline_path'', JStr (bmbp_baseline_path p))])), files')
            | (Inl e, files') \<Rightarrow>
                (Some (gateway_error (sc_json (ga_scan G)) 424 ''benchmark_promote_failed'' (bench_error_text e) None), files'))
          else (Some (gateway_error (sc_json (ga_scan G)) 403 ''forbidden'' ''admin role required'' None), files)
      | Inl e \<Rightarrow>
          (Some (gateway_error (sc_json (ga_scan G)) 401 ''unauthorized'' (aj_app_error A (AuthErr e)) None), files))"

section \<open>Tokens and tickets\<close>

definition admin_detokenize ::
  "gw_api \<Rightarrow> admin_api \<Rightarrow> header_map \<Rightarrow> detokenize_request \<Rightarrow> app_state \<Rightarrow> http_response option \<times> app_state" where
  "admin_detokenize G A headers payload st =
     admin_only G A st headers (\<lambda>_.
       case run_tokenizer (st_runtime st) of
         None \<Rightarrow>
           (Some (gateway_error (sc_json (ga_scan G)) 424 ''tokenization_disabled''
              ''tokenization is not enabled in the current runtime'' None), st)
       | Some t \<Rightarrow>
           (case detokenize (sc_crypto (ga_scan G)) t (dq_token payload) of
              Ok decoded \<Rightarrow>
                (Some (json_response (sc_json (ga_scan G)) (JObj [(''status'', JStr ''ok''),
                   (''label'', JStr (dv_label decoded)), (''value'', JStr (dv_value decoded)),
                   (''token_prefix'', JStr (tz_token_prefix t)), (''key_env'', JStr (tz_key_env t))])), st)
            | Err e \<Rightarrow>
                (Some (gateway_error (sc_json (ga_scan G)) 400 ''invalid_token'' (aj_token_error A e) None), st)
            | Panic \<Rightarrow> (None, st)))"

definition query_limit :: "nat option \<Rightarrow> nat" where
  "query_limit limit = min (case limit of Some n \<Rightarrow> n | None \<Rightarrow> 50) 500"

definition parse_review_status :: "string option \<Rightarrow> review_filter_status" where
  "parse_review_status raw =
     (let s = (case raw of Some s \<Rightarrow> s | None \<Rightarrow> ''pending'') in
      if s = ''approved'' then FApproved else if s = ''rejected'' then FRejected
      else if s = ''all'' then FAll else FPending)"

fun filter_status_name :: "review_filter_status \<Rightarrow> string" where
  "filter_status_name FPending = ''pending''"
| "filter_status_name FApproved = ''approved''"
| "filter_status_name FRejected = ''rejected''"
| "filter_status_name FAll = ''all''"

definition with_reviews :: "review_store \<Rightarrow> app_state \<Rightarrow> app_state" where
  "with_reviews reviews st = st\<lparr>st_stores := (st_stores st)\<lparr>gs_reviews := reviews\<rparr>\<rparr>"

definition admin_reviews ::
  "gw_api \<Rightarrow> admin_api \<Rightarrow> gw_clock \<Rightarrow> header_map \<Rightarrow> review_query \<Rightarrow> app_state \<Rightarrow> http_response option \<times> app_state" where
  "admin_reviews G A K headers query st =
     admin_only G A st headers (\<lambda>_.
       let limit = query_limit (qr_limit query);
           status = parse_review_status (qr_status query);
           (tickets, reviews) = review_list (ck_utc K 0) status limit (gs_reviews (st_stores st))
       in (Some (json_response (sc_json (ga_scan G)) (JObj [(''status'', JStr (filter_status_name status)),
             (''count'', json_nat (length tickets)), (''records'', JArr (map (aj_ticket A) tickets))])),
           with_reviews reviews st))"

definition admin_reviews_resolve ::
  "gw_api \<Rightarrow> admin_api \<Rightarrow> event_api \<Rightarrow> (int \<Rightarrow> int \<Rightarrow> int option) \<Rightarrow> string option \<Rightarrow> gw_clock \<Rightarrow> header_map \<Rightarrow>
     resolve_review_request \<Rightarrow> app_state \<Rightarrow> http_response option \<times> app_state" where
  "admin_reviews_resolve G A E add_secs io_error K headers payload st =
     admin_only G A st headers (\<lambda>who.
       let status = (if qv_approve payload then RApproved else RRejected);
           review = cfg_review (run_config (st_runtime st))
       in case review_resolve E add_secs io_error (ck_utc K 0) (qv_id payload) status (pr_name who) (qv_note payload)
                 (rc_approval_ttl_secs review) (gs_reviews (st_stores st)) of
            (Ok ticket, reviews) \<Rightarrow>
              (let s1 = metric (MReviewEvent (if qv_approve payload then ''approved'' else ''rejected''))
                     ((st_stores st)\<lparr>gs_reviews := reviews\<rparr>);
                   (pending, reviews2) = pending_count (ck_utc K 1) (gs_reviews s1);
                   s2 = metric (MUpdateReviewQueue pending (rc_capacity review)) (s1\<lparr>gs_reviews := reviews2\<rparr>)
               in (Some (json_response (sc_json (ga_scan G)) (JObj [(''status'', JStr ''ok''),
                     (''record'', aj_ticket A ticket)])), st\<lparr>st_stores := s2\<rparr>))
          | (Err e, reviews) \<Rightarrow>
              (Some (gateway_error (sc_json (ga_scan G)) 404 ''review_resolve_failed'' (aj_resolve_error A e) None),
               with_reviews reviews st)
          | (Panic, reviews) \<Rightarrow> (None, with_reviews reviews st))"

section \<open>The audit trail\<close>

definition parse_audit_source :: "string option \<Rightarrow> audit_source" where
  "parse_audit_source raw =
     (let s = (case raw of Some s \<Rightarrow> s | None \<Rightarrow> ''memory'') in
      if s = ''file'' then File else if s = ''both'' then Both else Memory)"

fun audit_source_name :: "audit_source \<Rightarrow> string" where
  "audit_source_name Memory = ''memory''"
| "audit_source_name File = ''file''"
| "audit_source_name Both = ''both''"

text \<open>\<open>retain(|record| seen.insert(record.clone()))\<close> keeps the first of equal records.\<close>

fun retain_unseen :: "'a list \<Rightarrow> 'a list \<Rightarrow> 'a list" where
  "retain_unseen seen [] = []"
| "retain_unseen seen (x # xs) =
     (if x \<in> set seen then retain_unseen seen xs else x # retain_unseen (x # seen) xs)"

definition audit_file :: "line_api \<Rightarrow> admin_api \<Rightarrow> app_state \<Rightarrow> nat \<Rightarrow> audit_record list" where
  "audit_file L A st limit =
     (case read_recent_audit_file L
        (case aj_read_error A of Some e \<Rightarrow> e | None \<Rightarrow> Opened (sk_file (gs_audit (st_stores st)))) limit of
        Some rs \<Rightarrow> rs | None \<Rightarrow> [])"

definition audit_records :: "line_api \<Rightarrow> admin_api \<Rightarrow> app_state \<Rightarrow> audit_source \<Rightarrow> nat \<Rightarrow> audit_record list" where
  "audit_records L A st source limit =
     (case source of
        Memory \<Rightarrow> rev (audit_snapshot (sk_store (gs_audit (st_stores st))))
      | File \<Rightarrow> rev (audit_file L A st limit)
      | Both \<Rightarrow>
          retain_unseen [] (sort_key (\<lambda>r. - ar_ts r)
            (audit_snapshot (sk_store (gs_audit (st_stores st))) @ audit_file L A st limit)))"

definition wanted :: "'a option \<Rightarrow> 'a \<Rightarrow> bool" where
  "wanted expected x = (case expected of Some y \<Rightarrow> x = y | None \<Rightarrow> True)"

definition audit_matches :: "audit_query \<Rightarrow> audit_record \<Rightarrow> bool" where
  "audit_matches q r \<longleftrightarrow>
     wanted (qa_principal q) (ar_principal r) \<and> wanted (qa_decision q) (ar_decision r) \<and>
     wanted (qa_policy_source q) (ar_policy_source r) \<and> wanted (qa_direction q) (ar_direction r) \<and>
     wanted (qa_request_id q) (ar_request_id r) \<and>
     (case qa_session_id q of Some y \<Rightarrow> ar_session_id r = Some y | None \<Rightarrow> True) \<and>
     (case qa_label q of Some y \<Rightarrow> y \<in> set (ar_matched_labels r) | None \<Rightarrow> True) \<and>
     (case qa_error_stage q of Some y \<Rightarrow> ar_error_stage r = Some y | None \<Rightarrow> True) \<and>
     (case qa_error_kind q of Some y \<Rightarrow> ar_error_kind r = Some y | None \<Rightarrow> True)"

definition select_audits :: "line_api \<Rightarrow> admin_api \<Rightarrow> audit_query \<Rightarrow> app_state \<Rightarrow> audit_record list" where
  "select_audits L A q st =
     (let limit = query_limit (qa_limit q) in
      take limit (filter (audit_matches q) (audit_records L A st (parse_audit_source (qa_source q)) limit)))"

definition admin_audits ::
  "line_api \<Rightarrow> gw_api \<Rightarrow> admin_api \<Rightarrow> header_map \<Rightarrow> audit_query \<Rightarrow> app_state \<Rightarrow> http_response option \<times> app_state" where
  "admin_audits L G A headers q st =
     admin_only G A st headers (\<lambda>_.
       let filtered = select_audits L A q st in
       (Some (json_response (sc_json (ga_scan G)) (JObj [
           (''source'', JStr (audit_source_name (parse_audit_source (qa_source q)))),
           (''count'', json_nat (length filtered)), (''records'', JArr (map (aj_record A) filtered))])), st))"

section \<open>The summary of the configuration\<close>

definition sorted_strings :: "string list \<Rightarrow> string list" where
  "sorted_strings xs = sort xs"

definition truncate_middle :: "string \<Rightarrow> nat \<Rightarrow> string" where
  "truncate_middle value max_chars =
     (let chars = utf8_chars value in
      if length chars \<le> max_chars then value
      else
        let head_len = (max_chars - 3) div 2;
            tail_len = max_chars - (3 + head_len);
            head = concat (take head_len chars);
            tail = concat (drop (length chars - tail_len) chars)
        in head @ ''...'' @ tail)"

fun clearance_name :: "clearance \<Rightarrow> string" where
  "clearance_name Public = ''public''"
| "clearance_name Internal = ''internal''"
| "clearance_name Confidential = ''confidential''"
| "clearance_name Restricted = ''restricted''"

fun masking_name :: "masking_strategy \<Rightarrow> string" where
  "masking_name Placeholder = ''placeholder''"
| "masking_name PartialEmail = ''partial_email''"
| "masking_name PartialPhone = ''partial_phone''"
| "masking_name KeepLast4 = ''keep_last4''"
| "masking_name Hash = ''hash''"
| "masking_name Tokenize = ''tokenize''"
| "masking_name Full = ''full''"

definition json_opt :: "('a \<Rightarrow> json) \<Rightarrow> 'a option \<Rightarrow> json" where
  "json_opt f x = (case x of Some y \<Rightarrow> f y | None \<Rightarrow> JNull)"

definition json_strs :: "string list \<Rightarrow> json" where
  "json_strs xs = JArr (map JStr xs)"

abbreviation json_real :: "real \<Rightarrow> json" where
  "json_real x \<equiv> JNum (NFloat x)"

definition principal_summary :: "admin_api \<Rightarrow> principal_config \<Rightarrow> json" where
  "principal_summary A p =
     JObj [(''name'', JStr (pc_name p)), (''tenant_id'', JStr (pc_tenant_id p)), (''role'', JStr (pc_role p)),
       (''clearance'', JStr (clearance_name (pc_clearance p))),
       (''allowed_labels'', json_strs (sorted_strings (aj_iter A (pc_allowed_labels p))))]"

definition rule_summary :: "detection_rule_config \<Rightarrow> json" where
  "rule_summary r =
     JObj [(''name'', JStr (dr_name r)), (''label'', JStr (dr_label r)),
       (''severity'', JStr (severity_name (dr_severity r))),
       (''authorized_action'', JStr (action_name (dr_authorized_action r))),
       (''unauthorized_action'', JStr (action_name (dr_unauthorized_action r))),
       (''min_clearance'', JStr (clearance_name (dr_min_clearance r))),
       (''masking'', JStr (masking_name (dr_masking r))),
       (''pattern_preview'', JStr (truncate_middle (dr_pattern r) 96))]"

definition entity_summary :: "presidio_entity_config \<Rightarrow> json" where
  "entity_summary e =
     JObj [(''entity_type'', JStr (pe_entity_type e)), (''label'', JStr (pe_label e)),
       (''severity'', JStr (severity_name (pe_severity e))),
       (''authorized_action'', JStr (action_name (pe_authorized_action e))),
       (''unauthorized_action'', JStr (action_name (pe_unauthorized_action e))),
       (''min_clearance'', JStr (clearance_name (pe_min_clearance e))),
       (''masking'', JStr (masking_name (pe_masking e))), (''min_score'', json_real (pe_min_score e))]"

definition high_entropy_summary :: "high_entropy_rule_config \<Rightarrow> json" where
  "high_entropy_summary r =
     JObj [(''enabled'', JBool (he_enabled r)), (''min_length'', json_nat (he_min_length r)),
       (''min_entropy'', json_real (he_min_entropy r)), (''label'', JStr (he_label r)),
       (''severity'', JStr (severity_name (he_severity r))),
       (''authorized_action'', JStr (action_name (he_authorized_action r))),
       (''unauthorized_action'', JStr (action_name (he_unauthorized_action r))),
       (''min_clearance'', JStr (clearance_name (he_min_clearance r))),
       (''masking'', JStr (masking_name (he_masking r)))]"

definition presidio_summary :: "presidio_config \<Rightarrow> json" where
  "presidio_summary p =
     JObj [(''enabled'', JBool (ps_enabled p)), (''analyzer_url'', JStr (ps_analyzer_url p)),
       (''healthcheck_url'', json_opt JStr (ps_healthcheck_url p)), (''timeout_ms'', json_nat (ps_timeout_ms p)),
       (''language'', JStr (ps_language p)), (''entity_count'', json_nat (length (ps_entities p))),
       (''entities'', JArr (map entity_summary (ps_entities p)))]"

definition opa_summary :: "runtime_state \<Rightarrow> opa_config \<Rightarrow> json" where
  "opa_summary rt o_config =
     JObj [(''enabled'', JBool (oc_enabled o_config)), (''runtime_loaded'', JBool (run_opa rt \<noteq> None)),
       (''url'', JStr (oc_url o_config)), (''healthcheck_url'', json_opt JStr (oc_healthcheck_url o_config)),
       (''timeout_ms'', json_nat (oc_timeout_ms o_config)), (''fail_open'', JBool (oc_fail_open o_config))]"

definition build_admin_config_summary :: "app_env \<Rightarrow> admin_api \<Rightarrow> app_state \<Rightarrow> json" where
  "build_admin_config_summary V A st =
     (let rt = st_runtime st; config = run_config rt; up = cfg_upstream config; det = cfg_detection config;
          tok = cfg_tokenization config; sess = cfg_session config; att = cfg_attachments config;
          review = cfg_review config; bench = cfg_benchmarks config; audit = cfg_audit config;
          present = (\<lambda>name. case name of Some n \<Rightarrow> av_env V n \<noteq> None | None \<Rightarrow> False)
      in JObj [
        (''status'', JStr ''ok''),
        (''config_path'', JStr (st_config_path st)),
        (''runtime'', JObj [
           (''bind'', JStr (srv_bind (cfg_server config))),
           (''request_body_limit_bytes'', json_nat (srv_request_body_limit_bytes (cfg_server config))),
           (''upstream_base_url'', JStr (run_upstream_base_url rt)),
           (''upstream_forward_headers'', json_strs (sorted_strings (aj_iter A (up_forward_headers up)))),
           (''upstream_auth_header'', json_opt JStr (up_auth_header up)),
           (''upstream_auth_env_configured'', JBool (up_auth_value_env up \<noteq> None)),
           (''upstream_auth_env_present'', JBool (present (up_auth_value_env up)))]),
        (''auth'', JObj [
           (''header_name'', JStr (ac_header_name (cfg_auth config))),
           (''principal_count'', json_nat (length (ac_principals (cfg_auth config)))),
           (''principals'', JArr (map (principal_summary A) (ac_principals (cfg_auth config))))]),
        (''detection'', JObj [
           (''ignore_json_pointers'', json_strs (sorted_strings (aj_iter A (dc_ignore_json_pointers det)))),
           (''regex_rule_count'', json_nat (length (dc_rules det))),
           (''rules'', JArr (map rule_summary (dc_rules det))),
           (''high_entropy'', json_opt high_entropy_summary (dc_high_entropy det)),
           (''presidio'', json_opt presidio_summary (dc_presidio det))]),
        (''tokenization'', JObj [
           (''enabled'', JBool (run_tokenizer rt \<noteq> None)),
           (''configured'', JBool (case tok of Some c \<Rightarrow> tk_enabled c | None \<Rightarrow> False)),
           (''required_by_rules'', JBool (requires_tokenization config)),
           (''key_env'', json_opt (JStr \<circ> tk_key_env) tok),
           (''key_env_present'', JBool (present (map_option tk_key_env tok))),
           (''token_prefix'', json_opt (JStr \<circ> tk_token_prefix) tok)]),
        (''session'', JObj [
           (''enabled'', JBool (ss_enabled sess)), (''header_name'', JStr (ss_header_name sess)),
           (''ttl_secs'', json_nat (ss_ttl_secs sess)), (''max_entries'', json_nat (ss_max_entries sess)),
           (''correlation_threshold'', json_nat (ss_correlation_threshold sess)),
           (''trigger_action'', JStr (action_name (ss_trigger_action sess)))]),
        (''response_filtering'', JObj [
           (''enabled'', JBool (rf_enabled (cfg_response_filtering config))),
           (''scan_json'', JBool (rf_scan_json (cfg_response_filtering config))),
           (''scan_sse'', JBool (rf_scan_sse (cfg_response_filtering config)))]),
        (''attachments'', JObj [
           (''enabled'', JBool (att_enabled att)), (''max_bytes'', json_nat (att_max_bytes att)),
           (''max_text_chars'', json_nat (att_max_text_chars att)),
           (''allowed_media_types'', json_strs (att_allowed_media_types att))]),
        (''review'', JObj [
           (''capacity'', json_nat (rc_capacity review)), (''preview_chars'', json_nat (rc_preview_chars review)),
           (''approval_ttl_secs'', json_nat (rc_approval_ttl_secs review)),
           (''jsonl_path'', JStr (rc_jsonl_path review))]),
        (''benchmarks'', JObj [
           (''enabled'', JBool (bc_enabled bench)), (''summary_json_path'', JStr (bc_summary_json_path bench)),
           (''baseline_summary_json_path'', json_opt JStr (bc_baseline_summary_json_path bench)),
           (''gate_report_json_path'', json_opt JStr (bc_gate_report_json_path bench))]),
        (''audit'', JObj [
           (''jsonl_path'', JStr (au_jsonl_path audit)), (''emit_stdout'', JBool (au_emit_stdout audit)),
           (''buffer_capacity'', json_nat (au_buffer_capacity audit))]),
        (''policy_backend'', JObj [
           (''opa'', json_opt (opa_summary rt) (pb_opa (cfg_policy_backend config)))])])"

definition admin_config_summary ::
  "app_env \<Rightarrow> gw_api \<Rightarrow> admin_api \<Rightarrow> header_map \<Rightarrow> app_state \<Rightarrow> http_response option \<times> app_state" where
  "admin_config_summary V G A headers st =
     admin_only G A st headers (\<lambda>_.
       (Some (json_response (sc_json (ga_scan G)) (build_admin_config_summary V A st)), st))"

section \<open>Lemmas\<close>

lemma admin_only_refused:
  assumes "\<forall>who. authenticate (ga_http G) (sc_hash (ga_scan G)) (run_auth (st_runtime st)) headers = Inr who \<longrightarrow>
    pr_role who \<noteq> ''admin''"
  obtains response where "admin_only G A st headers k = (Some response, st)" and "hr_status response \<in> {401, 403}"
  using assms
  by (cases "authenticate (ga_http G) (sc_hash (ga_scan G)) (run_auth (st_runtime st)) headers")
    (auto simp: admin_only_def gateway_error_def Let_def)

lemma set_retain_unseen: "set (retain_unseen seen xs) = set xs - set seen"
  by (induction seen xs rule: retain_unseen.induct) auto

lemma distinct_retain_unseen: "distinct (retain_unseen seen xs)"
  by (induction seen xs rule: retain_unseen.induct) (auto simp: set_retain_unseen)

lemma sorted_retain_unseen: "sorted (map f xs) \<Longrightarrow> sorted (map f (retain_unseen seen xs))"
proof (induction seen xs rule: retain_unseen.induct)
  case (2 seen x xs)
  have "set (retain_unseen (x # seen) xs) \<subseteq> set xs" by (auto simp: set_retain_unseen)
  with 2 show ?case by auto
qed simp

lemma audit_records_Both:
  "set (audit_records L A st Both limit) =
     set (audit_snapshot (sk_store (gs_audit (st_stores st)))) \<union> set (audit_file L A st limit)"
  "distinct (audit_records L A st Both limit)"
  "sorted (map (\<lambda>r. - ar_ts r) (audit_records L A st Both limit))"
  by (simp_all add: audit_records_def set_retain_unseen distinct_retain_unseen sorted_retain_unseen)

text \<open>Neither the secrets of the principals nor the credentials in the environment reach the summary.\<close>

definition without_secrets :: "app_config \<Rightarrow> app_config" where
  "without_secrets c = c\<lparr>cfg_auth := (cfg_auth c)\<lparr>ac_principals :=
     map (\<lambda>p. p\<lparr>pc_secret_sha256 := []\<rparr>) (ac_principals (cfg_auth c))\<rparr>\<rparr>"

lemma config_summary_without_secrets:
  "build_admin_config_summary V A (st\<lparr>st_runtime := (st_runtime st)\<lparr>run_config := without_secrets (run_config (st_runtime st))\<rparr>\<rparr>) =
   build_admin_config_summary V A st"
  by (simp add: build_admin_config_summary_def without_secrets_def Let_def requires_tokenization_def
      principal_summary_def opa_summary_def [abs_def] comp_def)

end
