(* ===== verification/Gw_Metrics.thy ===== *)
theory Gw_Metrics
  imports Gw_Admin
begin

text \<open>
  \<open>src/observability.rs\<close>: the metrics of the gateway over a registry, the snapshot of the registry as JSON
  and the text endpoint, and the status handler of \<open>src/proxy.rs\<close>. The registry, its vectors of
  counters and its text encoder are the prometheus crate's and a parameter. The handlers of the
  model record metric events; here each event is what the code does to the registry.
\<close>

section \<open>The registry\<close>

text \<open>A metric of a gathered family: its labels, and the value or the histogram it has. An \<open>f64\<close> may be no number.\<close>

datatype f64_value = Finite real | NotFinite

record metric_proto =
  mp_label :: "(string \<times> string) list"
  mp_counter :: "f64_value option"
  mp_gauge :: "f64_value option"
  mp_sample_count :: nat
  mp_sample_sum :: f64_value

record metric_family =
  mf_name :: string
  mf_metric :: "metric_proto list"

text \<open>
  Making a metric and registering it may fail. \<open>rg_inc_by\<close>, \<open>rg_set\<close> and \<open>rg_observe\<close> are \<open>with_label_values\<close>
  with \<open>inc_by\<close>, \<open>set\<close> and the observation of a duration.
\<close>

record 'r registry_api =
  rg_new :: 'r
  rg_make :: "string \<Rightarrow> string list \<Rightarrow> string option"
  rg_register :: "string \<Rightarrow> 'r \<Rightarrow> string + 'r"
  rg_inc_by :: "string \<Rightarrow> string list \<Rightarrow> nat \<Rightarrow> 'r \<Rightarrow> 'r"
  rg_set :: "string \<Rightarrow> string list \<Rightarrow> int \<Rightarrow> 'r \<Rightarrow> 'r"
  rg_observe :: "string \<Rightarrow> string list \<Rightarrow> real \<Rightarrow> 'r \<Rightarrow> 'r"
  rg_gather :: "'r \<Rightarrow> metric_family list"
  rg_encode :: "metric_family list \<Rightarrow> string + string"
  rg_format_type :: string

text \<open>Every metric with its labels, in the order the code makes and registers them.\<close>

definition metric_table :: "(string \<times> string list) list" where
  "metric_table =
     [(''gateway_requests_total'', [''direction'', ''decision'']),
      (''gateway_policy_decisions_total'', [''direction'', ''decision'', ''source'']),
      (''gateway_proxy_errors_total'', [''stage'', ''kind'']),
      (''gateway_detections_total'', [''direction'', ''label'']),
      (''gateway_auth_failures_total'', [''reason'']),
      (''gateway_review_events_total'', [''event'']),
      (''gateway_processing_fallback_total'', [''kind'']),
      (''gateway_llm_requests_total'', [''model'']),
      (''gateway_llm_tokens_total'', [''model'', ''kind'']),
      (''gateway_payload_processing_duration_seconds'', [''direction'', ''kind'']),
      (''gateway_upstream_duration_seconds'', [''path'']),
      (''gateway_active_sessions'', []),
      (''gateway_review_queue_pending'', []),
      (''gateway_review_queue_capacity'', []),
      (''gateway_dependency_configured'', [''dependency'']),
      (''gateway_dependency_ready'', [''dependency'']),
      (''gateway_dependency_status_code'', [''dependency''])]"

fun make_metrics :: "'r registry_api \<Rightarrow> (string \<times> string list) list \<Rightarrow> string + unit" where
  "make_metrics M [] = Inr ()"
| "make_metrics M ((name, labels) # rest) =
     (case rg_make M name labels of Some e \<Rightarrow> Inl e | None \<Rightarrow> make_metrics M rest)"

fun register_metrics :: "'r registry_api \<Rightarrow> (string \<times> string list) list \<Rightarrow> 'r \<Rightarrow> string + 'r" where
  "register_metrics M [] r = Inr r"
| "register_metrics M ((name, labels) # rest) r =
     (case rg_register M name r of Inl e \<Rightarrow> Inl e | Inr r' \<Rightarrow> register_metrics M rest r')"

definition metrics_new :: "'r registry_api \<Rightarrow> string + 'r" where
  "metrics_new M =
     (case make_metrics M metric_table of
        Inl e \<Rightarrow> Inl e | Inr _ \<Rightarrow> register_metrics M metric_table (rg_new M))"

section \<open>Recording\<close>

definition count_request :: "'r registry_api \<Rightarrow> string \<Rightarrow> string \<Rightarrow> 'r \<Rightarrow> 'r" where
  "count_request M direction decision = rg_inc_by M ''gateway_requests_total'' [direction, decision] 1"

definition policy_decision :: "'r registry_api \<Rightarrow> string \<Rightarrow> string \<Rightarrow> string \<Rightarrow> 'r \<Rightarrow> 'r" where
  "policy_decision M direction decision src r =
     rg_inc_by M ''gateway_policy_decisions_total'' [direction, decision, src] 1 (count_request M direction decision r)"

definition count_proxy_error :: "'r registry_api \<Rightarrow> string \<Rightarrow> string \<Rightarrow> 'r \<Rightarrow> 'r" where
  "count_proxy_error M stage kind = rg_inc_by M ''gateway_proxy_errors_total'' [stage, kind] 1"

definition count_detection :: "'r registry_api \<Rightarrow> string \<Rightarrow> string \<Rightarrow> 'r \<Rightarrow> 'r" where
  "count_detection M direction label = rg_inc_by M ''gateway_detections_total'' [direction, label] 1"

definition auth_failure :: "'r registry_api \<Rightarrow> string \<Rightarrow> 'r \<Rightarrow> 'r" where
  "auth_failure M reason = rg_inc_by M ''gateway_auth_failures_total'' [reason] 1"

definition count_review_event :: "'r registry_api \<Rightarrow> string \<Rightarrow> 'r \<Rightarrow> 'r" where
  "count_review_event M event = rg_inc_by M ''gateway_review_events_total'' [event] 1"

definition processing_fallback :: "'r registry_api \<Rightarrow> string \<Rightarrow> 'r \<Rightarrow> 'r" where
  "processing_fallback M kind = rg_inc_by M ''gateway_processing_fallback_total'' [kind] 1"

definition llm_request :: "'r registry_api \<Rightarrow> string \<Rightarrow> 'r \<Rightarrow> 'r" where
  "llm_request M model = rg_inc_by M ''gateway_llm_requests_total'' [model] 1"

definition count_llm_tokens :: "'r registry_api \<Rightarrow> string \<Rightarrow> nat \<Rightarrow> nat \<Rightarrow> 'r \<Rightarrow> 'r" where
  "count_llm_tokens M model prompt_tokens completion_tokens r =
     (let r1 = (if prompt_tokens > 0
                then rg_inc_by M ''gateway_llm_tokens_total'' [model, ''prompt''] prompt_tokens r else r)
      in if completion_tokens > 0
         then rg_inc_by M ''gateway_llm_tokens_total'' [model, ''completion''] completion_tokens r1 else r1)"

text \<open>A timer observes the seconds since it was started, when it is told to or when it is dropped.\<close>

definition payload_processing_timer :: "'r registry_api \<Rightarrow> string \<Rightarrow> string \<Rightarrow> real \<Rightarrow> 'r \<Rightarrow> 'r" where
  "payload_processing_timer M direction kind = rg_observe M ''gateway_payload_processing_duration_seconds'' [direction, kind]"

definition upstream_timer :: "'r registry_api \<Rightarrow> string \<Rightarrow> real \<Rightarrow> 'r \<Rightarrow> 'r" where
  "upstream_timer M path = rg_observe M ''gateway_upstream_duration_seconds'' [path]"

text \<open>The kinds under which \<open>process_payload\<close> times one payload: a step that is tried and does not apply is timed too.\<close>

definition payload_timings ::
  "gw_api \<Rightarrow> runtime_state \<Rightarrow> uuid_source \<Rightarrow> principal \<Rightarrow> string \<Rightarrow> string option \<Rightarrow> direction \<Rightarrow> string list" where
  "payload_timings G rt rng who body content_type dir =
     (let plain =
            (if is_json content_type then [''json''] else []) @
            (if is_json content_type \<and> js_parse (sc_json (ga_scan G)) body \<noteq> None then []
             else if utf8_valid body then [''text''] else [''passthrough''])
      in if dir = Request \<and> is_multipart_form content_type
         then ''multipart'' #
           (case scan_request (attachment_deps G rt) (run_attachments rt) rng who body content_type of
              Ok None \<Rightarrow> plain | _ \<Rightarrow> [])
         else plain)"

lemma payload_timings_distinct: "payload_timings G rt rng who body ct dir \<noteq> [] \<and> distinct (payload_timings G rt rng who body ct dir)"
  by (auto simp: payload_timings_def Let_def split: rres.split option.split)

text \<open>A payload that is timed as passed through has not been looked at.\<close>

lemma payload_timings_passthrough:
  assumes "''passthrough'' \<in> set (payload_timings G rt rng who body ct dir)"
  shows "process_payload G rt rng who body ct dir = Ok (payload_passthrough body)"
  using assms
  by (cases "scan_request (attachment_deps G rt) (run_attachments rt) rng who body ct")
    (auto simp: payload_timings_def process_payload_def process_plain_payload_def process_text_payload_def Let_def
      split: if_split_asm option.split_asm)

text \<open>\<open>count as i64\<close> of a \<open>usize\<close>.\<close>

definition usize_as_i64 :: "nat \<Rightarrow> int" where
  "usize_as_i64 n = (if n < 2 ^ 63 then int n else int n - 2 ^ 64)"

definition update_sessions :: "'r registry_api \<Rightarrow> nat \<Rightarrow> 'r \<Rightarrow> 'r" where
  "update_sessions M n = rg_set M ''gateway_active_sessions'' [] (usize_as_i64 n)"

definition update_review_queue :: "'r registry_api \<Rightarrow> nat \<Rightarrow> nat \<Rightarrow> 'r \<Rightarrow> 'r" where
  "update_review_queue M pending capacity r =
     rg_set M ''gateway_review_queue_capacity'' [] (usize_as_i64 capacity)
       (rg_set M ''gateway_review_queue_pending'' [] (usize_as_i64 pending) r)"

definition set_dependency :: "'r registry_api \<Rightarrow> string \<Rightarrow> bool \<Rightarrow> bool \<Rightarrow> int option \<Rightarrow> 'r \<Rightarrow> 'r" where
  "set_dependency M dependency configured ready status_code r =
     rg_set M ''gateway_dependency_status_code'' [dependency] (case status_code of Some c \<Rightarrow> c | None \<Rightarrow> 0)
       (rg_set M ''gateway_dependency_ready'' [dependency] (if ready then 1 else 0)
         (rg_set M ''gateway_dependency_configured'' [dependency] (if configured then 1 else 0) r))"

text \<open>What an event of the model does to the registry.\<close>

fun record_event :: "'r registry_api \<Rightarrow> metric_event \<Rightarrow> 'r \<Rightarrow> 'r" where
  "record_event M (MDetection direction label) = count_detection M direction label"
| "record_event M (MProcessingFallback kind) = processing_fallback M kind"
| "record_event M (MReviewEvent event) = count_review_event M event"
| "record_event M (MPolicyDecision direction decision src) = policy_decision M direction decision src"
| "record_event M (MAuthFailure reason) = auth_failure M reason"
| "record_event M (MProxyError stage kind) = count_proxy_error M stage kind"
| "record_event M (MUpdateSessions n) = update_sessions M n"
| "record_event M (MUpdateReviewQueue pending capacity) = update_review_queue M pending capacity"
| "record_event M (MUpdateDependency dependency configured ready code) = set_dependency M dependency configured ready code"
| "record_event M (MLlmRequest model) = llm_request M model"
| "record_event M (MLlmTokens model p c) = count_llm_tokens M model p c"

text \<open>What the registry is told, in order: the events of the handlers and the durations of their timers.\<close>

datatype registry_entry = Recorded metric_event | PayloadTimed string string real | UpstreamTimed string real

fun apply_entry :: "'r registry_api \<Rightarrow> registry_entry \<Rightarrow> 'r \<Rightarrow> 'r" where
  "apply_entry M (Recorded e) = record_event M e"
| "apply_entry M (PayloadTimed direction kind secs) = payload_processing_timer M direction kind secs"
| "apply_entry M (UpstreamTimed path secs) = upstream_timer M path secs"

fun recorded :: "registry_entry list \<Rightarrow> metric_event list" where
  "recorded [] = []"
| "recorded (Recorded e # es) = e # recorded es"
| "recorded (_ # es) = recorded es"

lemma recorded_append: "recorded (xs @ ys) = recorded xs @ recorded ys"
  by (induction xs rule: recorded.induct) simp_all

lemma recorded_events: "recorded (map Recorded es) = es"
  by (induction es) simp_all

lemma apply_recorded: "fold (apply_entry M) (map Recorded es) = fold (record_event M) es"
  by (induction es) (simp_all add: fun_eq_iff)

text \<open>A registry, from the start told of these events and of some durations.\<close>

definition registry_told :: "'r registry_api \<Rightarrow> 'r \<Rightarrow> metric_event list \<Rightarrow> bool" where
  "registry_told M registry es \<longleftrightarrow>
     (\<exists>r entries. metrics_new M = Inr r \<and> registry = fold (apply_entry M) entries r \<and> recorded entries = es)"

lemma registry_told_new: "metrics_new M = Inr registry \<Longrightarrow> registry_told M registry []"
  unfolding registry_told_def by (intro exI [of _ registry] exI [of _ "[]"]) simp

lemma registry_told_entries:
  "registry_told M registry es \<Longrightarrow> registry_told M (fold (apply_entry M) new registry) (es @ recorded new)"
  unfolding registry_told_def by (metis comp_apply fold_append recorded_append)

lemma registry_told_events:
  "registry_told M registry es \<Longrightarrow> registry_told M (fold (record_event M) new registry) (es @ new)"
  using registry_told_entries [of M registry es "map Recorded new"] by (simp add: apply_recorded recorded_events)

lemma registry_told_timers:
  assumes "registry_told M registry es"
  shows "registry_told M (payload_processing_timer M direction kind secs registry) es"
    and "registry_told M (upstream_timer M path secs registry) es"
  using registry_told_entries [OF assms, of "[PayloadTimed direction kind secs]"]
    registry_told_entries [OF assms, of "[UpstreamTimed path secs]"] by simp_all

section \<open>The snapshot\<close>

definition metric_family_named :: "metric_family list \<Rightarrow> string \<Rightarrow> metric_family option" where
  "metric_family_named families name = find (\<lambda>f. mf_name f = name) families"

definition label_value :: "metric_proto \<Rightarrow> string \<Rightarrow> string option" where
  "label_value m name = map_option snd (find (\<lambda>(k, _). k = name) (mp_label m))"

definition f64_or_zero :: "f64_value option \<Rightarrow> f64_value" where
  "f64_or_zero v = (case v of Some x \<Rightarrow> x | None \<Rightarrow> Finite 0)"

definition counter_value_of :: "metric_proto \<Rightarrow> f64_value" where
  "counter_value_of m = f64_or_zero (mp_counter m)"

definition gauge_value_of :: "metric_proto \<Rightarrow> f64_value" where
  "gauge_value_of m = f64_or_zero (mp_gauge m)"

text \<open>\<open>value as i64\<close> saturates; \<open>Value::from\<close> of a non-negative \<open>i64\<close> is a positive number.\<close>

definition json_i64 :: "int \<Rightarrow> json" where
  "json_i64 i = JNum (if 0 \<le> i then PosInt (nat i) else NegInt i)"

fun numeric_value :: "f64_value \<Rightarrow> json" where
  "numeric_value (Finite x) =
     (if x = real_of_int \<lfloor>x\<rfloor> then json_i64 (max (- (2 ^ 63)) (min (2 ^ 63 - 1) \<lfloor>x\<rfloor>)) else JNum (NFloat x))"
| "numeric_value NotFinite = JNull"

definition gauge_value :: "metric_family list \<Rightarrow> string \<Rightarrow> json" where
  "gauge_value families name =
     numeric_value (f64_or_zero (Option.bind (metric_family_named families name)
       (\<lambda>f. case mf_metric f of [] \<Rightarrow> None | m # _ \<Rightarrow> Some (gauge_value_of m))))"

definition labeled_gauge_value :: "metric_family list \<Rightarrow> string \<Rightarrow> string \<Rightarrow> string \<Rightarrow> json" where
  "labeled_gauge_value families name label_name label_value_expected =
     numeric_value (f64_or_zero (Option.bind (metric_family_named families name)
       (\<lambda>f. map_option gauge_value_of (find (\<lambda>m. label_value m label_name = Some label_value_expected) (mf_metric f)))))"

definition dependency_snapshot :: "metric_family list \<Rightarrow> json" where
  "dependency_snapshot families =
     JObj (hm_from_list (map (\<lambda>dependency. (dependency, JObj
       [(''configured'', labeled_gauge_value families ''gateway_dependency_configured'' ''dependency'' dependency),
        (''ready'', labeled_gauge_value families ''gateway_dependency_ready'' ''dependency'' dependency),
        (''status_code'', labeled_gauge_value families ''gateway_dependency_status_code'' ''dependency'' dependency)]))
       [''opa'', ''presidio'']))"

definition family_metrics :: "metric_family list \<Rightarrow> string \<Rightarrow> metric_proto list" where
  "family_metrics families name = (case metric_family_named families name of Some f \<Rightarrow> mf_metric f | None \<Rightarrow> [])"

text \<open>
  \<open>entry(k).or_insert_with(..)\<close> of an object, and what happens to the child; a child that is no object is
  left alone.
\<close>

definition child_update ::
  "string \<Rightarrow> ((string \<times> json) list \<Rightarrow> (string \<times> json) list) \<Rightarrow> (string \<times> json) list \<Rightarrow> (string \<times> json) list" where
  "child_update k f output =
     (case hm_get output k of
        None \<Rightarrow> hm_insert k (JObj (f [])) output
      | Some (JObj child) \<Rightarrow> hm_insert k (JObj (f child)) output
      | Some _ \<Rightarrow> output)"

definition step_1 :: "string \<Rightarrow> (metric_proto \<Rightarrow> json) \<Rightarrow> metric_proto \<Rightarrow> (string \<times> json) list \<Rightarrow> (string \<times> json) list" where
  "step_1 label_name f m output =
     (case label_value m label_name of None \<Rightarrow> output | Some key \<Rightarrow> hm_insert key (f m) output)"

definition step_2 ::
  "string \<Rightarrow> string \<Rightarrow> (metric_proto \<Rightarrow> json) \<Rightarrow> metric_proto \<Rightarrow> (string \<times> json) list \<Rightarrow> (string \<times> json) list" where
  "step_2 label_1 label_2 f m output =
     (case (label_value m label_1, label_value m label_2) of
        (Some key_1, Some key_2) \<Rightarrow> child_update key_1 (hm_insert key_2 (f m)) output
      | _ \<Rightarrow> output)"

definition step_3 ::
  "string \<Rightarrow> string \<Rightarrow> string \<Rightarrow> (metric_proto \<Rightarrow> json) \<Rightarrow> metric_proto \<Rightarrow> (string \<times> json) list \<Rightarrow> (string \<times> json) list" where
  "step_3 label_1 label_2 label_3 f m output =
     (case (label_value m label_1, label_value m label_2, label_value m label_3) of
        (Some key_1, Some key_2, Some key_3) \<Rightarrow> child_update key_1 (child_update key_2 (hm_insert key_3 (f m))) output
      | _ \<Rightarrow> output)"

definition counter_json :: "metric_proto \<Rightarrow> json" where
  "counter_json m = numeric_value (counter_value_of m)"

definition counter_map_1 :: "metric_family list \<Rightarrow> string \<Rightarrow> string \<Rightarrow> json" where
  "counter_map_1 families name label_name = JObj (fold (step_1 label_name counter_json) (family_metrics families name) [])"

definition counter_map_2 :: "metric_family list \<Rightarrow> string \<Rightarrow> string \<Rightarrow> string \<Rightarrow> json" where
  "counter_map_2 families name label_1 label_2 =
     JObj (fold (step_2 label_1 label_2 counter_json) (family_metrics families name) [])"

definition counter_map_3 :: "metric_family list \<Rightarrow> string \<Rightarrow> string \<Rightarrow> string \<Rightarrow> string \<Rightarrow> json" where
  "counter_map_3 families name label_1 label_2 label_3 =
     JObj (fold (step_3 label_1 label_2 label_3 counter_json) (family_metrics families name) [])"

definition histogram_json :: "metric_proto \<Rightarrow> json" where
  "histogram_json m =
     JObj [(''count'', JNum (PosInt (mp_sample_count m))), (''sum_seconds'', numeric_value (mp_sample_sum m))]"

definition histogram_summary :: "metric_family list \<Rightarrow> string \<Rightarrow> string \<Rightarrow> json" where
  "histogram_summary families name label_name =
     JObj (fold (step_1 label_name histogram_json) (family_metrics families name) [])"

definition histogram_summary_2 :: "metric_family list \<Rightarrow> string \<Rightarrow> string \<Rightarrow> string \<Rightarrow> json" where
  "histogram_summary_2 families name label_1 label_2 =
     JObj (fold (step_2 label_1 label_2 histogram_json) (family_metrics families name) [])"

definition metrics_snapshot :: "'r registry_api \<Rightarrow> 'r \<Rightarrow> json" where
  "metrics_snapshot M r =
     (let families = rg_gather M r in
      JObj [(''gauges'', JObj
              [(''active_sessions'', gauge_value families ''gateway_active_sessions''),
               (''review_queue_pending'', gauge_value families ''gateway_review_queue_pending''),
               (''review_queue_capacity'', gauge_value families ''gateway_review_queue_capacity'')]),
            (''dependencies'', dependency_snapshot families),
            (''counters'', JObj
              [(''requests_total'', counter_map_2 families ''gateway_requests_total'' ''direction'' ''decision''),
               (''policy_decisions_total'',
                  counter_map_3 families ''gateway_policy_decisions_total'' ''direction'' ''decision'' ''source''),
               (''proxy_errors_total'', counter_map_2 families ''gateway_proxy_errors_total'' ''stage'' ''kind''),
               (''detections_total'', counter_map_2 families ''gateway_detections_total'' ''direction'' ''label''),
               (''auth_failures_total'', counter_map_1 families ''gateway_auth_failures_total'' ''reason''),
               (''review_events_total'', counter_map_1 families ''gateway_review_events_total'' ''event''),
               (''processing_fallback_total'', counter_map_1 families ''gateway_processing_fallback_total'' ''kind''),
               (''llm_requests_total'', counter_map_1 families ''gateway_llm_requests_total'' ''model''),
               (''llm_tokens_total'', counter_map_2 families ''gateway_llm_tokens_total'' ''model'' ''kind'')]),
            (''latency'', JObj
              [(''payload_processing_duration_seconds'',
                  histogram_summary_2 families ''gateway_payload_processing_duration_seconds'' ''direction'' ''kind''),
               (''upstream_duration_seconds'', histogram_summary families ''gateway_upstream_duration_seconds'' ''path'')])])"

section \<open>The endpoints\<close>

definition metrics_handler ::
  "'r registry_api \<Rightarrow> app_env \<Rightarrow> gw_clock \<Rightarrow> 'r \<Rightarrow> app_state \<Rightarrow> http_response \<times> app_state" where
  "metrics_handler M V K r st =
     (let st' = refresh_metrics V K st;
          new = drop (length (gs_metrics (st_stores st))) (gs_metrics (st_stores st'));
          families = rg_gather M (fold (record_event M) new r)
      in (case rg_encode M families of
            Inr buffer \<Rightarrow> \<lparr>hr_status = 200, hr_headers = [(''content-type'', rg_format_type M)], hr_body = buffer\<rparr>
          | Inl err \<Rightarrow> \<lparr>hr_status = 500, hr_headers = [(''content-type'', ''text/plain; charset=utf-8'')],
              hr_body = ''failed to encode metrics: '' @ err\<rparr>, st'))"

text \<open>The status handler; \<open>surface\<close> is the derived serializer of the benchmark surface.\<close>

definition status_flag :: "json \<Rightarrow> string \<Rightarrow> bool" where
  "status_flag status key = (case Option.bind (json_get status key) json_as_bool of Some b \<Rightarrow> b | None \<Rightarrow> False)"

definition status_dependency :: "string \<Rightarrow> json \<Rightarrow> gw_state \<Rightarrow> gw_state" where
  "status_dependency name status =
     metric (MUpdateDependency name (status_flag status ''configured'') (status_flag status ''reachable'')
       (Option.bind (json_get status ''status_code'') json_as_i64))"

definition status_json ::
  "app_env \<Rightarrow> app_state \<Rightarrow> nat \<Rightarrow> nat \<Rightarrow> json \<Rightarrow> json \<Rightarrow> json \<Rightarrow> json \<Rightarrow> json" where
  "status_json V st sessions pending opa_status presidio_status surface snapshot =
     (let rt = st_runtime st; cfg = run_config rt; store = sk_store (gs_audit (st_stores st)) in
      JObj [(''status'', JStr ''ok''),
            (''config_path'', JStr (st_config_path st)),
            (''upstream'', JStr (run_upstream_base_url rt)),
            (''features'', JObj
              [(''opa'', JBool (run_opa rt \<noteq> None)), (''presidio'', JBool (run_presidio rt \<noteq> None)),
               (''tokenization'', JBool (run_tokenizer rt \<noteq> None)),
               (''attachment_scanning'', JBool (ae_enabled (run_attachments rt))),
               (''response_filtering'', JBool (rf_enabled (cfg_response_filtering cfg))),
               (''session_correlation'', JBool (ss_enabled (cfg_session cfg)))]),
            (''audit_buffer'', JObj [(''len'', json_nat (audit_len store)), (''capacity'', json_nat (as_capacity store))]),
            (''review_queue'', JObj
              [(''pending'', json_nat pending), (''capacity'', json_nat (rc_capacity (cfg_review cfg))),
               (''approval_ttl_secs'', json_nat (rc_approval_ttl_secs (cfg_review cfg)))]),
            (''sessions'', json_nat sessions),
            (''dependencies'', JObj [(''opa'', opa_status), (''presidio'', presidio_status)]),
            (''observability'', JObj
              [(''metrics_path'', JStr ''/metrics''),
               (''benchmarks'', surface),
               (''runtime_summary'', JObj
                 [(''sessions_active'', json_nat sessions),
                  (''review_queue_pending'', json_nat pending),
                  (''review_queue_capacity'', json_nat (rc_capacity (cfg_review cfg))),
                  (''dependency_ready'', JObj
                    [(''opa'', JBool (status_flag opa_status ''reachable'')),
                     (''presidio'', JBool (status_flag presidio_status ''reachable''))])]),
               (''metrics_summary'', snapshot)])])"

definition admin_status ::
  "'r registry_api \<Rightarrow> (benchmark_surface \<Rightarrow> json) \<Rightarrow> bench_api \<Rightarrow> bench_files \<Rightarrow> app_env \<Rightarrow> gw_api \<Rightarrow> admin_api \<Rightarrow>
     gw_clock \<Rightarrow> header_map \<Rightarrow> 'r \<Rightarrow> app_state \<Rightarrow> http_response option \<times> app_state" where
  "admin_status M surface B files V G A K headers r st =
     admin_only G A st headers (\<lambda>_.
       let rt = st_runtime st;
           benchmark_surface = load_benchmark_surface B files (cfg_benchmarks (run_config rt));
           (sessions, s1) = count_sessions K rt (st_stores st);
           (pending, s2) = count_pending K s1;
           opa_status = dependency_status_opa V (run_opa rt);
           presidio_status = dependency_status_presidio V (run_presidio rt);
           s3 = metric (MUpdateSessions sessions) s2;
           s4 = metric (MUpdateReviewQueue pending (rc_capacity (cfg_review (run_config rt)))) s3;
           s5 = status_dependency ''opa'' opa_status s4;
           s6 = status_dependency ''presidio'' presidio_status s5;
           snapshot = metrics_snapshot M
             (fold (record_event M) (drop (length (gs_metrics (st_stores st))) (gs_metrics s6)) r)
       in (Some (json_response (sc_json (ga_scan G))
             (status_json V st sessions pending opa_status presidio_status (surface benchmark_surface) snapshot)),
           st\<lparr>st_stores := s6\<rparr>))"

section \<open>What a registry promises\<close>

text \<open>
  \<open>count r (name, ls)\<close> is the value of the child of a vector with the label values \<open>ls\<close>, an unsigned 64-bit
  integer, or \<open>None\<close> when it has not been touched. Gathering shows each child once, with its label pairs in
  any order, as an \<open>f64\<close>, which is exact up to \<open>2 ^ 53\<close>.
\<close>

type_synonym metric_cells = "string \<times> string list \<Rightarrow> nat option"

definition bump :: "string \<times> string list \<Rightarrow> nat \<Rightarrow> metric_cells \<Rightarrow> metric_cells" where
  "bump key n c = c(key := Some (((case c key of None \<Rightarrow> 0 | Some v \<Rightarrow> v) + n) mod 2 ^ 64))"

definition counter_labels :: "(string \<times> string list) list" where
  "counter_labels = take 9 metric_table"

definition shows_child :: "string list \<Rightarrow> string list \<Rightarrow> metric_proto \<Rightarrow> bool" where
  "shows_child labels ls m \<longleftrightarrow> distinct (map fst (mp_label m)) \<and> set (mp_label m) = set (zip labels ls)"

definition gather_sound :: "metric_family list \<Rightarrow> metric_cells \<Rightarrow> bool" where
  "gather_sound families c \<longleftrightarrow> distinct (map mf_name families) \<and>
     (\<forall>f\<in>set families. \<forall>m\<in>set (mf_metric f). \<forall>labels. (mf_name f, labels) \<in> set counter_labels \<longrightarrow>
        (\<exists>ls v. length ls = length labels \<and> shows_child labels ls m \<and> c (mf_name f, ls) = Some v \<and>
           (v \<le> 2 ^ 53 \<longrightarrow> mp_counter m = Some (Finite (real v))))) \<and>
     (\<forall>name labels ls v. (name, labels) \<in> set counter_labels \<longrightarrow> length ls = length labels \<longrightarrow> c (name, ls) = Some v \<longrightarrow>
        (\<exists>f\<in>set families. mf_name f = name \<and> (\<exists>m\<in>set (mf_metric f). shows_child labels ls m)))"

definition registry_sound :: "'r registry_api \<Rightarrow> ('r \<Rightarrow> metric_cells) \<Rightarrow> bool" where
  "registry_sound M count \<longleftrightarrow>
     (\<forall>r. metrics_new M = Inr r \<longrightarrow> count r = Map.empty) \<and>
     (\<forall>r name ls n. count (rg_inc_by M name ls n r) = bump (name, ls) n (count r)) \<and>
     (\<forall>r name ls v. count (rg_set M name ls v r) = count r) \<and>
     (\<forall>r name ls x. count (rg_observe M name ls x r) = count r) \<and>
     (\<forall>r. gather_sound (rg_gather M r) (count r))"

section \<open>Counters count\<close>

fun event_cells :: "metric_event \<Rightarrow> ((string \<times> string list) \<times> nat) list" where
  "event_cells (MDetection d l) = [((''gateway_detections_total'', [d, l]), 1)]"
| "event_cells (MProcessingFallback k) = [((''gateway_processing_fallback_total'', [k]), 1)]"
| "event_cells (MReviewEvent e) = [((''gateway_review_events_total'', [e]), 1)]"
| "event_cells (MPolicyDecision d k s) =
     [((''gateway_requests_total'', [d, k]), 1), ((''gateway_policy_decisions_total'', [d, k, s]), 1)]"
| "event_cells (MAuthFailure x) = [((''gateway_auth_failures_total'', [x]), 1)]"
| "event_cells (MProxyError s k) = [((''gateway_proxy_errors_total'', [s, k]), 1)]"
| "event_cells (MLlmRequest m) = [((''gateway_llm_requests_total'', [m]), 1)]"
| "event_cells (MLlmTokens m p c) =
     (if p > 0 then [((''gateway_llm_tokens_total'', [m, ''prompt'']), p)] else []) @
     (if c > 0 then [((''gateway_llm_tokens_total'', [m, ''completion'']), c)] else [])"
| "event_cells _ = []"

lemmas recording_defs = count_request_def policy_decision_def count_proxy_error_def count_detection_def auth_failure_def
  count_review_event_def processing_fallback_def llm_request_def count_llm_tokens_def update_sessions_def
  update_review_queue_def set_dependency_def

lemma count_record_event:
  assumes "registry_sound M count"
  shows "count (record_event M e r) = fold (\<lambda>(key, n). bump key n) (event_cells e) (count r)"
proof -
  have "count (rg_inc_by M name ls n r) = bump (name, ls) n (count r)" "count (rg_set M name ls v r) = count r" for name ls n v r
    using assms by (simp_all add: registry_sound_def)
  then show ?thesis by (cases e) (simp_all add: recording_defs Let_def)
qed

lemma count_entries:
  assumes "registry_sound M count"
  shows "count (fold (apply_entry M) entries r) = fold (\<lambda>(key, n). bump key n) (concat (map event_cells (recorded entries))) (count r)"
proof -
  have "count (rg_observe M name ls x r) = count r" for name ls x r using assms by (simp add: registry_sound_def)
  then show ?thesis
    by (induction entries arbitrary: r rule: recorded.induct)
      (simp_all add: count_record_event [OF assms] payload_processing_timer_def upstream_timer_def)
qed

lemma fold_bump:
  "fold (\<lambda>(key, n). bump key n) xs c key =
     (if key \<in> fst ` set xs
      then Some (((case c key of None \<Rightarrow> 0 | Some v \<Rightarrow> v) + sum_list (map snd (filter (\<lambda>(k, _). k = key) xs))) mod 2 ^ 64)
      else c key)"
proof (induction xs arbitrary: c)
  case Nil
  then show ?case by simp
next
  case (Cons x xs)
  obtain k n where x: "x = (k, n)" by (cases x)
  show ?case
  proof (cases "key \<in> fst ` set xs")
    case True
    with Cons.IH [of "bump k n c"] show ?thesis
      by (auto simp: x bump_def mod_add_left_eq add.assoc split: option.splits)
  next
    case False
    then have "filter (\<lambda>(k, _). k = key) xs = []" by (force simp: filter_empty_conv)
    with False Cons.IH [of "bump k n c"] show ?thesis by (auto simp: x bump_def split: option.splits)
  qed
qed

section \<open>Reading the snapshot\<close>

text \<open>The value behind a path of keys.\<close>

fun json_path :: "string list \<Rightarrow> json \<Rightarrow> json option" where
  "json_path [] v = Some v"
| "json_path (k # ks) v = (case json_get v k of None \<Rightarrow> None | Some w \<Rightarrow> json_path ks w)"

lemma label_value_map_of: "label_value m name = map_of (mp_label m) name"
proof -
  have "map_option snd (find (\<lambda>(k, _). k = name) xs) = map_of xs name" for xs :: "(string \<times> string) list"
    by (induction xs) auto
  then show ?thesis by (simp add: label_value_def)
qed

lemma shows_child_label_value:
  "shows_child labels ls m \<Longrightarrow> label_value m l = Some v \<longleftrightarrow> (l, v) \<in> set (zip labels ls)"
  by (simp add: shows_child_def label_value_map_of)

text \<open>Every child of an output is an object.\<close>

definition child_objects :: "(string \<times> json) list \<Rightarrow> bool" where
  "child_objects obj \<longleftrightarrow> (\<forall>k v. hm_get obj k = Some v \<longrightarrow> (\<exists>c. v = JObj c))"

definition get_child :: "(string \<times> json) list \<Rightarrow> string \<Rightarrow> (string \<times> json) list" where
  "get_child obj k = (case hm_get obj k of Some (JObj c) \<Rightarrow> c | _ \<Rightarrow> [])"

lemma child_objects_Nil [simp]: "child_objects []"
  by (simp add: child_objects_def)

lemma get_child_update:
  "child_objects obj \<Longrightarrow> get_child (child_update k f obj) k' =
     (if k' = k then f (get_child obj k) else get_child obj k')"
  by (auto simp: child_update_def get_child_def child_objects_def hm_get_insert split: option.split json.split)

lemma child_objects_update: "child_objects obj \<Longrightarrow> child_objects (child_update k f obj)"
  by (auto simp: child_update_def child_objects_def hm_get_insert split: option.split json.split)

lemma get_child_Nil [simp]: "get_child [] k = []"
  by (simp add: get_child_def)

lemma json_path_child:
  "child_objects obj \<Longrightarrow> json_path (k # ks) (JObj obj) =
     (if hm_get obj k = None then None else json_path ks (JObj (get_child obj k)))"
  by (auto simp: child_objects_def get_child_def hm_get_def split: option.split json.split)

lemma step_2_read:
  assumes "child_objects obj"
  shows "child_objects (step_2 l1 l2 f m obj)"
    and "hm_get (get_child (step_2 l1 l2 f m obj) a) b =
      (if label_value m l1 = Some a \<and> label_value m l2 = Some b then Some (f m) else hm_get (get_child obj a) b)"
  using assms
  by (auto simp: step_2_def child_objects_update get_child_update hm_get_insert split: option.split)

lemma fold_step_2_read:
  assumes "child_objects obj"
    and "\<forall>m\<in>set ms. label_value m l1 = Some a \<longrightarrow> label_value m l2 = Some b \<longrightarrow> f m = v"
  shows "child_objects (fold (step_2 l1 l2 f) ms obj) \<and>
    hm_get (get_child (fold (step_2 l1 l2 f) ms obj) a) b =
      (if \<exists>m\<in>set ms. label_value m l1 = Some a \<and> label_value m l2 = Some b then Some v else hm_get (get_child obj a) b)"
  using assms by (induction ms arbitrary: obj) (auto simp: step_2_read)

lemma json_path_2: "child_objects obj \<Longrightarrow> json_path [a, b] (JObj obj) = hm_get (get_child obj a) b"
  by (auto simp: child_objects_def get_child_def hm_get_def split: option.split json.split)

text \<open>The same one level deeper.\<close>

definition nested_objects :: "(string \<times> json) list \<Rightarrow> bool" where
  "nested_objects obj \<longleftrightarrow> child_objects obj \<and> (\<forall>k. child_objects (get_child obj k))"

lemma nested_objects_Nil [simp]: "nested_objects []"
  by (simp add: nested_objects_def)

lemma step_3_read:
  assumes "nested_objects obj"
  shows "nested_objects (step_3 l1 l2 l3 f m obj)"
    and "hm_get (get_child (get_child (step_3 l1 l2 l3 f m obj) a) b) d =
      (if label_value m l1 = Some a \<and> label_value m l2 = Some b \<and> label_value m l3 = Some d then Some (f m)
       else hm_get (get_child (get_child obj a) b) d)"
  using assms
  by (auto simp: step_3_def nested_objects_def child_objects_update get_child_update hm_get_insert split: option.split)

lemma fold_step_3_read:
  assumes "nested_objects obj"
    and "\<forall>m\<in>set ms. label_value m l1 = Some a \<longrightarrow> label_value m l2 = Some b \<longrightarrow> label_value m l3 = Some d \<longrightarrow> f m = v"
  shows "nested_objects (fold (step_3 l1 l2 l3 f) ms obj) \<and>
    hm_get (get_child (get_child (fold (step_3 l1 l2 l3 f) ms obj) a) b) d =
      (if \<exists>m\<in>set ms. label_value m l1 = Some a \<and> label_value m l2 = Some b \<and> label_value m l3 = Some d then Some v
       else hm_get (get_child (get_child obj a) b) d)"
  using assms by (induction ms arbitrary: obj) (auto simp: step_3_read)

lemma json_path_3:
  "nested_objects obj \<Longrightarrow> json_path [a, b, d] (JObj obj) = hm_get (get_child (get_child obj a) b) d"
proof (cases "hm_get obj a")
  assume nested: "nested_objects obj"
  case None
  have "json_path [a, b, d] (JObj obj) = None"
    using nested None by (simp only: nested_objects_def json_path_child) simp
  with None show ?thesis by (simp add: get_child_def)
next
  assume nested: "nested_objects obj"
  case (Some w)
  have "json_path [a, b, d] (JObj obj) = json_path [b, d] (JObj (get_child obj a))"
    using nested Some by (simp only: nested_objects_def json_path_child) simp
  with nested show ?thesis by (simp only: nested_objects_def json_path_2)
qed

subsection \<open>Gathered counters\<close>

lemma family_metrics_in:
  "distinct (map mf_name families) \<Longrightarrow> f \<in> set families \<Longrightarrow> family_metrics families (mf_name f) = mf_metric f"
proof (induction families)
  case Nil
  then show ?case by simp
next
  case (Cons g families)
  then show ?case by (cases "f = g") (auto simp: family_metrics_def metric_family_named_def)
qed

lemma family_metrics_ex: "m \<in> set (family_metrics families name) \<Longrightarrow> \<exists>f\<in>set families. mf_name f = name \<and> m \<in> set (mf_metric f)"
  by (cases "find (\<lambda>f. mf_name f = name) families") (auto simp: family_metrics_def metric_family_named_def find_Some_iff)

lemma shows_child_inject:
  assumes "shows_child labels ls m" and "shows_child labels ls' m" and "distinct labels"
    and "length ls = length labels" and "length ls' = length labels"
  shows "ls = ls'"
proof -
  have "set (zip labels ls) = set (zip labels ls')" using assms(1,2) by (simp add: shows_child_def)
  then have "map_of (zip labels ls) = map_of (zip labels ls')"
    using assms(3-5) map_of_inject_set [of "zip labels ls" "zip labels ls'"] by (simp add: map_fst_zip)
  then show ?thesis using assms(3-5) map_of_zip_inject [of ls labels ls'] by simp
qed

lemma numeric_value_nat: "v \<le> 2 ^ 53 \<Longrightarrow> numeric_value (Finite (real v)) = json_nat v"
  by (simp add: json_i64_def min_def max_def)

lemma gathered_counter:
  assumes "gather_sound families c" and "(name, labels) \<in> set counter_labels" and "distinct labels"
    and "m \<in> set (family_metrics families name)"
  shows "\<exists>ls v. length ls = length labels \<and> shows_child labels ls m \<and> c (name, ls) = Some v \<and>
    (v \<le> 2 ^ 53 \<longrightarrow> counter_json m = json_nat v)"
proof -
  obtain f where "f \<in> set families" "mf_name f = name" "m \<in> set (mf_metric f)"
    using family_metrics_ex [OF assms(4)] by blast
  then show ?thesis
    using assms(1,2) unfolding gather_sound_def
    by (metis (no_types, lifting) counter_json_def counter_value_of_def f64_or_zero_def numeric_value_nat option.simps(5))
qed

lemma gathered_child:
  assumes "gather_sound families c" and "(name, labels) \<in> set counter_labels" and "length ls = length labels"
    and "c (name, ls) = Some v"
  shows "\<exists>m\<in>set (family_metrics families name). shows_child labels ls m"
  using assms unfolding gather_sound_def by (metis family_metrics_in)

text \<open>The events of a key, and their sum.\<close>

definition key_total :: "string \<times> string list \<Rightarrow> metric_event list \<Rightarrow> nat option" where
  "key_total key es =
     (let ns = map snd (filter (\<lambda>(k, _). k = key) (concat (map event_cells es)))
      in if ns = [] then None else Some (sum_list ns))"

lemma recorded_cell:
  assumes "registry_sound M count" and "metrics_new M = Inr r" and "recorded entries = es"
    and "\<forall>n. key_total key es = Some n \<longrightarrow> n \<le> 2 ^ 53"
  shows "count (fold (apply_entry M) entries r) key = key_total key es"
proof -
  have "(filter (\<lambda>(k, _). k = key) xs = []) = (key \<notin> fst ` set xs)" for xs :: "((string \<times> string list) \<times> nat) list"
    by (force simp: filter_empty_conv)
  moreover have "count r = Map.empty" using assms(1,2) by (simp add: registry_sound_def)
  ultimately show ?thesis
    using assms(3,4) by (auto simp: count_entries [OF assms(1)] fold_bump key_total_def Let_def split: if_splits)
qed

lemma gathered_value:
  assumes "gather_sound families c" and "(name, labels) \<in> set counter_labels" and "distinct labels"
    and "length ls = length labels" and "\<forall>v. c (name, ls) = Some v \<longrightarrow> v \<le> 2 ^ 53"
  shows "((\<exists>m\<in>set (family_metrics families name). shows_child labels ls m) \<longleftrightarrow> c (name, ls) \<noteq> None) \<and>
    (\<forall>m\<in>set (family_metrics families name). shows_child labels ls m \<longrightarrow> Some (counter_json m) = map_option json_nat (c (name, ls)))"
proof -
  have "Some (counter_json m) = map_option json_nat (c (name, ls)) \<and> c (name, ls) \<noteq> None"
    if "m \<in> set (family_metrics families name)" "shows_child labels ls m" for m
    using gathered_counter [OF assms(1-3) that(1)] shows_child_inject [OF that(2) _ assms(3,4)] assms(5) by force
  then show ?thesis using gathered_child [OF assms(1,2,4)] by blast
qed

text \<open>A child is shown by the metric with its label values.\<close>

lemma label_values_2:
  assumes "gather_sound families c" and "(name, [l1, l2]) \<in> set counter_labels" and "l1 \<noteq> l2"
    and "m \<in> set (family_metrics families name)"
  shows "label_value m l1 = Some a \<and> label_value m l2 = Some b \<longleftrightarrow> shows_child [l1, l2] [a, b] m"
proof -
  obtain ls where ls: "length ls = length [l1, l2]" "shows_child [l1, l2] ls m"
    using gathered_counter [OF assms(1,2) _ assms(4)] assms(3) by fastforce
  then obtain x y where "ls = [x, y]" by (auto simp: length_Suc_conv)
  with ls(2) assms(3) show ?thesis
    using shows_child_label_value [OF ls(2)] shows_child_inject [OF _ ls(2), of "[a, b]"] by auto
qed

lemma label_values_3:
  assumes "gather_sound families c" and "(name, [l1, l2, l3]) \<in> set counter_labels" and "distinct [l1, l2, l3]"
    and "m \<in> set (family_metrics families name)"
  shows "label_value m l1 = Some a \<and> label_value m l2 = Some b \<and> label_value m l3 = Some d \<longleftrightarrow>
    shows_child [l1, l2, l3] [a, b, d] m"
proof -
  obtain ls where ls: "length ls = length [l1, l2, l3]" "shows_child [l1, l2, l3] ls m"
    using gathered_counter [OF assms] by fastforce
  then obtain x y z where "ls = [x, y, z]" by (auto simp: length_Suc_conv)
  with ls(2) assms(3) show ?thesis
    using shows_child_label_value [OF ls(2)] shows_child_inject [OF _ ls(2), of "[a, b, d]"] by auto
qed

lemma step_2_counters:
  assumes "gather_sound families c" and "(name, [l1, l2]) \<in> set counter_labels" and "l1 \<noteq> l2"
    and "\<forall>v. c (name, [a, b]) = Some v \<longrightarrow> v \<le> 2 ^ 53"
  shows "json_path [a, b] (counter_map_2 families name l1 l2) = map_option json_nat (c (name, [a, b]))"
proof -
  let ?ms = "family_metrics families name"
  have shown: "label_value m l1 = Some a \<and> label_value m l2 = Some b \<longleftrightarrow> shows_child [l1, l2] [a, b] m" if "m \<in> set ?ms" for m
    using label_values_2 [OF assms(1-3) that] .
  from gathered_value [OF assms(1,2) _ _ assms(4)] assms(3)
  have found: "(\<exists>m\<in>set ?ms. shows_child [l1, l2] [a, b] m) \<longleftrightarrow> c (name, [a, b]) \<noteq> None"
    and all: "\<forall>m\<in>set ?ms. shows_child [l1, l2] [a, b] m \<longrightarrow> Some (counter_json m) = map_option json_nat (c (name, [a, b]))"
    by auto
  then have "\<forall>m\<in>set ?ms. label_value m l1 = Some a \<longrightarrow> label_value m l2 = Some b \<longrightarrow>
      counter_json m = the (map_option json_nat (c (name, [a, b])))"
    using shown by (metis option.sel)
  from fold_step_2_read [OF child_objects_Nil this] show ?thesis
    using shown found by (auto simp: counter_map_2_def json_path_2 simp del: json_path.simps)
qed

lemma step_3_counters:
  assumes "gather_sound families c" and "(name, [l1, l2, l3]) \<in> set counter_labels" and "distinct [l1, l2, l3]"
    and "\<forall>v. c (name, [a, b, d]) = Some v \<longrightarrow> v \<le> 2 ^ 53"
  shows "json_path [a, b, d] (counter_map_3 families name l1 l2 l3) = map_option json_nat (c (name, [a, b, d]))"
proof -
  let ?ms = "family_metrics families name"
  have shown: "label_value m l1 = Some a \<and> label_value m l2 = Some b \<and> label_value m l3 = Some d \<longleftrightarrow>
      shows_child [l1, l2, l3] [a, b, d] m" if "m \<in> set ?ms" for m
    using label_values_3 [OF assms(1-3) that] .
  from gathered_value [OF assms(1,2) _ _ assms(4)] assms(3)
  have found: "(\<exists>m\<in>set ?ms. shows_child [l1, l2, l3] [a, b, d] m) \<longleftrightarrow> c (name, [a, b, d]) \<noteq> None"
    and all: "\<forall>m\<in>set ?ms. shows_child [l1, l2, l3] [a, b, d] m \<longrightarrow>
      Some (counter_json m) = map_option json_nat (c (name, [a, b, d]))"
    by auto
  then have "\<forall>m\<in>set ?ms. label_value m l1 = Some a \<longrightarrow> label_value m l2 = Some b \<longrightarrow> label_value m l3 = Some d \<longrightarrow>
      counter_json m = the (map_option json_nat (c (name, [a, b, d])))"
    using shown by (metis option.sel)
  from fold_step_3_read [OF nested_objects_Nil this] show ?thesis
    using shown found by (auto simp: counter_map_3_def json_path_3 simp del: json_path.simps)
qed

text \<open>The snapshot of the counters after the events of a log.\<close>

lemma snapshot_counters:
  assumes "registry_sound M count" and "metrics_new M = Inr r0" and "recorded entries = es"
  shows "\<forall>n. key_total (''gateway_requests_total'', [a, b]) es = Some n \<longrightarrow> n \<le> 2 ^ 53 \<Longrightarrow>
      json_path [''counters'', ''requests_total'', a, b] (metrics_snapshot M (fold (apply_entry M) entries r0)) =
        map_option json_nat (key_total (''gateway_requests_total'', [a, b]) es)"
    and "\<forall>n. key_total (''gateway_policy_decisions_total'', [a, b, d]) es = Some n \<longrightarrow> n \<le> 2 ^ 53 \<Longrightarrow>
      json_path [''counters'', ''policy_decisions_total'', a, b, d] (metrics_snapshot M (fold (apply_entry M) entries r0)) =
        map_option json_nat (key_total (''gateway_policy_decisions_total'', [a, b, d]) es)"
    and "\<forall>n. key_total (''gateway_llm_tokens_total'', [a, b]) es = Some n \<longrightarrow> n \<le> 2 ^ 53 \<Longrightarrow>
      json_path [''counters'', ''llm_tokens_total'', a, b] (metrics_snapshot M (fold (apply_entry M) entries r0)) =
        map_option json_nat (key_total (''gateway_llm_tokens_total'', [a, b]) es)"
    and "\<forall>n. key_total (''gateway_proxy_errors_total'', [a, b]) es = Some n \<longrightarrow> n \<le> 2 ^ 53 \<Longrightarrow>
      json_path [''counters'', ''proxy_errors_total'', a, b] (metrics_snapshot M (fold (apply_entry M) entries r0)) =
        map_option json_nat (key_total (''gateway_proxy_errors_total'', [a, b]) es)"
proof -
  let ?r = "fold (apply_entry M) entries r0"
  have gather: "gather_sound (rg_gather M ?r) (count ?r)" using assms(1) by (simp add: registry_sound_def)
  note cell = recorded_cell [OF assms]
  have rows: "(''gateway_requests_total'', [''direction'', ''decision'']) \<in> set counter_labels"
    "(''gateway_policy_decisions_total'', [''direction'', ''decision'', ''source'']) \<in> set counter_labels"
    "(''gateway_llm_tokens_total'', [''model'', ''kind'']) \<in> set counter_labels"
    "(''gateway_proxy_errors_total'', [''stage'', ''kind'']) \<in> set counter_labels"
    by (simp_all add: counter_labels_def metric_table_def)
  show "json_path [''counters'', ''requests_total'', a, b] (metrics_snapshot M ?r) =
      map_option json_nat (key_total (''gateway_requests_total'', [a, b]) es)"
    if "\<forall>n. key_total (''gateway_requests_total'', [a, b]) es = Some n \<longrightarrow> n \<le> 2 ^ 53"
    using step_2_counters [OF gather rows(1), of a b] cell [OF that] that by (simp add: metrics_snapshot_def Let_def)
  show "json_path [''counters'', ''policy_decisions_total'', a, b, d] (metrics_snapshot M ?r) =
      map_option json_nat (key_total (''gateway_policy_decisions_total'', [a, b, d]) es)"
    if "\<forall>n. key_total (''gateway_policy_decisions_total'', [a, b, d]) es = Some n \<longrightarrow> n \<le> 2 ^ 53"
    using step_3_counters [OF gather rows(2), of a b d] cell [OF that] that by (simp add: metrics_snapshot_def Let_def)
  show "json_path [''counters'', ''llm_tokens_total'', a, b] (metrics_snapshot M ?r) =
      map_option json_nat (key_total (''gateway_llm_tokens_total'', [a, b]) es)"
    if "\<forall>n. key_total (''gateway_llm_tokens_total'', [a, b]) es = Some n \<longrightarrow> n \<le> 2 ^ 53"
    using step_2_counters [OF gather rows(3), of a b] cell [OF that] that by (simp add: metrics_snapshot_def Let_def)
  show "json_path [''counters'', ''proxy_errors_total'', a, b] (metrics_snapshot M ?r) =
      map_option json_nat (key_total (''gateway_proxy_errors_total'', [a, b]) es)"
    if "\<forall>n. key_total (''gateway_proxy_errors_total'', [a, b]) es = Some n \<longrightarrow> n \<le> 2 ^ 53"
    using step_2_counters [OF gather rows(4), of a b] cell [OF that] that by (simp add: metrics_snapshot_def Let_def)
qed

end
