(* ===== verification/App_Claims.thy ===== *)
theory App_Claims
  imports Gw_Metrics Gw_Demo
begin

text \<open>
  The properties of the gateway as a process: the runtime in force, reloading, the administration
  interface and the benchmark baselines.
\<close>

section \<open>The runtime\<close>

text \<open>
  (C25) In every state the process can reach from its start, through any reloads of any
  configuration files and any work on the stores, the runtime in force has the tokenizer that its
  rules need: processing a text never fails because tokenization is required but disabled.
\<close>

theorem tokenizer_never_missing:
  assumes "app_start G st0" and "(app_step G)\<^sup>*\<^sup>* st0 st"
  shows "process_text G (st_runtime st) rng who src pointer dir \<noteq> Err (TokenizationErr RequiredButDisabled)"
  using runtimes.reachable_invariant [OF assms] by (auto simp: runtime_built_def process_text_has_tokenizer)

definition demo_io :: config_io where
  "demo_io = \<lparr>io_read = (\<lambda>_. Inr []), io_yaml = (\<lambda>_. Inr demo_config), io_toml = (\<lambda>_. Inl []), io_extension = (\<lambda>_. Some ''yml'')\<rparr>"

definition demo_env :: app_env where
  "demo_env = \<lparr>av_config = demo_io, av_url_parse = Some, av_env = (\<lambda>_. None), av_presidio_build = None, av_opa_build = None,
     av_client_build = None, av_audit_open = (\<lambda>_. Inr []), av_metrics_error = None, av_review_file = (\<lambda>_. (None, True, [])),
     av_opa_health = (\<lambda>_. Inl []), av_presidio_health = (\<lambda>_. Inl []), av_opa_error_text = (\<lambda>_. []),
     av_presidio_error_text = (\<lambda>_. [])\<rparr>"

lemma demo_starts: "\<exists>st. build_state demo_env demo_gw count_events 100 ''gw.yml'' = Ok st"
proof -
  have "(case build_state demo_env demo_gw count_events 100 ''gw.yml'' of Ok st \<Rightarrow> True | _ \<Rightarrow> False)" by code_simp
  then show ?thesis by (auto split: rres.splits)
qed

theorem tokenizer_never_missing_witness:
  "\<exists>st. app_start demo_gw st \<and>
     process_text demo_gw (st_runtime st) (\<lambda>_. []) bob ''x a@b y'' ''/'' Request \<noteq> Err (TokenizationErr RequiredButDisabled)"
proof -
  from demo_starts obtain st where "build_state demo_env demo_gw count_events 100 ''gw.yml'' = Ok st" by blast
  then have "app_start demo_gw st" unfolding app_start_def by blast
  with tokenizer_never_missing [OF this rtranclp.rtrancl_refl] show ?thesis by blast
qed

text \<open>
  (C26) A reload that fails leaves the old runtime in force, and with it the whole state, with one
  exception: when only the audit file cannot be opened, the audit buffer already has the capacity
  of the rejected configuration and has lost the oldest records beyond it.
\<close>

theorem failed_reload_keeps_runtime:
  assumes "reload V G st = (res, st')" and "\<nexists>u. res = Ok u"
  shows "st_runtime st' = st_runtime st \<and>
    (st' = st \<or> (\<exists>e config. res = Err (AuditInitErr e) \<and>
       app_config_load (av_config V) (st_config_path st) = Inr config \<and>
       st_stores st' = (st_stores st)\<lparr>gs_audit := (gs_audit (st_stores st))
         \<lparr>sk_store := audit_set_capacity (au_buffer_capacity (cfg_audit config)) (sk_store (gs_audit (st_stores st)))\<rparr>\<rparr>))"
  using reload_failed [OF assms] by blast

definition demo_app :: app_state where
  "demo_app = \<lparr>st_config_path = ''gw.yml'', st_runtime = demo_runtime, st_stores = demo_state, st_retired = []\<rparr>"

theorem failed_reload_keeps_runtime_witness:
  "\<exists>e st'. reload (demo_env\<lparr>av_client_build := Some ''tls''\<rparr>) demo_gw demo_app = (Err e, st') \<and> st_runtime st' = demo_runtime"
proof -
  let ?V = "demo_env\<lparr>av_client_build := Some ''tls''\<rparr>"
  have "(case fst (reload ?V demo_gw demo_app) of Err e \<Rightarrow> True | _ \<Rightarrow> False)" by code_simp
  then obtain e st' where r: "reload ?V demo_gw demo_app = (Err e, st')"
    by (cases "reload ?V demo_gw demo_app") (auto split: rres.splits)
  from failed_reload_keeps_runtime [OF r] r show ?thesis by (simp add: demo_app_def)
qed

section \<open>The administration interface\<close>

definition with_sink :: "audit_sink \<Rightarrow> app_state \<Rightarrow> app_state" where
  "with_sink sink st = st\<lparr>st_stores := (st_stores st)\<lparr>gs_audit := sink\<rparr>\<rparr>"

definition refused :: "'s \<Rightarrow> http_response option \<times> 's \<Rightarrow> bool" where
  "refused st p \<longleftrightarrow> snd p = st \<and> (\<exists>r. fst p = Some r \<and> hr_status r \<in> {401, 403})"

definition not_admin :: "gw_api \<Rightarrow> app_state \<Rightarrow> header_map \<Rightarrow> bool" where
  "not_admin G st headers \<longleftrightarrow>
     (case authenticate (ga_http G) (sc_hash (ga_scan G)) (run_auth (st_runtime st)) headers of
        Inr who \<Rightarrow> pr_role who \<noteq> ''admin'' | Inl _ \<Rightarrow> True)"

lemma admin_only_refuses: "not_admin G st headers \<Longrightarrow> refused st (admin_only G A st headers k)"
  by (auto simp: not_admin_def refused_def admin_only_def gateway_error_def Let_def split: sum.splits)

text \<open>
  (C27) Without a principal of the role \<open>admin\<close> none of the eight handlers of the administration interface that
  touch the gateway (status, configuration summary, audits, reviews and their resolution, detokenization, reload,
  promotion of a baseline) does anything: each answers 401 or 403 and leaves the state, and the baseline file, as they
  were. The page at \<^verbatim>\<open>/admin\<close> is static and is served to anyone.
\<close>

theorem admin_needs_admin_role:
  assumes "not_admin G st headers"
  shows "refused st (admin_reload V G A headers st) \<and> refused st (admin_detokenize G A headers token st) \<and>
    refused st (admin_reviews G A K headers query st) \<and>
    refused st (admin_reviews_resolve G A E add_secs io K headers payload st) \<and>
    refused st (admin_audits L G A headers audit_q st) \<and> refused st (admin_config_summary V G A headers st) \<and>
    refused st (admin_status M surface B surface_files V G A K headers registry st) \<and>
    refused files (admin_benchmarks_promote B G A headers st files)"
proof -
  have "refused files (admin_benchmarks_promote B G A headers st files)"
    using assms by (auto simp: not_admin_def refused_def admin_benchmarks_promote_def gateway_error_def Let_def split: sum.splits)
  then show ?thesis
    unfolding admin_reload_def admin_detokenize_def admin_reviews_def admin_reviews_resolve_def admin_audits_def
      admin_config_summary_def admin_status_def by (intro conjI admin_only_refuses assms)
qed

definition demo_admin :: admin_api where
  "demo_admin = \<lparr>aj_ticket = (\<lambda>_. JNull), aj_record = (\<lambda>_. JNull), aj_app_error = (\<lambda>_. []), aj_token_error = (\<lambda>_. []),
     aj_resolve_error = (\<lambda>_. []), aj_iter = (\<lambda>_. []), aj_read_error = None\<rparr>"

theorem admin_needs_admin_role_witness:
  "refused demo_app (admin_reload demo_env demo_gw demo_admin (rq_headers (demo_request [])) demo_app) \<and>
   refused demo_app (admin_reload demo_env demo_gw demo_admin [] demo_app)"
proof -
  have "not_admin demo_gw demo_app (rq_headers (demo_request []))" "not_admin demo_gw demo_app []" by code_simp+
  then show ?thesis by (intro conjI admin_needs_admin_role [THEN conjunct1])
qed

text \<open>
  (C28) The configuration shown to an administrator has no secrets in it. Take any two states of the gateway, and
  environments, whose configurations agree but for the digests of the principals' secrets, which have the same path and
  upstream, and where the same variables are set and the same components are there: the tokenization keys, the
  authenticators with their digests, the values of the variables, the stores and all else may differ, and the
  summaries are equal.
\<close>

theorem config_summary_has_no_secrets:
  assumes "without_secrets (run_config (st_runtime st')) = without_secrets (run_config (st_runtime st))"
    and "st_config_path st' = st_config_path st"
    and "run_upstream_base_url (st_runtime st') = run_upstream_base_url (st_runtime st)"
    and "run_tokenizer (st_runtime st') = None \<longleftrightarrow> run_tokenizer (st_runtime st) = None"
    and "run_opa (st_runtime st') = None \<longleftrightarrow> run_opa (st_runtime st) = None"
    and "\<forall>n. av_env V' n = None \<longleftrightarrow> av_env V n = None"
  shows "build_admin_config_summary V' A st' = build_admin_config_summary V A st"
proof -
  let ?blank = "\<lambda>s. s\<lparr>st_runtime := (st_runtime s)\<lparr>run_config := without_secrets (run_config (st_runtime s))\<rparr>\<rparr>"
  have "build_admin_config_summary V' A st' = build_admin_config_summary V' A (?blank st')"
    by (rule config_summary_without_secrets [symmetric])
  also have "\<dots> = build_admin_config_summary V A (?blank st)"
  proof -
    have "opa_summary (st_runtime (?blank st')) = opa_summary (st_runtime (?blank st))"
      using assms(5) by (simp add: opa_summary_def fun_eq_iff)
    with assms(1-4,6) show ?thesis
      by (simp add: build_admin_config_summary_def Let_def split: option.split del: not_None_eq)
  qed
  also have "\<dots> = build_admin_config_summary V A st" by (rule config_summary_without_secrets)
  finally show ?thesis .
qed

definition keyed :: "string \<Rightarrow> string \<Rightarrow> app_state" where
  "keyed key digest =
     demo_app\<lparr>st_runtime := demo_runtime
       \<lparr>run_auth := \<lparr>an_header_name = ''authorization'', an_principal_by_hash = [(digest, bob)]\<rparr>,
        run_tokenizer := Some \<lparr>tz_cipher = key, tz_token_prefix = ''CGT1'', tz_key_env = ''KEY''\<rparr>\<rparr>\<rparr>"

theorem config_summary_has_no_secrets_witness:
  "build_admin_config_summary (demo_env\<lparr>av_env := (\<lambda>_. Some ''one'')\<rparr>) demo_admin (keyed ''key one'' ''digest one'') =
   build_admin_config_summary (demo_env\<lparr>av_env := (\<lambda>_. Some ''two'')\<rparr>) demo_admin (keyed ''key two'' ''digest two'')"
  by (rule config_summary_has_no_secrets) (simp_all add: keyed_def)

text \<open>
  (C40) The audit view over both sources. The records it can show are those that pass the filters among the
  buffer and the last records of the file, as many as the limit says; the file is cut before it is filtered. Of these
  the view shows the newest, each once, newest first, up to the limit asked for and never more than 500: one that is
  left out means that the page is full and that every record on it is at least as new.
\<close>

theorem audit_view_newest:
  assumes "parse_audit_source (qa_source q) = Both" and "select_audits L A q st = shown"
    and "limit = query_limit (qa_limit q)"
    and "can_show = {r \<in> set (audit_snapshot (sk_store (gs_audit (st_stores st)))) \<union> set (audit_file L A st limit).
      audit_matches q r}"
  shows "distinct shown \<and> sorted (map (\<lambda>r. - ar_ts r) shown) \<and> length shown \<le> limit \<and> limit \<le> 500 \<and>
    set shown \<subseteq> can_show \<and>
    (\<forall>r \<in> can_show - set shown. length shown = limit \<and> (\<forall>r' \<in> set shown. ar_ts r \<le> ar_ts r')) \<and>
    (aj_read_error A = None \<longrightarrow>
      audit_file L A st limit = last_n limit (List.map_filter (ln_parse L) (sk_file (gs_audit (st_stores st)))))"
proof -
  let ?all = "filter (audit_matches q) (audit_records L A st Both limit)"
  have shown: "shown = take limit ?all" using assms(1-3) by (simp add: select_audits_def Let_def)
  have all: "set ?all = can_show" "distinct ?all" "sorted (map (\<lambda>r. - ar_ts r) ?all)"
    using audit_records_Both [of L A st limit] by (auto simp: assms(4) intro: sorted_filter)
  have older: "length shown = limit \<and> (\<forall>r' \<in> set shown. ar_ts r \<le> ar_ts r')" if "r \<in> can_show - set shown" for r
  proof -
    from that all(1) have rest: "r \<in> set (drop limit ?all)" unfolding shown
      by (metis DiffD1 DiffD2 Un_iff append_take_drop_id set_append)
    then have "length shown = limit" by (cases "limit < length ?all") (simp_all add: shown)
    moreover have "sorted_wrt (\<lambda>a b. - ar_ts a \<le> - ar_ts b) (take limit ?all @ drop limit ?all)"
      using all(3) by (simp add: sorted_map)
    then have "\<forall>r' \<in> set shown. - ar_ts r' \<le> - ar_ts r" using rest unfolding shown sorted_wrt_append by blast
    ultimately show ?thesis by simp
  qed
  have "sorted (map (\<lambda>r. - ar_ts r) shown)"
    unfolding shown take_map [symmetric] by (intro sorted_wrt_take all(3))
  moreover have "distinct shown" "set shown \<subseteq> can_show" "length shown \<le> limit"
    using all by (auto simp: shown distinct_take dest: in_set_takeD)
  moreover have "limit \<le> 500" by (simp add: assms(3) query_limit_def)
  moreover have "audit_file L A st limit = last_n limit (List.map_filter (ln_parse L) (sk_file (gs_audit (st_stores st))))"
    if "aj_read_error A = None"
    using that by (simp add: audit_file_def read_recent_audit_file_def Let_def last_n_def)
  ultimately show ?thesis using older by blast
qed

definition both_query :: audit_query where
  "both_query = \<lparr>qa_limit = None, qa_source = Some ''both'', qa_principal = Some ''bob'', qa_decision = None, qa_label = None,
     qa_direction = None, qa_session_id = None, qa_policy_source = None, qa_request_id = None, qa_error_stage = None,
     qa_error_kind = None\<rparr>"

definition bob_record :: "int \<Rightarrow> audit_record" where
  "bob_record now = build_audit_record now bob Request Allow allow_outcome
     \<lparr>ax_request_id = ''r'', ax_path_and_query = ''/v1'', ax_session_id = None, ax_session_escalated = False\<rparr> None"

text \<open>One record in the buffer and on file, an older one on file only, and one of another principal.\<close>

definition audited_app :: app_state where
  "audited_app = with_sink \<lparr>sk_store = audit_push (bob_record 2) (audit_store_new 10), sk_channel = [],
     sk_file = map (\<lambda>r. the (ln_print count_lines r)) [bob_record 1, bob_record 2, (bob_record 3)\<lparr>ar_principal := ''eve''\<rparr>]\<rparr> demo_app"

lemma audited_app_sources:
  "audit_snapshot (sk_store (gs_audit (st_stores audited_app))) = [bob_record 2]"
  "audit_file count_lines demo_admin audited_app limit =
     last_n limit [bob_record 1, bob_record 2, (bob_record 3)\<lparr>ar_principal := ''eve''\<rparr>]"
  by (simp_all add: audited_app_def with_sink_def audit_push_def audit_store_new_def audit_set_capacity_def audit_store_default_def
      pop_to_capacity.simps audit_snapshot_def audit_file_def read_recent_audit_file_def demo_admin_def count_lines_def
      List.map_filter_def last_n_def Let_def)

theorem audit_view_newest_witness:
  "set (select_audits count_lines demo_admin both_query audited_app) = {bob_record 1, bob_record 2} \<and>
   length (select_audits count_lines demo_admin both_query audited_app) = 2"
proof -
  let ?shown = "select_audits count_lines demo_admin both_query audited_app"
  have both: "parse_audit_source (qa_source both_query) = Both" by (simp add: both_query_def parse_audit_source_def)
  have limit: "50 = query_limit (qa_limit both_query)" by (simp add: both_query_def query_limit_def)
  have two: "bob_record 1 \<noteq> bob_record 2" by (simp add: bob_record_def build_audit_record_def)
  have can: "{bob_record 1, bob_record 2} = {r \<in> set (audit_snapshot (sk_store (gs_audit (st_stores audited_app)))) \<union>
      set (audit_file count_lines demo_admin audited_app 50). audit_matches both_query r}"
    by (auto simp: audited_app_sources last_n_def audit_matches_def wanted_def both_query_def bob_record_def
        build_audit_record_def bob_def)
  note view = audit_view_newest [OF both refl limit can]
  then have "length ?shown \<le> card {bob_record 1, bob_record 2}"
    by (metis card_mono distinct_card finite.emptyI finite.insertI)
  also have "\<dots> = 2" using two by simp
  finally have "length ?shown \<noteq> 50" by simp
  with view have shown: "set ?shown = {bob_record 1, bob_record 2}" by blast
  then have "length ?shown = 2" using view two by (metis card_2_iff distinct_card)
  with shown show ?thesis ..
qed

text \<open>Because the file is cut first, a filter can miss a record although the page has room.\<close>

lemma audit_filter_after_cut:
  "select_audits count_lines demo_admin (both_query\<lparr>qa_limit := Some 1, qa_source := Some ''file''\<rparr>) audited_app = []"
  by (simp add: select_audits_def audit_records_def parse_audit_source_def both_query_def query_limit_def audited_app_sources
      last_n_def audit_matches_def wanted_def)

section \<open>Benchmark baselines\<close>

text \<open>
  Promoting the current summary to baseline makes the comparison empty: read back with the
  same configuration, every scenario is compared with itself, so all are unchanged and none is a
  regression, an improvement or new, as long as no two scenarios share their name. A promotion that
  fails writes nothing.
\<close>

theorem promoted_baseline_is_unchanged:
  assumes "promote_benchmark_baseline B config files = (res, files')"
    and "benchmark_summary_load B files (bc_summary_json_path config) = Inr summary"
    and "distinct (map bmbn_scenario (bmbs_scenarios summary))"
  shows "(case res of
      Inl _ \<Rightarrow> files' = files
    | Inr _ \<Rightarrow> (\<exists>bl. bmsu_baseline (load_benchmark_surface B files' config) = Some bl \<and>
        bmsu_loaded (load_benchmark_surface B files' config) \<and> bmsb_loaded bl \<and>
        bmsb_regressions bl = 0 \<and> bmsb_improvements bl = 0 \<and> bmsb_missing_in_baseline bl = 0 \<and>
        bmsb_unchanged bl = length (bmbs_scenarios summary)))"
proof (cases res)
  case (Inl e)
  with assms(1) promote_benchmark_baseline_Inl show ?thesis by auto
next
  case (Inr p)
  from assms(1) [unfolded Inr] obtain raw summary' where p: "bc_enabled config"
    "files (bc_summary_json_path config) = Inr raw" "bi_summary B raw = Inr summary'"
    "non_empty_path (bc_baseline_summary_json_path config) = Some (bmbp_baseline_path p)"
    "files' = files(bmbp_baseline_path p := Inr raw)"
    by (rule promote_benchmark_baseline_Inr) (rule that)
  from p assms(2) have load: "benchmark_summary_load B files' (bc_summary_json_path config) = Inr summary"
    "benchmark_summary_load B files' (bmbp_baseline_path p) = Inr summary"
    by (simp_all add: benchmark_summary_load_def)
  let ?bl = "load_benchmark_baseline B files' (bc_baseline_summary_json_path config) summary"
  have all: "bmsb_scenarios ?bl = map (\<lambda>s. compare_scenarios s s) (bmbs_scenarios summary)"
    using load_benchmark_baseline_rows [OF p(4) load(2), of summary] map_of_self [OF assms(3)] by (simp add: Let_def)
  have rows: "rows_with c (bmsb_scenarios ?bl) = (if c = ''unchanged'' then length (bmbs_scenarios summary) else 0)" for c
    by (auto simp: all rows_with_def filter_map comp_def compare_self)
  have "bmsu_baseline (load_benchmark_surface B files' config) = Some ?bl" "bmsu_loaded (load_benchmark_surface B files' config)"
    using load(1) p(1) by (simp_all add: load_benchmark_surface_def Let_def)
  with load_benchmark_baseline_rows [OF p(4) load(2), of summary] rows Inr show ?thesis by (simp add: Let_def)
qed

definition demo_bench :: benchmark_config where
  "demo_bench = \<lparr>bc_enabled = True, bc_summary_json_path = ''s.json'', bc_baseline_summary_json_path = Some ''b.json'',
     bc_gate_report_json_path = None\<rparr>"

definition demo_scenario :: benchmark_scenario_summary where
  "demo_scenario =
     \<lparr>bmbn_scenario = ''chat'', bmbn_description = [], bmbn_generated_at = [], bmbn_requests = 10, bmbn_concurrency = 1,
      bmbn_throughput_rps = 100, bmbn_latency_ms = \<lparr>bmbl_min = 1, bmbl_p50 = 2, bmbl_p95 = 4, bmbl_max = 5, bmbl_avg = 2\<rparr>,
      bmbn_payload_request_avg_ms = 1, bmbn_payload_response_avg_ms = 1, bmbn_upstream_avg_ms = 1, bmbn_request_payload_kind = ''text'',
      bmbn_decision_sources = \<lparr>bmbd_request = [], bmbd_response = []\<rparr>,
      bmbn_dependency_ready = \<lparr>bmbr_opa = True, bmbr_presidio = True\<rparr>,
      bmbn_features = \<lparr>bmbf_attachment_scanning = True, bmbf_opa = True, bmbf_presidio = True, bmbf_response_filtering = True,
        bmbf_session_correlation = True, bmbf_tokenization = True\<rparr>,
      bmbn_artifacts_root = [],
      bmbn_thresholds = \<lparr>bmbt_throughput_rps_min = 0, bmbt_avg_ms_max = 0, bmbt_p95_ms_max = 0, bmbt_payload_request_avg_ms_max = 0,
        bmbt_payload_response_avg_ms_max = 0, bmbt_upstream_avg_ms_max = 0\<rparr>,
      bmbn_ok = True, bmbn_aggregation = None\<rparr>"

definition demo_summary :: benchmark_summary where
  "demo_summary = benchmark_summary_default\<lparr>bmbs_scenarios := [demo_scenario]\<rparr>"

definition demo_bench_api :: bench_api where
  "demo_bench_api = \<lparr>bi_summary = (\<lambda>_. Inr demo_summary), bi_gate = (\<lambda>_. Inl []), bi_create_parent = (\<lambda>_. None),
     bi_write = (\<lambda>_. None)\<rparr>"

theorem promoted_baseline_is_unchanged_witness:
  "\<exists>p files'. promote_benchmark_baseline demo_bench_api demo_bench (\<lambda>_. Inr []) = (Inr p, files') \<and>
     (\<exists>bl. bmsu_baseline (load_benchmark_surface demo_bench_api files' demo_bench) = Some bl \<and> bmsb_loaded bl \<and>
       bmsb_unchanged bl = 1 \<and> bmsb_regressions bl = 0)"
proof -
  let ?f = "\<lambda>_. Inr [] :: string + string"
  obtain p files' where pr: "promote_benchmark_baseline demo_bench_api demo_bench ?f = (Inr p, files')"
    by (simp add: promote_benchmark_baseline_def demo_bench_def demo_bench_api_def non_empty_path_def)
  have "benchmark_summary_load demo_bench_api ?f (bc_summary_json_path demo_bench) = Inr demo_summary"
    by (simp add: benchmark_summary_load_def demo_bench_api_def)
  moreover have "distinct (map bmbn_scenario (bmbs_scenarios demo_summary))" "length (bmbs_scenarios demo_summary) = 1"
    by (simp_all add: demo_summary_def)
  ultimately show ?thesis using promoted_baseline_is_unchanged [OF pr] pr by auto
qed

end
