(* ===== verification/Gw_Serve.thy ===== *)
theory Gw_Serve
  imports Gw_Metrics "HOL-Library.Sublist"
begin

text \<open>
  The gateway as one transition system: a step is a request to any endpoint of the router of
  \<^verbatim>\<open>src/app.rs\<close>, a turn of the audit writer, or the end of a timer. The invariants of the runtime, the review store, the sessions,
  the audit buffer and the counters hold together in every reachable state.
\<close>

section \<open>Counters and audit records\<close>

text \<open>
  What the metrics say of the audit trail: a decision, or a failure before the request was forwarded, of a kind
  that is audited. A record says the same.
\<close>

datatype audit_count = CountedDecision string string string | CountedFailure string string

definition audited_kinds :: "string list" where
  "audited_kinds = [''attachment'', ''presidio'', ''opa'', ''tokenization'', ''detector'', ''review_store'']"

fun audit_counts :: "metric_event list \<Rightarrow> audit_count list" where
  "audit_counts [] = []"
| "audit_counts (MPolicyDecision direction decision src # es) = CountedDecision direction decision src # audit_counts es"
| "audit_counts (MProxyError stage kind # es) =
     (if kind \<in> set audited_kinds then [CountedFailure stage kind] else []) @ audit_counts es"
| "audit_counts (_ # es) = audit_counts es"

definition record_count :: "audit_record \<Rightarrow> audit_count" where
  "record_count r =
     (case ar_error_stage r of
        None \<Rightarrow> CountedDecision (ar_direction r) (ar_decision r) (ar_policy_source r)
      | Some stage \<Rightarrow> CountedFailure stage (case ar_error_kind r of Some kind \<Rightarrow> kind | None \<Rightarrow> []))"

definition record_counts :: "audit_record list \<Rightarrow> audit_count list" where
  "record_counts rs = map record_count rs"

lemma audited_kind: "should_emit_request_pre_upstream_error_audit err \<longleftrightarrow> proxy_error_kind err \<in> set audited_kinds"
  by (cases err) (simp_all add: audited_kinds_def)

definition counted :: "gw_state \<Rightarrow> audit_count list" where
  "counted s = audit_counts (gs_metrics s)"

text \<open>
  An operation emits some audit records, counts exactly them, only appends metric events, and
  keeps the keys of the sessions apart.
\<close>

definition evolves :: "gw_state \<Rightarrow> gw_state \<Rightarrow> bool" where
  "evolves s t \<longleftrightarrow> (\<exists>rs. gs_audit t = fold audit_emit rs (gs_audit s) \<and> counted t = counted s @ record_counts rs) \<and>
     prefix (gs_metrics s) (gs_metrics t) \<and> (hm_wf (gs_sessions s) \<longrightarrow> hm_wf (gs_sessions t))"

lemma record_counts_append [simp]: "record_counts (xs @ ys) = record_counts xs @ record_counts ys"
  by (simp add: record_counts_def)

lemma record_counts_Nil [simp]: "record_counts [] = []"
  by (simp add: record_counts_def)

lemma audit_counts_append [simp]: "audit_counts (xs @ ys) = audit_counts xs @ audit_counts ys"
  by (induction xs rule: audit_counts.induct) auto

lemma evolvesI:
  assumes "gs_audit t = fold audit_emit rs (gs_audit s)" and "counted t = counted s @ record_counts rs"
    and "prefix (gs_metrics s) (gs_metrics t)" and "hm_wf (gs_sessions s) \<Longrightarrow> hm_wf (gs_sessions t)"
  shows "evolves s t"
  using assms by (auto simp: evolves_def)

lemma evolves_refl: "evolves s s"
  by (rule evolvesI [of _ "[]"]) simp_all

lemma evolves_trans: "evolves s t \<Longrightarrow> evolves t u \<Longrightarrow> evolves s u"
  unfolding evolves_def by (metis append.assoc comp_apply record_counts_append fold_append prefix_order.trans)

named_theorems trail "decisions counted and records emitted by an operation"

lemma prefix_metric [trail]:
  "prefix ms (gs_metrics s) \<Longrightarrow> prefix ms (gs_metrics (metric e s))"
  "prefix ms (gs_metrics s) \<Longrightarrow> prefix ms (gs_metrics (emit_audit r s))"
  by (simp_all add: metric_def emit_audit_def)

lemma prefix_findings [trail]:
  "prefix ms (gs_metrics s) \<Longrightarrow> prefix ms (gs_metrics (emit_metrics_for_findings dir fs s))"
  unfolding emit_metrics_for_findings_def by (induction fs arbitrary: s) (simp_all add: prefix_metric)

lemma prefix_conditional [trail]:
  "prefix ms (gs_metrics s) \<Longrightarrow> prefix ms (gs_metrics (emit_processing_fallback_metric x s))"
  "prefix ms (gs_metrics s) \<Longrightarrow> prefix ms (gs_metrics (emit_review_override_metric x s))"
  by (simp_all add: emit_processing_fallback_metric_def emit_review_override_metric_def prefix_metric)

lemma counted_metric [trail]: "counted (metric e s) = counted s @ audit_counts [e]"
  by (simp add: counted_def metric_def)

lemma counted_emit_audit [trail]: "counted (emit_audit r s) = counted s" "gs_audit (emit_audit r s) = audit_emit r (gs_audit s)"
  by (simp_all add: counted_def emit_audit_def)

lemma trail_findings [trail]: "counted (emit_metrics_for_findings dir fs s) = counted s"
  unfolding emit_metrics_for_findings_def by (induction fs arbitrary: s) (simp_all add: trail)

lemma trail_fallback [trail]: "counted (emit_processing_fallback_metric x s) = counted s"
  by (simp add: emit_processing_fallback_metric_def trail)

lemma trail_override [trail]: "counted (emit_review_override_metric x s) = counted s"
  by (simp add: emit_review_override_metric_def trail)

lemma trail_stores [trail]:
  "counted (s\<lparr>gs_sessions := a\<rparr>) = counted s" "counted (s\<lparr>gs_reviews := b\<rparr>) = counted s"
  "counted (s\<lparr>gs_sent := c\<rparr>) = counted s" "counted (s\<lparr>gs_audit := d\<rparr>) = counted s"
  by (simp_all add: counted_def)

lemma record_count_built [trail]:
  "record_counts [build_audit_record now who dir decision outcome ctx st] =
     [CountedDecision (direction_name dir) (action_name decision) (po_source outcome)]"
  "record_counts [build_request_pre_upstream_error_audit f now who rid path sid stage kind err] = [CountedFailure stage kind]"
  by (simp_all add: record_counts_def record_count_def build_audit_record_def build_request_pre_upstream_error_audit_def)

text \<open>An operation that emits nothing, and one that emits a single record.\<close>

lemma evolves_silent:
  "gs_audit t = gs_audit s \<Longrightarrow> counted t = counted s \<Longrightarrow> prefix (gs_metrics s) (gs_metrics t) \<Longrightarrow> (hm_wf (gs_sessions s) \<Longrightarrow> hm_wf (gs_sessions t)) \<Longrightarrow> evolves s t"
  by (rule evolvesI [of _ "[]"]) simp_all

lemma evolves_record:
  "gs_audit t = audit_emit r (gs_audit s) \<Longrightarrow> counted t = counted s @ record_counts [r] \<Longrightarrow>
     prefix (gs_metrics s) (gs_metrics t) \<Longrightarrow> gs_sessions t = gs_sessions s \<Longrightarrow> evolves s t"
  by (rule evolvesI [of _ "[r]"]) simp_all

lemma emit_request_decision_evolves: "evolves s (emit_request_decision K who ctx policy st s)"
  unfolding emit_request_decision_def Let_def
  by (rule evolves_record, (simp add: trail telemetry; fail)+)

lemma always_evolves_bind: "always evolves m \<Longrightarrow> (\<And>x. always evolves (f x)) \<Longrightarrow> always evolves (gbind m f)"
  by (rule always_bind) (rule evolves_trans)

lemma always_evolves_gdo: "(\<And>s. evolves s (g s)) \<Longrightarrow> always evolves (gdo g)"
  by (simp add: always_def gdo_def)

lemma always_evolves_step:
  "(\<And>s. evolves s (snd (g s))) \<Longrightarrow> always evolves (\<lambda>s. case g s of (a, s') \<Rightarrow> (h a, s'))"
  by (simp add: always_def case_prod_unfold)

lemma hm_wf_record_and_check: "hm_wf m \<Longrightarrow> hm_wf (snd (record_and_check config now sid labels m))"
  by (auto simp: record_and_check_def Let_def intro!: hm.wf_insert evict_oldest_wf hm.wf_retain)

lemma hm_wf_active_sessions: "hm_wf m \<Longrightarrow> hm_wf (snd (active_sessions config now m))"
  by (simp add: active_sessions_def Let_def hm.wf_retain)

lemma record_session_evolves: "evolves s (snd (record_session K rt sid policy s))"
proof (rule evolves_silent)
  show "hm_wf (gs_sessions (snd (record_session K rt sid policy s)))" if "hm_wf (gs_sessions s)"
    using that hm_wf_record_and_check [OF that] hm_wf_active_sessions
    by (auto simp: record_session_def Let_def telemetry split: prod.split option.split) (metis snd_conv)+
qed (auto simp: record_session_def Let_def trail telemetry split: prod.split)

lemma apply_review_override_evolves: "evolves s (snd (apply_review_override G K who headers path sha policy s))"
  by (rule evolves_silent) (auto simp: apply_review_override_def Let_def trail split: option.splits prod.splits)

lemma decide_request_evolves: "always evolves (decide_request G K rt rng who rid rq)"
  unfolding decide_request_def Let_def
  by (intro always_evolves_bind always_evolves_step always_glift evolves_refl
      record_session_evolves apply_review_override_evolves)

lemma open_review_ticket_evolves: "always evolves (open_review_ticket N K rt io fresh n policy)"
  unfolding always_def
  by (intro allI evolves_silent) (auto simp: open_review_ticket_def Let_def trail telemetry split: prod.splits sum.splits)

lemma refuse_request_evolves: "always evolves (refuse_request G N K rt io fresh who ctx sha san post policy)"
  unfolding refuse_request_def
  by (auto intro!: always_evolves_bind always_glift evolves_refl always_evolves_gdo emit_request_decision_evolves
      open_review_ticket_evolves)

lemma buffered_evolves: "always evolves (response_from_buffered_body G N K rt rng who ctx status headers ct chunks)"
  unfolding always_def
proof
  fix s
  let ?out = "response_from_buffered_body G N K rt rng who ctx status headers ct chunks s"
  show "evolves s (snd ?out)"
  proof (cases "fst ?out")
    case (Ok r)
    then show ?thesis
      by (auto simp: response_from_buffered_body_def Let_def split: option.splits if_splits prod.splits
          intro!: evolves_refl evolves_record simp: trail telemetry)
  next
    case (Err e)
    then show ?thesis
      by (auto simp: response_from_buffered_body_def Let_def split: option.splits if_splits prod.splits)
  next
    case Panic
    then show ?thesis
      by (auto simp: response_from_buffered_body_def Let_def split: option.splits if_splits prod.splits
          intro!: evolves_refl evolves_silent simp: trail telemetry)
  qed
qed

lemma sse_evolves: "always evolves (response_from_sse_stream G K rt rng who ctx status headers chunks)"
  unfolding always_def
  by (auto simp: response_from_sse_stream_def Let_def split: option.splits
      intro!: evolves_refl evolves_record simp: trail telemetry)

lemma send_evolves: "always evolves (send_upstream N r)"
  unfolding always_def
  by (auto simp: send_upstream_def split: upstream_reply.splits intro!: evolves_silent simp: trail)

lemma forward_request_evolves: "always evolves (forward_request G N K rt rng who ctx rq body policy)"
  unfolding forward_request_def Let_def
  by (auto intro!: always_evolves_bind always_glift evolves_refl always_evolves_gdo emit_request_decision_evolves
      send_evolves sse_evolves buffered_evolves)

lemma findings_evolves: "evolves s (emit_metrics_for_findings dir fs s)"
  by (rule evolves_silent) (simp_all add: trail telemetry)

lemma handle_proxy_evolves: "always evolves (handle_proxy G N K rt rng io who rid rq)"
  unfolding handle_proxy_def
  by (auto intro!: always_evolves_bind always_evolves_gdo decide_request_evolves refuse_request_evolves
      forward_request_evolves findings_evolves)

lemma proxy_handler_evolves: "evolves s (snd (proxy_handler G N K rt rng io rq s))"
proof (cases "authenticate (ga_http G) (sc_hash (ga_scan G)) (run_auth rt) (rq_headers rq)")
  case (Inl e)
  then show ?thesis by (auto simp: proxy_handler_def Let_def trail telemetry intro: evolves_silent)
next
  case (Inr who)
  obtain r s1 where run: "handle_proxy G N K rt rng io who (rng [0]) rq s = (r, s1)" by fastforce
  then have "evolves s s1" using handle_proxy_evolves [of G N K rt rng io who "rng [0]" rq] by (metis always_def snd_conv)
  moreover have "evolves s1 (emit_audit (build_request_pre_upstream_error_audit f now who rid path sid stage
      (proxy_error_kind err) err) (metric (MProxyError stage (proxy_error_kind err)) s1))"
    if "should_emit_request_pre_upstream_error_audit err" for f now rid path sid stage err
    using that by - (rule evolves_record, (simp add: trail telemetry audited_kind; fail)+)
  moreover have "evolves s1 (metric (MProxyError stage (proxy_error_kind err)) s1)"
    if "\<not> should_emit_request_pre_upstream_error_audit err" for stage err
    using that by (intro evolves_silent) (simp_all add: trail telemetry audited_kind)
  ultimately show ?thesis using Inr run
    by (cases r) (auto simp: proxy_handler_def Let_def intro: evolves_trans)
qed

section \<open>The review store behind the handler\<close>

lemma open_review_ticket_inv:
  assumes "review_inv (gs_reviews s)" and "hm_get (ri_tickets (rv_inner (gs_reviews s))) fresh = None"
  shows "review_inv (gs_reviews (snd (open_review_ticket N K rt io fresh n policy s)))"
  using upsert_pending_inv [OF assms, of "na_events N" io "ck_utc K 3" n]
  by (auto simp: open_review_ticket_def Let_def telemetry pending_count_def review_inv_prune
      split: prod.splits sum.splits)

lemma forward_request_reviews: "gs_reviews (snd (forward_request G N K rt rng who ctx rq body policy s)) = gs_reviews s"
proof -
  have "always (\<lambda>s t. gs_reviews t = gs_reviews s) (forward_request G N K rt rng who ctx rq body policy)"
    unfolding forward_request_def Let_def
  proof (intro always_bind always_glift)
    fix x :: "nat \<times> header_map \<times> string option list"
    obtain status headers chunks where x: "x = (status, headers, chunks)" by (cases x)
    have "always (\<lambda>s t. gs_reviews t = gs_reviews s) (response_from_sse_stream G K rt rng who ctx status headers chunks)"
      "always (\<lambda>s t. gs_reviews t = gs_reviews s)
         (response_from_buffered_body G N K rt rng who ctx status headers ct chunks)" for ct
      by (auto simp: always_def response_from_sse_stream_def response_from_buffered_body_def Let_def telemetry
          split: option.splits prod.splits)
    then show "always (\<lambda>s t. gs_reviews t = gs_reviews s) (case x of (status, headers, chunks) \<Rightarrow>
        if is_sse (header_str (ga_http G) headers ''content-type'') \<and> rf_scan_sse (cfg_response_filtering (run_config rt))
        then response_from_sse_stream G K rt rng who ctx status headers chunks
        else response_from_buffered_body G N K rt rng who ctx status headers
          (header_str (ga_http G) headers ''content-type'') chunks)"
      by (simp add: x)
  qed (auto simp: always_def gdo_def telemetry send_upstream_def split: upstream_reply.splits)
  then show ?thesis by (simp add: always_def)
qed

lemma proxy_handler_reviews:
  assumes "review_inv (gs_reviews s)" and "hm_get (ri_tickets (rv_inner (gs_reviews s))) (rng [2]) = None"
  shows "review_inv (gs_reviews (snd (proxy_handler G N K rt rng io rq s)))"
proof -
  have "review_inv (gs_reviews t)" if "handle_proxy G N K rt rng io who rid rq s = (r, t)" for who rid r t
    using that unfolding handle_proxy_def
  proof (cases rule: gbind_cases)
    case (Ok v s1)
    from decide_request_quiet [OF Ok(1)] assms
    have inv: "review_inv (gs_reviews s1)" "hm_get (ri_tickets (rv_inner (gs_reviews s1))) (rng [2]) = None"
      by (simp_all add: quiet_def)
    let ?s = "emit_metrics_for_findings Request (po_findings (qv_policy v)) s1"
    have "review_inv (gs_reviews (snd (refuse_request G N K rt io (rng [2]) who ctx sha san post policy ?s)))"
      for ctx sha san post policy
      using open_review_ticket_inv [of ?s "rng [2]" N K rt io] inv
      by (auto simp: refuse_request_def gbind_def gdo_def glift_def telemetry split: prod.splits rres.splits) (metis snd_conv)+
    moreover have "review_inv (gs_reviews (snd (forward_request G N K rt g who ctx rq body policy ?s)))" for g ctx body policy
      using inv by (simp add: forward_request_reviews telemetry)
    ultimately show ?thesis using Ok(2) by (auto split: if_split_asm) (metis snd_conv)+
  qed (use decide_request_quiet assms in \<open>auto simp: quiet_def\<close>)
  then show ?thesis using assms(1)
    by (auto simp: proxy_handler_def Let_def telemetry split: sum.split prod.split rres.split)
qed

section \<open>The router\<close>

datatype endpoint =
    Healthz | Readyz | MetricsText | AdminConsole | AdminStatus | AdminConfigSummary | AdminAudits | AdminReviews
  | AdminReviewsResolve | AdminDetokenize | AdminReload | AdminBenchmarksPromote | ProxyFallback

text \<open>The routes with their methods; every other path is the proxy handler's. The matching is axum's.\<close>

definition route_table :: "(string \<times> string \<times> endpoint) list" where
  "route_table =
     [(''/healthz'', ''GET'', Healthz), (''/readyz'', ''GET'', Readyz), (''/metrics'', ''GET'', MetricsText),
      (''/admin'', ''GET'', AdminConsole), (''/admin/'', ''GET'', AdminConsole),
      (''/admin/status'', ''GET'', AdminStatus), (''/admin/config-summary'', ''GET'', AdminConfigSummary),
      (''/admin/audits'', ''GET'', AdminAudits), (''/admin/reviews'', ''GET'', AdminReviews),
      (''/admin/reviews/resolve'', ''POST'', AdminReviewsResolve), (''/admin/detokenize'', ''POST'', AdminDetokenize),
      (''/admin/reload'', ''POST'', AdminReload), (''/admin/benchmarks/promote'', ''POST'', AdminBenchmarksPromote)]"

section \<open>The running gateway\<close>

text \<open>The application, every audit record emitted so far, and the registry of the metrics.\<close>

record 'r serving =
  sv_app :: app_state
  sv_history :: "audit_record list"
  sv_registry :: 'r

definition app_channel :: "app_state \<Rightarrow> audit_record list" where
  "app_channel st = sk_channel (gs_audit (st_stores st))"

text \<open>A step to a state of the application: what it has queued is emitted, what it has counted is recorded.\<close>

definition advance :: "'r registry_api \<Rightarrow> app_state \<Rightarrow> 'r serving \<Rightarrow> 'r serving" where
  "advance M st' v =
     \<lparr>sv_app = st',
      sv_history = sv_history v @ drop (length (app_channel (sv_app v))) (app_channel st'),
      sv_registry = fold (record_event M)
        (drop (length (gs_metrics (st_stores (sv_app v)))) (gs_metrics (st_stores st'))) (sv_registry v)\<rparr>"

definition with_stores :: "gw_state \<Rightarrow> app_state \<Rightarrow> app_state" where
  "with_stores s st = st\<lparr>st_stores := s\<rparr>"

definition writer_turn :: "line_api \<Rightarrow> bool \<Rightarrow> app_state \<Rightarrow> app_state" where
  "writer_turn L written st =
     with_stores ((st_stores st)\<lparr>gs_audit := audit_writer_step L written (gs_audit (st_stores st))\<rparr>) st"

text \<open>
  A request to an endpoint that changes the application, a turn of the audit writer, or a timer of a handler
  that observes its duration, at whatever moment of the request that is. The identifier
  drawn for a review ticket is not in use. The other endpoints (\<open>healthz\<close>, the console, the configuration
  summary, the audit trail, detokenization, the promotion of a baseline) leave the application as it is.
\<close>

inductive serve_step :: "'r registry_api \<Rightarrow> gw_api \<Rightarrow> 'r serving \<Rightarrow> 'r serving \<Rightarrow> bool" for M G where
  serve_proxy: "st = sv_app v \<Longrightarrow> hm_get (ri_tickets (rv_inner (gs_reviews (st_stores st)))) (rng [2]) = None \<Longrightarrow>
    serve_step M G v (advance M (with_stores (snd (proxy_handler G N K (st_runtime st) rng io rq (st_stores st))) st) v)"
| serve_readyz: "serve_step M G v (advance M (snd (readyz V J K (sv_app v))) v)"
| serve_metrics: "serve_step M G v (advance M (snd (metrics_handler M V K (sv_registry v) (sv_app v))) v)"
| serve_status: "serve_step M G v
    (advance M (snd (admin_status M surface B files V G A K headers (sv_registry v) (sv_app v))) v)"
| serve_reviews: "serve_step M G v (advance M (snd (admin_reviews G A K headers query (sv_app v))) v)"
| serve_resolve: "serve_step M G v
    (advance M (snd (admin_reviews_resolve G A E add_secs io K headers payload (sv_app v))) v)"
| serve_reload: "serve_step M G v (advance M (snd (admin_reload V G A headers (sv_app v))) v)"
| serve_payload_timer: "serve_step M G v
    (v\<lparr>sv_registry := payload_processing_timer M direction kind secs (sv_registry v)\<rparr>)"
| serve_upstream_timer: "serve_step M G v (v\<lparr>sv_registry := upstream_timer M path secs (sv_registry v)\<rparr>)"
| serve_writer: "serve_step M G v (advance M (writer_turn L written (sv_app v)) v)"

text \<open>The start: a state built from a configuration and an event file that fits, and a fresh registry.\<close>

definition serve_start :: "'r registry_api \<Rightarrow> gw_api \<Rightarrow> 'r serving \<Rightarrow> bool" where
  "serve_start M G v \<longleftrightarrow>
     (\<exists>V E now path. build_state V G E now path = Ok (sv_app v) \<and>
        (\<forall>p. case av_review_file V p of (_, readable, lines) \<Rightarrow> readable \<longrightarrow> review_file_fits E lines)) \<and>
     sv_history v = [] \<and> metrics_new M = Inr (sv_registry v)"

definition serve_inv :: "'r registry_api \<Rightarrow> gw_api \<Rightarrow> 'r serving \<Rightarrow> bool" where
  "serve_inv M G v \<longleftrightarrow>
     runtime_built G (sv_app v) \<and> review_inv (gs_reviews (st_stores (sv_app v))) \<and>
     hm_wf (gs_sessions (st_stores (sv_app v))) \<and>
     audit_store_inv (sk_store (gs_audit (st_stores (sv_app v)))) \<and>
     suffix (audit_snapshot (sk_store (gs_audit (st_stores (sv_app v))))) (sv_history v) \<and>
     suffix (app_channel (sv_app v)) (sv_history v) \<and>
     counted (st_stores (sv_app v)) = record_counts (sv_history v) \<and>
     registry_told M (sv_registry v) (gs_metrics (st_stores (sv_app v)))"

section \<open>The invariants\<close>

lemma suffix_last_n: "suffix (last_n n xs) xs"
  by (simp add: last_n_def suffix_drop)

lemma audit_emit_fold:
  assumes "audit_store_inv (sk_store k)"
  shows "sk_channel (fold audit_emit rs k) = sk_channel k @ rs \<and> audit_store_inv (sk_store (fold audit_emit rs k)) \<and>
    as_records (sk_store (fold audit_emit rs k)) = last_n (as_capacity (sk_store k)) (as_records (sk_store k) @ rs)"
proof -
  have parts: "sk_store (fold audit_emit rs k) = fold audit_push rs (sk_store k)" "sk_channel (fold audit_emit rs k) = sk_channel k @ rs" for rs k
    by (induction rs arbitrary: k) (simp_all add: audit_emit_def)
  have "audit_store_inv (fold audit_push rs s)" if "audit_store_inv s" for s
    using that by (induction rs arbitrary: s) (simp_all add: audit_push_inv)
  from this [OF assms] parts audit_push_all [OF assms, of rs] show ?thesis by (metis audit_store.select_convs(2))
qed

lemma suffix_append_same: "suffix xs h \<Longrightarrow> suffix (xs @ ys) (h @ ys)"
  by (auto simp: suffix_def)

text \<open>A step that evolves the stores keeps the invariant.\<close>

lemma serve_inv_evolves:
  assumes "serve_inv M G v" and "evolves (st_stores (sv_app v)) (st_stores st')" and "st_runtime st' = st_runtime (sv_app v)"
    and "review_inv (gs_reviews (st_stores st'))"
  shows "serve_inv M G (advance M st' v)"
proof -
  let ?s = "st_stores (sv_app v)"
  obtain rs ms where rs: "gs_audit (st_stores st') = fold audit_emit rs (gs_audit ?s)"
      "counted (st_stores st') = counted ?s @ record_counts rs"
    and ms: "gs_metrics (st_stores st') = gs_metrics ?s @ ms"
    and wf: "hm_wf (gs_sessions ?s) \<longrightarrow> hm_wf (gs_sessions (st_stores st'))"
    using assms(2) by (auto simp: evolves_def prefix_def)
  have store: "audit_store_inv (sk_store (gs_audit ?s))" using assms(1) by (simp add: serve_inv_def)
  note emitted = audit_emit_fold [OF store, of rs]
  have "suffix (audit_snapshot (sk_store (gs_audit (st_stores st')))) (sv_history v @ rs)"
  proof (rule suffix_order.trans)
    show "suffix (audit_snapshot (sk_store (gs_audit (st_stores st')))) (as_records (sk_store (gs_audit ?s)) @ rs)"
      by (simp add: emitted rs(1) audit_snapshot_def suffix_last_n)
    show "suffix (as_records (sk_store (gs_audit ?s)) @ rs) (sv_history v @ rs)"
      using assms(1) by (intro suffix_append_same) (simp add: serve_inv_def audit_snapshot_def)
  qed
  then show ?thesis
    using assms emitted rs ms wf
    by (auto simp: serve_inv_def advance_def app_channel_def runtime_built_def intro: suffix_append_same registry_told_events)
qed

text \<open>What the probes and the administration handlers do to the stores.\<close>

definition stores_step :: "app_state \<Rightarrow> app_state \<Rightarrow> bool" where
  "stores_step st st' \<longleftrightarrow> evolves (st_stores st) (st_stores st') \<and> st_runtime st' = st_runtime st \<and>
     (review_inv (gs_reviews (st_stores st)) \<longrightarrow> review_inv (gs_reviews (st_stores st')))"

lemma stores_step_refl: "stores_step st st"
  by (simp add: stores_step_def evolves_refl)

lemma serve_inv_stores: "serve_inv M G v \<Longrightarrow> stores_step (sv_app v) st' \<Longrightarrow> serve_inv M G (advance M st' v)"
  unfolding stores_step_def by (rule serve_inv_evolves) (auto simp: serve_inv_def)

lemma gauges_step:
  assumes "st' = st\<lparr>st_stores := (st_stores st)\<lparr>gs_sessions := snd (active_sessions cfg now (gs_sessions (st_stores st))),
      gs_reviews := snd (pending_count t (gs_reviews (st_stores st))), gs_metrics := gs_metrics (st_stores st) @ es\<rparr>\<rparr>"
    and "audit_counts es = []"
  shows "stores_step st st'"
  using assms hm_wf_active_sessions
  by (auto simp: stores_step_def counted_def pending_count_state review_inv_prune intro!: evolves_silent)

lemma refresh_metrics_step: "stores_step st (refresh_metrics V K st)"
  by (rule gauges_step, simp add: refresh_metrics_def count_sessions_def count_pending_def update_dependency_def
      metric_def Let_def case_prod_unfold, simp)

lemma admin_only_step:
  assumes "\<And>who. stores_step st (snd (k who))"
  shows "stores_step st (snd (admin_only G A st headers k))"
  using assms by (auto simp: admin_only_def stores_step_refl split: sum.split)

lemma admin_status_step: "stores_step st (snd (admin_status M surface B files V G A K headers r st))"
  unfolding admin_status_def
proof (rule admin_only_step, goal_cases)
  case (1 who)
  show ?case
    by (rule gauges_step, simp add: count_sessions_def count_pending_def status_dependency_def
        metric_def Let_def case_prod_unfold, simp)
qed

lemma admin_reviews_step: "stores_step st (snd (admin_reviews G A K headers query st))"
  unfolding admin_reviews_def
  by (rule admin_only_step)
    (auto simp: stores_step_def with_reviews_def review_list_def Let_def review_inv_prune trail intro!: evolves_silent)

lemma admin_resolve_step: "stores_step st (snd (admin_reviews_resolve G A E add_secs io K headers payload st))"
  unfolding admin_reviews_resolve_def
proof (rule admin_only_step, goal_cases)
  case (1 who)
  let ?status = "if qv_approve payload then RApproved else RRejected" and ?ttl = "rc_approval_ttl_secs (cfg_review (run_config (st_runtime st)))"
  let ?r = "review_resolve E add_secs io (ck_utc K 0) (qv_id payload) ?status (pr_name who) (qv_note payload) ?ttl (gs_reviews (st_stores st))"
  have inv: "review_inv (gs_reviews (st_stores st)) \<longrightarrow> review_inv (snd ?r)" by (simp add: review_resolve_inv)
  have "stores_step st (with_reviews (snd ?r) st)"
    using inv by (auto simp: stores_step_def with_reviews_def trail intro!: evolves_silent)
  moreover have "stores_step st (st\<lparr>st_stores := metric (MUpdateReviewQueue n c)
      ((metric (MReviewEvent x) ((st_stores st)\<lparr>gs_reviews := snd ?r\<rparr>))\<lparr>gs_reviews := snd (pending_count t (snd ?r))\<rparr>)\<rparr>)" for n c x t
    using inv by (auto simp: stores_step_def pending_count_state review_inv_prune trail telemetry metric_def counted_def
        intro!: evolves_silent)
  ultimately show ?case
    by (cases ?r; cases "fst ?r") (auto simp: Let_def telemetry case_prod_unfold)
qed

text \<open>A step that only touches the audit sink: a reload, or a turn of the writer.\<close>

lemma serve_inv_sink:
  assumes inv: "serve_inv M G v" and "runtime_built G st'"
    and "gs_reviews (st_stores st') = gs_reviews (st_stores (sv_app v))"
    and "gs_sessions (st_stores st') = gs_sessions (st_stores (sv_app v))"
    and "gs_metrics (st_stores st') = gs_metrics (st_stores (sv_app v))"
    and store: "audit_store_inv (sk_store (gs_audit (st_stores st')))"
    and "suffix (as_records (sk_store (gs_audit (st_stores st')))) (as_records (sk_store (gs_audit (st_stores (sv_app v)))))"
    and "suffix (app_channel st') (app_channel (sv_app v))"
  shows "serve_inv M G (advance M st' v)"
proof -
  have "drop (length (app_channel (sv_app v))) (app_channel st') = []" using assms(8) by (simp add: suffix_length_le)
  then show ?thesis
    using assms by (auto simp: serve_inv_def advance_def counted_def audit_snapshot_def intro: suffix_order.trans)
qed

lemma suffix_set_capacity: "suffix (as_records (audit_set_capacity n s)) (as_records s)"
  by (simp add: audit_set_capacity_def pop_to_capacity_last_n suffix_last_n)

lemma reload_inv:
  assumes "serve_inv M G v"
  shows "serve_inv M G (advance M (snd (reload V G (sv_app v))) v)"
proof (cases "reload V G (sv_app v)")
  case (Pair res st')
  have built: "runtime_built G (sv_app v)" using assms by (simp add: serve_inv_def)
  have store: "audit_store_inv (sk_store (gs_audit (st_stores (sv_app v))))" using assms by (simp add: serve_inv_def)
  show ?thesis
  proof (cases "\<exists>u. res = Ok u")
    case True
    then obtain u where ok: "reload V G (sv_app v) = (Ok u, st')" using Pair by blast
    then have "\<exists>n. sk_store (gs_audit (st_stores st')) = audit_set_capacity n (sk_store (gs_audit (st_stores (sv_app v)))) \<and>
        sk_channel (gs_audit (st_stores st')) = []"
      by (auto simp: reload_def replace_sink_def Let_def runtime_from_config_def
          split: sum.split_asm rres.split_asm prod.split_asm)
    then obtain n where sink: "sk_store (gs_audit (st_stores st')) = audit_set_capacity n (sk_store (gs_audit (st_stores (sv_app v))))"
        "sk_channel (gs_audit (st_stores st')) = []" by blast
    from ok have "runtime_built G st'" by (rule reload_Ok) (auto simp: runtime_built_def)
    moreover from ok have "gs_reviews (st_stores st') = gs_reviews (st_stores (sv_app v))"
      "gs_sessions (st_stores st') = gs_sessions (st_stores (sv_app v))"
      "gs_metrics (st_stores st') = gs_metrics (st_stores (sv_app v))" by (rule reload_Ok, simp)+
    ultimately have "serve_inv M G (advance M st' v)"
      using sink suffix_set_capacity audit_set_capacity_inv
      by (intro serve_inv_sink [OF assms]) (simp_all add: app_channel_def)
    with Pair show ?thesis by simp
  next
    case False
    then have keep: "st_runtime st' = st_runtime (sv_app v)" "st' = sv_app v \<or> (\<exists>n. st_stores st' = (st_stores (sv_app v))
        \<lparr>gs_audit := (gs_audit (st_stores (sv_app v)))\<lparr>sk_store := audit_set_capacity n (sk_store (gs_audit (st_stores (sv_app v))))\<rparr>\<rparr>)"
      using reload_failed [OF Pair] by auto
    have "runtime_built G st'" using keep(1) built by (simp add: runtime_built_def)
    then have "serve_inv M G (advance M st' v)"
      using keep(2) suffix_set_capacity audit_set_capacity_inv store
      by (intro serve_inv_sink [OF assms]) (auto simp: app_channel_def)
    with Pair show ?thesis by simp
  qed
qed

lemma writer_inv:
  assumes "serve_inv M G v"
  shows "serve_inv M G (advance M (writer_turn L written (sv_app v)) v)"
proof -
  have "sk_store (audit_writer_step L written k) = sk_store k" "suffix (sk_channel (audit_writer_step L written k)) (sk_channel k)" for k
    by (auto simp: audit_writer_step_def suffix_Cons split: list.split option.split)
  with assms show ?thesis
    by (intro serve_inv_sink [OF assms]) (auto simp: serve_inv_def writer_turn_def with_stores_def app_channel_def runtime_built_def)
qed

lemma serve_step_inv:
  assumes "serve_step M G v w" and inv: "serve_inv M G v"
  shows "serve_inv M G w"
  using assms(1)
proof cases
  case (serve_proxy st rng K io N rq)
  have "review_inv (gs_reviews (st_stores st))" using inv serve_proxy(2) by (simp add: serve_inv_def)
  from proxy_handler_reviews [where rng = rng, OF this serve_proxy(3)] serve_proxy(1,2) inv show ?thesis
    by (auto simp: with_stores_def intro!: serve_inv_evolves proxy_handler_evolves)
next
  case (serve_readyz V J K)
  with inv show ?thesis by (simp add: readyz_def Let_def case_prod_unfold serve_inv_stores refresh_metrics_step)
next
  case (serve_metrics V K)
  with inv show ?thesis by (simp add: metrics_handler_def Let_def serve_inv_stores refresh_metrics_step)
next
  case (serve_reload V A headers)
  have "snd (admin_reload V G A headers (sv_app v)) \<in> {sv_app v, snd (reload V G (sv_app v))}"
    by (auto simp: admin_reload_def admin_only_def split: sum.split prod.split rres.split)
  then show ?thesis
    using serve_reload reload_inv [OF inv, of V] serve_inv_stores [OF inv stores_step_refl] by auto
next
  case (serve_payload_timer direction kind secs)
  with inv show ?thesis by (simp add: serve_inv_def registry_told_timers)
next
  case (serve_upstream_timer path secs)
  with inv show ?thesis by (simp add: serve_inv_def registry_told_timers)
next
  case (serve_writer L written)
  then show ?thesis by (simp add: writer_inv inv)
qed (use inv in \<open>simp_all add: serve_inv_stores admin_status_step admin_reviews_step admin_resolve_step\<close>)

lemma runtime_from_config_sink:
  "fst (runtime_from_config V G config store) = Ok (rt, sink) \<Longrightarrow>
     \<exists>n. sk_store sink = audit_set_capacity n store \<and> sk_channel sink = []"
  by (auto simp: runtime_from_config_def Let_def split: rres.split_asm sum.split_asm)

lemma build_state_stores:
  assumes "build_state V G E now path = Ok st"
  shows "gs_sessions (st_stores st) = [] \<and> gs_metrics (st_stores st) = [] \<and> (\<exists>config rt.
    fst (runtime_from_config V G config (audit_store_new (au_buffer_capacity (cfg_audit config)))) = Ok (rt, gs_audit (st_stores st)))"
proof -
  from assms obtain config p where "fst (runtime_from_config V G config (audit_store_new (au_buffer_capacity (cfg_audit config)))) = Ok p"
    and "gs_sessions (st_stores st) = []" "gs_metrics (st_stores st) = []" "gs_audit (st_stores st) = snd p"
    unfolding build_state_def rres_iffs by (elim exE conjE) (auto simp: rres_iffs case_prod_unfold)
  then show ?thesis by (metis prod.collapse)
qed

lemma build_state_reviews:
  assumes "build_state V G E now path = Ok st"
  obtains p n readable lines where "av_review_file V p = (None, readable, lines)"
    and "review_store_new E now n None readable lines = Inr (gs_reviews (st_stores st))"
proof -
  let ?found = "\<lambda>config :: app_config. av_review_file V (rc_jsonl_path (cfg_review config))"
  from assms obtain config :: app_config where "review_store_new E now (rc_capacity (cfg_review config))
      (fst (?found config)) (fst (snd (?found config))) (snd (snd (?found config))) = Inr (gs_reviews (st_stores st))"
    by (auto simp: build_state_def rres_iffs of_sum_def case_prod_unfold split: sum.split_asm dest!: sym [of _ st])
  then have "?found config = (None, fst (snd (?found config)), snd (snd (?found config)))"
    and "review_store_new E now (rc_capacity (cfg_review config)) None (fst (snd (?found config))) (snd (snd (?found config))) =
      Inr (gs_reviews (st_stores st))"
    by (auto simp: review_store_new_def prod_eq_iff split: option.split_asm)
  then show ?thesis by (rule that)
qed

lemma serve_start_inv:
  assumes "serve_start M G v"
  shows "serve_inv M G v"
proof -
  from assms obtain V E now path where st: "build_state V G E now path = Ok (sv_app v)"
    and review_file: "\<forall>p. case av_review_file V p of (_, readable, lines) \<Rightarrow> readable \<longrightarrow> review_file_fits E lines"
    and rest: "sv_history v = []" "metrics_new M = Inr (sv_registry v)" by (auto simp: serve_start_def)
  have "app_start G (sv_app v)" using st by (auto simp: app_start_def)
  from runtimes.start_invariant [OF this] have "runtime_built G (sv_app v)" .
  moreover from build_state_reviews [OF st] obtain p n readable lines where
    "av_review_file V p = (None, readable, lines)" "review_store_new E now n None readable lines = Inr (gs_reviews (st_stores (sv_app v)))" .
  with review_file [rule_format, of p] have "review_start (gs_reviews (st_stores (sv_app v)))"
    unfolding review_start_def
    by (intro exI [of _ E] exI [of _ now] exI [of _ n] exI [of _ readable] exI [of _ lines]) simp
  then have "review_inv (gs_reviews (st_stores (sv_app v)))" by (rule review_start_inv)
  moreover from build_state_stores [OF st] obtain config rt where
    "gs_sessions (st_stores (sv_app v)) = []" "gs_metrics (st_stores (sv_app v)) = []"
    and sink: "fst (runtime_from_config V G config (audit_store_new (au_buffer_capacity (cfg_audit config)))) =
      Ok (rt, gs_audit (st_stores (sv_app v)))" by blast
  moreover from runtime_from_config_sink [OF sink] obtain n where
    "sk_store (gs_audit (st_stores (sv_app v))) = audit_set_capacity n (audit_store_new (au_buffer_capacity (cfg_audit config)))"
    "sk_channel (gs_audit (st_stores (sv_app v))) = []" by blast
  moreover have "as_records (audit_set_capacity n (audit_store_new m)) = []" for m
    by (simp add: audit_store_new_def audit_set_capacity_def audit_store_default_def pop_to_capacity_last_n last_n_def)
  ultimately show ?thesis
    using rest audit_set_capacity_inv
    by (simp add: serve_inv_def app_channel_def audit_snapshot_def counted_def record_counts_def registry_told_new)
qed

interpretation serving: transition_system "serve_start M G" "serve_step M G" "serve_inv M G" for M G
  by unfold_locales (fact serve_start_inv, rule serve_step_inv)

end
