(* ===== verification/Metrics_Claims.thy ===== *)
theory Metrics_Claims
  imports Gw_Serve App_Claims
begin

text \<open>
  The properties of the gateway as a whole: the invariants of its stores in every reachable state, and the
  agreement of the metrics an administrator sees with the audit trail.
\<close>

section \<open>Counting decisions\<close>

definition occurrences :: "('a \<Rightarrow> bool) \<Rightarrow> 'a list \<Rightarrow> nat option" where
  "occurrences P xs = (let n = length (filter P xs) in if n = 0 then None else Some n)"

lemma key_total_unit:
  assumes "map snd (filter (\<lambda>(k, _). k = key) (concat (map event_cells es))) = replicate n 1"
  shows "key_total key es = (if n = 0 then None else Some n)"
  by (simp add: key_total_def Let_def assms sum_list_replicate)

lemma key_total_requests:
  "key_total (''gateway_requests_total'', [d, k]) es = occurrences (\<lambda>c. \<exists>src. c = CountedDecision d k src) (audit_counts es)"
proof -
  have "map snd (filter (\<lambda>(key, _). key = (''gateway_requests_total'', [d, k])) (concat (map event_cells es))) =
      replicate (length (filter (\<lambda>c. \<exists>src. c = CountedDecision d k src) (audit_counts es))) 1"
    by (induction es rule: audit_counts.induct) auto
  then show ?thesis by (simp add: key_total_unit occurrences_def Let_def)
qed

lemma key_total_decisions:
  "key_total (''gateway_policy_decisions_total'', [d, k, src]) es =
     occurrences (\<lambda>c. c = CountedDecision d k src) (audit_counts es)"
proof -
  have "map snd (filter (\<lambda>(key, _). key = (''gateway_policy_decisions_total'', [d, k, src])) (concat (map event_cells es))) =
      replicate (length (filter (\<lambda>c. c = CountedDecision d k src) (audit_counts es))) 1"
    by (induction es rule: audit_counts.induct) auto
  then show ?thesis by (simp add: key_total_unit occurrences_def Let_def)
qed

lemma key_total_failures:
  assumes "kind \<in> set audited_kinds"
  shows "key_total (''gateway_proxy_errors_total'', [stage, kind]) es =
    occurrences (\<lambda>c. c = CountedFailure stage kind) (audit_counts es)"
proof -
  have "map snd (filter (\<lambda>(key, _). key = (''gateway_proxy_errors_total'', [stage, kind])) (concat (map event_cells es))) =
      replicate (length (filter (\<lambda>c. c = CountedFailure stage kind) (audit_counts es))) 1"
    using assms by (induction es rule: audit_counts.induct) auto
  then show ?thesis by (simp add: key_total_unit occurrences_def Let_def)
qed

lemma length_audit_counts: "length (audit_counts es) \<le> length es"
  by (induction es rule: audit_counts.induct) auto

lemma occurrences_le: "occurrences P xs = Some n \<Longrightarrow> n \<le> length xs"
  by (auto simp: occurrences_def Let_def split: if_split_asm)

lemma occurrences_records: "occurrences P (record_counts rs) = occurrences (\<lambda>r. P (record_count r)) rs"
  by (simp add: occurrences_def record_counts_def filter_map comp_def)

text \<open>Which records a counter stands for.\<close>

lemma record_count_iffs:
  "(\<exists>src. record_count r = CountedDecision d k src) \<longleftrightarrow>
     ar_error_stage r = None \<and> ar_direction r = d \<and> ar_decision r = k"
  "record_count r = CountedDecision d k src \<longleftrightarrow>
     ar_error_stage r = None \<and> ar_direction r = d \<and> ar_decision r = k \<and> ar_policy_source r = src"
  "kind \<in> set audited_kinds \<Longrightarrow> record_count r = CountedFailure stage kind \<longleftrightarrow>
     ar_error_stage r = Some stage \<and> ar_error_kind r = Some kind"
  by (auto simp: record_count_def audited_kinds_def split: option.split)

text \<open>
  (C4) Whatever requests the gateway gets, on whatever endpoints, reloads, timers and turns of the audit writer
  included, from a start on any configuration that loads and any review event file in which every ticket is created
  once, pending, and resolved while pending: the runtime in force was built from a configuration and has a tokenizer
  when one of its rules masks by tokenizing, the review store and the sessions are well formed, the audit buffer has
  its bound and holds the most recent records in order, what waits for the writer is the end of the trail, and the
  audit records ever emitted are exactly those the metrics have counted, in the same order: decisions as decisions,
  failures before forwarding as failures of their kind.
\<close>

theorem gateway_invariants:
  assumes "serve_start M G v0" and "(serve_step M G)\<^sup>*\<^sup>* v0 v"
  shows "(\<exists>V. runtime_parts V G (run_config (st_runtime (sv_app v))) = Ok (st_runtime (sv_app v))) \<and>
    (requires_tokenization (run_config (st_runtime (sv_app v))) \<longrightarrow> run_tokenizer (st_runtime (sv_app v)) \<noteq> None) \<and>
    review_inv (gs_reviews (st_stores (sv_app v))) \<and> hm_wf (gs_sessions (st_stores (sv_app v))) \<and>
    length (audit_snapshot (sk_store (gs_audit (st_stores (sv_app v))))) \<le> as_capacity (sk_store (gs_audit (st_stores (sv_app v)))) \<and>
    suffix (audit_snapshot (sk_store (gs_audit (st_stores (sv_app v))))) (sv_history v) \<and>
    suffix (sk_channel (gs_audit (st_stores (sv_app v)))) (sv_history v) \<and>
    audit_counts (gs_metrics (st_stores (sv_app v))) = map record_count (sv_history v)"
proof -
  have inv: "serve_inv M G v" using serving.reachable_invariant [OF assms] .
  then obtain V config where built: "runtime_parts V G config = Ok (st_runtime (sv_app v))"
    by (auto simp: serve_inv_def runtime_built_def)
  note parts = runtime_parts_Ok(1,2) [OF built]
  show ?thesis
    using inv built parts
    by (auto simp: serve_inv_def audit_store_inv_def audit_snapshot_def app_channel_def counted_def record_counts_def)
qed

text \<open>
  (C5) The counters an administrator sees agree with the audit trail, in every reachable state of the
  gateway whose log has at most \<open>2 ^ 53\<close> events: for every direction, decision and source, the number shown is the
  number of decision records ever emitted with that direction, decision and source; the skeleton records of requests
  that failed before they were forwarded are not among them, and for every stage and audited kind of failure the number
  of errors shown is the number of those skeletons. Nothing is shown where there is no record.
\<close>

theorem counters_agree_with_audit_trail:
  assumes "registry_sound M count"
    and "serve_start M G v0" and "(serve_step M G)\<^sup>*\<^sup>* v0 v"
    and "length (gs_metrics (st_stores (sv_app v))) \<le> 2 ^ 53"
  shows "json_path [''counters'', ''requests_total'', d, k] (metrics_snapshot M (sv_registry v)) =
      map_option json_nat (occurrences (\<lambda>r. ar_error_stage r = None \<and> ar_direction r = d \<and> ar_decision r = k)
        (sv_history v)) \<and>
    json_path [''counters'', ''policy_decisions_total'', d, k, src] (metrics_snapshot M (sv_registry v)) =
      map_option json_nat (occurrences (\<lambda>r. ar_error_stage r = None \<and> ar_direction r = d \<and> ar_decision r = k \<and>
        ar_policy_source r = src) (sv_history v)) \<and>
    (kind \<in> set audited_kinds \<longrightarrow>
      json_path [''counters'', ''proxy_errors_total'', stage, kind] (metrics_snapshot M (sv_registry v)) =
        map_option json_nat (occurrences (\<lambda>r. ar_error_stage r = Some stage \<and> ar_error_kind r = Some kind)
          (sv_history v)))"
proof -
  let ?es = "gs_metrics (st_stores (sv_app v))"
  have inv: "serve_inv M G v" by (rule serving.reachable_invariant [OF assms(2,3)])
  then have trail: "audit_counts ?es = record_counts (sv_history v)" by (simp add: serve_inv_def counted_def)
  from inv obtain r0 entries where new: "metrics_new M = Inr r0" and reg: "sv_registry v = fold (apply_entry M) entries r0"
    and events: "recorded entries = ?es" by (auto simp: serve_inv_def registry_told_def)
  have small: "\<forall>n. occurrences P (audit_counts ?es) = Some n \<longrightarrow> n \<le> 2 ^ 53" for P
    using occurrences_le length_audit_counts [of ?es] assms(4) le_trans by blast
  have "json_path [''counters'', ''requests_total'', d, k] (metrics_snapshot M (sv_registry v)) =
      map_option json_nat (occurrences (\<lambda>c. \<exists>src. c = CountedDecision d k src) (audit_counts ?es))"
    unfolding reg using snapshot_counters(1) [OF assms(1) new events, unfolded key_total_requests, OF small] .
  moreover have "json_path [''counters'', ''policy_decisions_total'', d, k, src] (metrics_snapshot M (sv_registry v)) =
      map_option json_nat (occurrences (\<lambda>c. c = CountedDecision d k src) (audit_counts ?es))"
    unfolding reg using snapshot_counters(2) [OF assms(1) new events, unfolded key_total_decisions, OF small] .
  moreover have "json_path [''counters'', ''proxy_errors_total'', stage, kind] (metrics_snapshot M (sv_registry v)) =
      map_option json_nat (occurrences (\<lambda>c. c = CountedFailure stage kind) (audit_counts ?es))" if kind: "kind \<in> set audited_kinds"
    unfolding reg
    using snapshot_counters(4) [OF assms(1) new events, of stage kind, unfolded key_total_failures [OF kind], OF small] .
  ultimately show ?thesis
    by (simp add: trail occurrences_records record_count_iffs del: json_path.simps)
qed

section \<open>A registry\<close>

text \<open>Cells in a list; gathering shows those of the counters.\<close>

definition cells_registry :: "((string \<times> string list) \<times> nat) list registry_api" where
  "cells_registry =
     \<lparr>rg_new = [], rg_make = (\<lambda>_ _. None), rg_register = (\<lambda>_. Inr),
      rg_inc_by = (\<lambda>name ls n r. hm_insert (name, ls) (((case hm_get r (name, ls) of None \<Rightarrow> 0 | Some v \<Rightarrow> v) + n) mod 2 ^ 64) r),
      rg_set = (\<lambda>_ _ _ r. r), rg_observe = (\<lambda>_ _ _ r. r),
      rg_gather = (\<lambda>r. map (\<lambda>(name, labels). \<lparr>mf_name = name, mf_metric = map (\<lambda>((_, ls), v).
          \<lparr>mp_label = zip labels ls, mp_counter = map_option (\<lambda>v. Finite (real v)) (hm_get r (name, ls)), mp_gauge = None,
           mp_sample_count = 0, mp_sample_sum = Finite 0\<rparr>)
          (filter (\<lambda>((n, ls), _). n = name \<and> length ls = length labels) r)\<rparr>) counter_labels),
      rg_encode = (\<lambda>_. Inr []), rg_format_type = ''text/plain''\<rparr>"

lemma cells_registry_new: "metrics_new cells_registry = Inr []"
  by (simp add: metrics_new_def metric_table_def cells_registry_def)

lemma counter_labels_facts:
  "distinct (map fst counter_labels)" "(name, labels) \<in> set counter_labels \<Longrightarrow> distinct labels"
  by (auto simp: counter_labels_def metric_table_def)

lemma cells_gather_sound: "gather_sound (rg_gather cells_registry r) (hm_get r)"
  unfolding gather_sound_def
proof (intro conjI ballI allI impI)
  show "distinct (map mf_name (rg_gather cells_registry r))"
    using counter_labels_facts(1) by (simp add: cells_registry_def comp_def case_prod_unfold)
next
  fix f m labels
  assume f: "f \<in> set (rg_gather cells_registry r)" and m: "m \<in> set (mf_metric f)" and row: "(mf_name f, labels) \<in> set counter_labels"
  obtain name labels' where f': "(name, labels') \<in> set counter_labels" "mf_name f = name"
    "mf_metric f = map (\<lambda>((_, ls), v). \<lparr>mp_label = zip labels' ls,
       mp_counter = map_option (\<lambda>v. Finite (real v)) (hm_get r (name, ls)), mp_gauge = None,
       mp_sample_count = 0, mp_sample_sum = Finite 0\<rparr>) (filter (\<lambda>((n, ls), _). n = name \<and> length ls = length labels') r)"
    using f by (auto simp: cells_registry_def)
  have [simp]: "labels' = labels" using f'(1,2) row eq_key_imp_eq_value [OF counter_labels_facts(1)] by auto
  from m f' obtain ls v where ls: "((name, ls), v) \<in> set r" "length ls = length labels" "mp_label m = zip labels ls"
    "mp_counter m = map_option (\<lambda>v. Finite (real v)) (hm_get r (name, ls))" by auto
  then obtain w where "hm_get r (name, ls) = Some w" by (metis hm_get_eq_None_iff image_eqI fst_conv not_None_eq)
  with ls f'(2) counter_labels_facts(2) [OF row]
  show "\<exists>ls v. length ls = length labels \<and> shows_child labels ls m \<and> hm_get r (mf_name f, ls) = Some v \<and>
      (v \<le> 2 ^ 53 \<longrightarrow> mp_counter m = Some (Finite (real v)))"
    by (intro exI [of _ ls] exI [of _ w]) (simp add: shows_child_def)
next
  fix name labels ls v
  assume row: "(name, labels) \<in> set counter_labels" and len: "length ls = length labels" and v: "hm_get r (name, ls) = Some v"
  have "((name, ls), v) \<in> set r" using v by (rule hm_get_in_set)
  with row len counter_labels_facts(2) [OF row]
  show "\<exists>f\<in>set (rg_gather cells_registry r). mf_name f = name \<and> (\<exists>m\<in>set (mf_metric f). shows_child labels ls m)"
    by (force simp: cells_registry_def shows_child_def image_iff)
qed

lemma cells_registry_sound: "registry_sound cells_registry hm_get"
  unfolding registry_sound_def
proof (intro conjI allI impI)
  fix r
  show "metrics_new cells_registry = Inr r \<Longrightarrow> hm_get r = Map.empty"
    by (simp add: cells_registry_new fun_eq_iff)
next
  fix r name ls n
  show "hm_get (rg_inc_by cells_registry name ls n r) = bump (name, ls) n (hm_get r)"
    by (simp add: cells_registry_def bump_def fun_eq_iff hm_get_insert)
next
  fix r name ls v
  show "hm_get (rg_set cells_registry name ls v r) = hm_get r" by (simp add: cells_registry_def)
next
  fix r name ls x
  show "hm_get (rg_observe cells_registry name ls x r) = hm_get r" by (simp add: cells_registry_def)
qed (rule cells_gather_sound)

section \<open>A gateway that has served a request\<close>

definition served :: "app_state \<Rightarrow> app_state" where
  "served st = with_stores (snd (proxy_handler demo_gw demo_net demo_clock (st_runtime st) demo_uuid None
     (demo_request ''x a@b y'') (st_stores st))) st"

definition allowed_requests :: "audit_record list \<Rightarrow> audit_record list" where
  "allowed_requests = filter (\<lambda>r. ar_error_stage r = None \<and> ar_direction r = ''request'' \<and> ar_decision r = ''allow'')"

lemma served_once:
  "\<exists>st. build_state demo_env demo_gw count_events 100 ''gw.yml'' = Ok st \<and>
     hm_get (ri_tickets (rv_inner (gs_reviews (st_stores st)))) (demo_uuid [2]) = None \<and> app_channel st = [] \<and>
     length (gs_metrics (st_stores (served st))) \<le> 20 \<and> length (allowed_requests (app_channel (served st))) = 1"
proof -
  have "(case build_state demo_env demo_gw count_events 100 ''gw.yml'' of
      Ok st \<Rightarrow> hm_get (ri_tickets (rv_inner (gs_reviews (st_stores st)))) (demo_uuid [2]) = None \<and> app_channel st = [] \<and>
        length (gs_metrics (st_stores (served st))) \<le> 20 \<and> length (allowed_requests (app_channel (served st))) = 1
    | _ \<Rightarrow> False)" by code_simp
  then show ?thesis by (auto split: rres.splits)
qed

lemma served_run:
  "\<exists>v0 v. serve_start cells_registry demo_gw v0 \<and> (serve_step cells_registry demo_gw)\<^sup>*\<^sup>* v0 v \<and>
     length (gs_metrics (st_stores (sv_app v))) \<le> 2 ^ 53 \<and> length (allowed_requests (sv_history v)) = 1"
proof -
  from served_once obtain st where st: "build_state demo_env demo_gw count_events 100 ''gw.yml'' = Ok st"
    "hm_get (ri_tickets (rv_inner (gs_reviews (st_stores st)))) (demo_uuid [2]) = None" "app_channel st = []"
    "length (gs_metrics (st_stores (served st))) \<le> 20" "length (allowed_requests (app_channel (served st))) = 1" by blast
  define v0 where "v0 = \<lparr>sv_app = st, sv_history = [], sv_registry = [] :: ((string \<times> string list) \<times> nat) list\<rparr>"
  have "serve_start cells_registry demo_gw v0"
    unfolding serve_start_def
  proof (intro conjI exI allI)
    show "build_state demo_env demo_gw count_events 100 ''gw.yml'' = Ok (sv_app v0)" using st(1) by (simp add: v0_def)
  qed (simp_all add: v0_def cells_registry_new demo_env_def)
  moreover have "serve_step cells_registry demo_gw v0 (advance cells_registry (served st) v0)"
    unfolding served_def by (rule serve_proxy) (use st(2) in \<open>simp_all add: v0_def\<close>)
  moreover have "length (gs_metrics (st_stores (served st))) \<le> 2 ^ 53" using st(4) by simp
  ultimately show ?thesis using st(3,5)
    by (intro exI [of _ v0] exI [of _ "advance cells_registry (served st) v0"])
      (auto simp: advance_def v0_def intro: r_into_rtranclp)
qed

theorem gateway_invariants_witness:
  "\<exists>v :: ((string \<times> string list) \<times> nat) list serving. length (allowed_requests (sv_history v)) = 1 \<and>
     audit_counts (gs_metrics (st_stores (sv_app v))) = map record_count (sv_history v)"
  using served_run gateway_invariants by blast

theorem counters_agree_with_audit_trail_witness:
  "\<exists>v :: ((string \<times> string list) \<times> nat) list serving.
     json_path [''counters'', ''requests_total'', ''request'', ''allow''] (metrics_snapshot cells_registry (sv_registry v)) =
     Some (json_nat 1)"
proof -
  from served_run obtain v0 v where run: "serve_start cells_registry demo_gw v0" "(serve_step cells_registry demo_gw)\<^sup>*\<^sup>* v0 v"
    "length (gs_metrics (st_stores (sv_app v))) \<le> 2 ^ 53" and one: "length (allowed_requests (sv_history v)) = 1" by blast
  from one have "occurrences (\<lambda>r. ar_error_stage r = None \<and> ar_direction r = ''request'' \<and> ar_decision r = ''allow'')
      (sv_history v) = Some 1" by (simp add: occurrences_def allowed_requests_def)
  with counters_agree_with_audit_trail [OF cells_registry_sound run, of "''request''" "''allow''"]
  have "json_path [''counters'', ''requests_total'', ''request'', ''allow''] (metrics_snapshot cells_registry (sv_registry v)) =
     Some (json_nat 1)" by (simp only: option.map)
  then show ?thesis by blast
qed

end
