(* ===== verification/Host_Platform.thy ===== *)
theory Host_Platform
  imports Core_Config Core_Json
begin

text \<open>
  \<open>src/platform.rs\<close> and \<open>src/mitm/ca.rs\<close>: the commands that install the root certificate and set the
  system proxy, and the certificate authority's files. What a command or a file operation does is a
  parameter; the certificate library is one too.
\<close>

section \<open>Commands\<close>

datatype target_os = MacOs | Windows | Linux

record command_spec =
  cs_program :: string
  cs_args :: "string list"
  cs_elevated :: bool

definition command_spec_new :: "string \<Rightarrow> string list \<Rightarrow> bool \<Rightarrow> command_spec" where
  "command_spec_new program args elevated = \<lparr>cs_program = program, cs_args = args, cs_elevated = elevated\<rparr>"

definition ca_common_name :: string where
  "ca_common_name = ''ctxward Root CA''"

definition linux_ca_dir :: string where
  "linux_ca_dir = ''/usr/local/share/ca-certificates''"

definition linux_ca_filename :: string where
  "linux_ca_filename = ''ctxward-ca.crt''"

definition macos_system_keychain :: string where
  "macos_system_keychain = ''/Library/Keychains/System.keychain''"

text \<open>The backslashes of the registry path are the byte 92.\<close>

definition win_inet_key :: string where
  "win_inet_key = ''HKCU'' @ [CHR 0x5C] @ ''Software'' @ [CHR 0x5C] @ ''Microsoft'' @ [CHR 0x5C] @ ''Windows'' @ [CHR 0x5C] @
     ''CurrentVersion'' @ [CHR 0x5C] @ ''Internet Settings''"

definition linux_ca_dest :: string where
  "linux_ca_dest = linux_ca_dir @ ''/'' @ linux_ca_filename"

fun install_ca_commands :: "target_os \<Rightarrow> string \<Rightarrow> command_spec list" where
  "install_ca_commands MacOs cert_path =
     [command_spec_new ''security''
        [''add-trusted-cert'', ''-d'', ''-r'', ''trustRoot'', ''-k'', macos_system_keychain, cert_path] True]"
| "install_ca_commands Windows cert_path =
     [command_spec_new ''certutil'' [''-addstore'', ''-f'', ''Root'', cert_path] True]"
| "install_ca_commands Linux cert_path =
     [command_spec_new ''cp'' [cert_path, linux_ca_dest] True,
      command_spec_new ''update-ca-certificates'' [] True]"

fun uninstall_ca_commands :: "target_os \<Rightarrow> command_spec list" where
  "uninstall_ca_commands MacOs =
     [command_spec_new ''security'' [''delete-certificate'', ''-c'', ca_common_name, macos_system_keychain] True]"
| "uninstall_ca_commands Windows =
     [command_spec_new ''certutil'' [''-delstore'', ''Root'', ca_common_name] True]"
| "uninstall_ca_commands Linux =
     [command_spec_new ''rm'' [''-f'', linux_ca_dest] True,
      command_spec_new ''update-ca-certificates'' [''--fresh''] True]"

fun set_proxy_commands :: "target_os \<Rightarrow> string \<Rightarrow> nat \<Rightarrow> string \<Rightarrow> command_spec list" where
  "set_proxy_commands MacOs host port service =
     [command_spec_new ''networksetup'' [''-setsecurewebproxy'', service, host, show_nat port] True,
      command_spec_new ''networksetup'' [''-setwebproxy'', service, host, show_nat port] True]"
| "set_proxy_commands Windows host port service =
     [command_spec_new ''reg'' [''add'', win_inet_key, ''/v'', ''ProxyServer'', ''/t'', ''REG_SZ'', ''/d'',
        host @ '':'' @ show_nat port, ''/f''] False,
      command_spec_new ''reg'' [''add'', win_inet_key, ''/v'', ''ProxyEnable'', ''/t'', ''REG_DWORD'', ''/d'', ''1'', ''/f''] False]"
| "set_proxy_commands Linux host port service =
     [command_spec_new ''gsettings'' [''set'', ''org.gnome.system.proxy'', ''mode'', ''manual''] False,
      command_spec_new ''gsettings'' [''set'', ''org.gnome.system.proxy.http'', ''host'', host] False,
      command_spec_new ''gsettings'' [''set'', ''org.gnome.system.proxy.http'', ''port'', show_nat port] False,
      command_spec_new ''gsettings'' [''set'', ''org.gnome.system.proxy.https'', ''host'', host] False,
      command_spec_new ''gsettings'' [''set'', ''org.gnome.system.proxy.https'', ''port'', show_nat port] False]"

fun clear_proxy_commands :: "target_os \<Rightarrow> string \<Rightarrow> command_spec list" where
  "clear_proxy_commands MacOs service =
     [command_spec_new ''networksetup'' [''-setsecurewebproxystate'', service, ''off''] True,
      command_spec_new ''networksetup'' [''-setwebproxystate'', service, ''off''] True]"
| "clear_proxy_commands Windows service =
     [command_spec_new ''reg'' [''add'', win_inet_key, ''/v'', ''ProxyEnable'', ''/t'', ''REG_DWORD'', ''/d'', ''0'', ''/f''] False]"
| "clear_proxy_commands Linux service =
     [command_spec_new ''gsettings'' [''set'', ''org.gnome.system.proxy'', ''mode'', ''none''] False]"

section \<open>Running a command\<close>

text \<open>What happens on the host: a program was started with its arguments.\<close>

type_synonym host_log = "(string \<times> string list) list"

record host_api =
  hp_spawn :: "string \<Rightarrow> string list \<Rightarrow> string + int option"

definition platform_run :: "host_api \<Rightarrow> command_spec \<Rightarrow> host_log \<Rightarrow> (string + int option) \<times> host_log" where
  "platform_run P spec done_so_far =
     (if cs_elevated spec
      then (Inl (''command '' @ [CHR 0x27] @ cs_program spec @ [CHR 0x27] @
             '' requires elevation; route it through the privileged helper''), done_so_far)
      else (hp_spawn P (cs_program spec) (cs_args spec), done_so_far @ [(cs_program spec, cs_args spec)]))"

section \<open>The certificate authority\<close>

datatype ca_error = CaRead string string | CaWrite string string | CaRcgen string

record ca_file =
  cf_contents :: string
  cf_mode :: nat

type_synonym ca_files = "string \<Rightarrow> ca_file option"

text \<open>The part of a certificate's parameters the code sets; the rest is the library's.\<close>

datatype key_usage = KeyCertSign | CrlSign | DigitalSignature

record ca_params =
  cp_unconstrained_ca :: bool
  cp_distinguished_name :: "(string \<times> string) list"
  cp_key_usages :: "key_usage list"

text \<open>
  Errors of file operations by path (\<open>None\<close> for success; \<open>ci_chmod_error\<close> has the metadata call too), the mode a new file gets, whether
  the program is built for Unix (\<open>cfg(unix)\<close>), and the certificate library: key generation, signing, parsing of a key, and the issuer of a certificate with its key.
\<close>

record ca_api =
  ci_env :: "string \<Rightarrow> string option"
  ci_read_error :: "string \<Rightarrow> string option"
  ci_create_dir :: "string \<Rightarrow> string option"
  ci_parent :: "string \<Rightarrow> string option"
  ci_write_error :: "string \<Rightarrow> string option"
  ci_chmod_error :: "string \<Rightarrow> string option"
  ci_umask_mode :: nat
  ci_unix :: bool
  ci_generate_key :: "string + string"
  ci_params_new :: "string option"
  ci_self_signed :: "ca_params \<Rightarrow> string \<Rightarrow> string + string"
  ci_key_pem :: "string \<Rightarrow> string"
  ci_key_pair :: "string \<Rightarrow> string + string"
  ci_issuer :: "string \<Rightarrow> string \<Rightarrow> string + string"

definition path_join :: "string \<Rightarrow> string \<Rightarrow> string" where
  "path_join dir name = (if dir = [] then name else if last dir = CHR ''/'' then dir @ name else dir @ ''/'' @ name)"

definition resolve_ca_key_path :: "ca_api \<Rightarrow> proxy_config \<Rightarrow> string" where
  "resolve_ca_key_path C cfg =
     (case px_ca_key_path cfg of
        Some path \<Rightarrow> path
      | None \<Rightarrow>
          (case ci_env C (px_ca_key_path_env cfg) of
             Some path \<Rightarrow> if path \<noteq> [] then path else path_join (px_ca_dir cfg) ''ctxward-ca.key''
           | None \<Rightarrow> path_join (px_ca_dir cfg) ''ctxward-ca.key''))"

definition resolve_ca_cert_path :: "proxy_config \<Rightarrow> string" where
  "resolve_ca_cert_path cfg =
     (case px_ca_cert_path cfg of Some path \<Rightarrow> path | None \<Rightarrow> path_join (px_ca_dir cfg) ''ctxward-ca.pem'')"

definition root_ca_params :: ca_params where
  "root_ca_params =
     \<lparr>cp_unconstrained_ca = True,
      cp_distinguished_name = [(''CommonName'', ca_common_name), (''OrganizationName'', ''ctxward'')],
      cp_key_usages = [KeyCertSign, CrlSign, DigitalSignature]\<rparr>"

definition generate_root_ca :: "ca_api \<Rightarrow> ca_error + string \<times> string" where
  "generate_root_ca C =
     (case ci_generate_key C of
        Inl e \<Rightarrow> Inl (CaRcgen e)
      | Inr key \<Rightarrow>
          (case ci_params_new C of
             Some e \<Rightarrow> Inl (CaRcgen e)
           | None \<Rightarrow>
               (case ci_self_signed C root_ca_params key of
                  Inl e \<Rightarrow> Inl (CaRcgen e)
                | Inr cert_pem \<Rightarrow> Inr (ci_key_pem C key, cert_pem))))"

text \<open>\<open>fs::write\<close> keeps the mode of a file that is already there.\<close>

definition fs_write :: "ca_api \<Rightarrow> string \<Rightarrow> string \<Rightarrow> ca_files \<Rightarrow> (ca_error + unit) \<times> ca_files" where
  "fs_write C path contents files =
     (case ci_write_error C path of
        Some e \<Rightarrow> (Inl (CaWrite path e), files)
      | None \<Rightarrow>
          (Inr (), files(path \<mapsto> \<lparr>cf_contents = contents,
             cf_mode = (case files path of Some f \<Rightarrow> cf_mode f | None \<Rightarrow> ci_umask_mode C)\<rparr>)))"

definition write_protected :: "ca_api \<Rightarrow> string \<Rightarrow> string \<Rightarrow> ca_files \<Rightarrow> (ca_error + unit) \<times> ca_files" where
  "write_protected C path contents files =
     (case (case ci_parent C path of
              Some parent \<Rightarrow> (case ci_create_dir C parent of Some e \<Rightarrow> Inl (CaWrite parent e) | None \<Rightarrow> Inr ())
            | None \<Rightarrow> Inr ()) of
        Inl e \<Rightarrow> (Inl e, files)
      | Inr _ \<Rightarrow>
          (case fs_write C path contents files of
             (Inl e, files') \<Rightarrow> (Inl e, files')
           | (Inr _, files') \<Rightarrow>
               if \<not> ci_unix C then (Inr (), files')
               else (case ci_chmod_error C path of
                  Some e \<Rightarrow> (Inl (CaWrite path e), files')
                | None \<Rightarrow>
                    (Inr (), files'(path := map_option (\<lambda>f. f\<lparr>cf_mode := 384\<rparr>) (files' path))))))"

definition ca_read :: "ca_api \<Rightarrow> ca_files \<Rightarrow> string \<Rightarrow> ca_error + string" where
  "ca_read C files path =
     (case ci_read_error C path of
        Some e \<Rightarrow> Inl (CaRead path e)
      | None \<Rightarrow> (case files path of Some f \<Rightarrow> Inr (cf_contents f) | None \<Rightarrow> Inl (CaRead path ''not found'')))"

definition create_ca :: "ca_api \<Rightarrow> string \<Rightarrow> string \<Rightarrow> ca_files \<Rightarrow> (ca_error + string \<times> string) \<times> ca_files" where
  "create_ca C key_path cert_path files =
     (case generate_root_ca C of
        Inl e \<Rightarrow> (Inl e, files)
      | Inr (key_pem, cert_pem) \<Rightarrow>
          (case write_protected C key_path key_pem files of
             (Inl e, files1) \<Rightarrow> (Inl e, files1)
           | (Inr _, files1) \<Rightarrow>
               (case fs_write C cert_path cert_pem files1 of
                  (Inl e, files2) \<Rightarrow> (Inl e, files2)
                | (Inr _, files2) \<Rightarrow> (Inr (key_pem, cert_pem), files2))))"

definition load_or_create_ca :: "ca_api \<Rightarrow> proxy_config \<Rightarrow> ca_files \<Rightarrow> (ca_error + string) \<times> ca_files" where
  "load_or_create_ca C cfg files =
     (let key_path = resolve_ca_key_path C cfg; cert_path = resolve_ca_cert_path cfg;
          (material, files') =
            (if files key_path \<noteq> None \<and> files cert_path \<noteq> None
             then ((case ca_read C files key_path of
                      Inl e \<Rightarrow> Inl e
                    | Inr key_pem \<Rightarrow>
                        (case ca_read C files cert_path of Inl e \<Rightarrow> Inl e | Inr cert_pem \<Rightarrow> Inr (key_pem, cert_pem))), files)
             else create_ca C key_path cert_path files)
      in case material of
           Inl e \<Rightarrow> (Inl e, files')
         | Inr (key_pem, cert_pem) \<Rightarrow>
             (case ci_key_pair C key_pem of
                Inl e \<Rightarrow> (Inl (CaRcgen e), files')
              | Inr key \<Rightarrow>
                  (case ci_issuer C cert_pem key of
                     Inl e \<Rightarrow> (Inl (CaRcgen e), files') | Inr issuer \<Rightarrow> (Inr issuer, files'))))"

definition export_ca_cert_pem :: "ca_api \<Rightarrow> proxy_config \<Rightarrow> ca_files \<Rightarrow> ca_error + string option" where
  "export_ca_cert_pem C cfg files =
     (let cert_path = resolve_ca_cert_path cfg in
      if files cert_path = None then Inr None
      else (case ca_read C files cert_path of Inl e \<Rightarrow> Inl e | Inr pem \<Rightarrow> Inr (Some pem)))"

section \<open>Lemmas\<close>

text \<open>Owner only on Unix; elsewhere the mode of the file that is there, or of a new one.\<close>

definition key_file_mode :: "ca_api \<Rightarrow> ca_files \<Rightarrow> string \<Rightarrow> nat" where
  "key_file_mode C files path =
     (if ci_unix C then 384 else case files path of Some f \<Rightarrow> cf_mode f | None \<Rightarrow> ci_umask_mode C)"

lemma create_ca_Inr:
  assumes "create_ca C key_path cert_path files = (Inr (key_pem, cert_pem), files')" and "key_path \<noteq> cert_path"
  shows "files' key_path = Some \<lparr>cf_contents = key_pem, cf_mode = key_file_mode C files key_path\<rparr> \<and>
    (\<exists>m. files' cert_path = Some \<lparr>cf_contents = cert_pem, cf_mode = m\<rparr>) \<and>
    (\<forall>p. p \<notin> {key_path, cert_path} \<longrightarrow> files' p = files p)"
  using assms
  by (auto simp: create_ca_def write_protected_def fs_write_def key_file_mode_def
      split: sum.split_asm option.split_asm prod.split_asm if_split_asm)

lemma load_or_create_ca_again:
  assumes "load_or_create_ca C cfg files = (Inr issuer, files')"
    and "resolve_ca_key_path C cfg \<noteq> resolve_ca_cert_path cfg"
    and "\<forall>p. ci_read_error C p = None"
  shows "load_or_create_ca C cfg files' = (Inr issuer, files')"
proof (cases "files (resolve_ca_key_path C cfg) \<noteq> None \<and> files (resolve_ca_cert_path cfg) \<noteq> None")
  case True
  then have "files' = files"
    using assms(1) by (auto simp: load_or_create_ca_def Let_def split: sum.split_asm)
  with assms(1) show ?thesis by simp
next
  case False
  with assms(1) obtain key_pem cert_pem key where
    created: "create_ca C (resolve_ca_key_path C cfg) (resolve_ca_cert_path cfg) files = (Inr (key_pem, cert_pem), files')"
    and key: "ci_key_pair C key_pem = Inr key" "ci_issuer C cert_pem key = Inr issuer"
    by (auto simp: load_or_create_ca_def Let_def split: sum.split_asm prod.split_asm)
  from create_ca_Inr [OF created assms(2)] assms(3) key show ?thesis
    by (auto simp: load_or_create_ca_def Let_def ca_read_def)
qed

end
