(* ===== verification/Host_Desktop.thy ===== *)
theory Host_Desktop
  imports Host_Platform Gw_App
begin

text \<open>
  The desktop shell, \<^verbatim>\<open>desktop/src-tauri/src/lib.rs\<close>: quoting and running the commands of
  \<open>Host_Platform\<close>, the life cycle of the proxy task, the pump of audit records to the window, and
  the teardown. The window, the tray and the event loop are Tauri's.
\<close>

section \<open>Addresses\<close>

abbreviation squote :: char where
  "squote \<equiv> CHR 0x27"

abbreviation backslash :: char where
  "backslash \<equiv> CHR 0x5C"

definition rsplit_once :: "char \<Rightarrow> string \<Rightarrow> (string \<times> string) option" where
  "rsplit_once c s = map_option (\<lambda>(a, b). (rev b, rev a)) (split_once c (rev s))"

text \<open>\<open>str::parse::<u16>\<close>: an optional plus sign and at least one digit, no overflow.\<close>

fun decimal_value :: "nat \<Rightarrow> string \<Rightarrow> nat option" where
  "decimal_value n [] = Some n"
| "decimal_value n (c # cs) =
     (if is_ascii_digit c then decimal_value (10 * n + (of_char c - 48)) cs else None)"

definition parse_u16 :: "string \<Rightarrow> nat option" where
  "parse_u16 s =
     (let digits = (case s of c # cs \<Rightarrow> if c = CHR ''+'' then cs else s | [] \<Rightarrow> []) in
      if digits = [] then None
      else Option.bind (decimal_value 0 digits) (\<lambda>n. if n < 65536 then Some n else None))"

definition proxy_host_port :: "proxy_config \<Rightarrow> string + string \<times> nat" where
  "proxy_host_port cfg =
     (case rsplit_once CHR '':'' (px_listen_addr cfg) of
        None \<Rightarrow> Inl (''malformed listen_addr `'' @ px_listen_addr cfg @ ''`'')
      | Some (h, p) \<Rightarrow>
          (case parse_u16 p of
             None \<Rightarrow> Inl (''bad port in `'' @ px_listen_addr cfg @ ''`'')
           | Some port \<Rightarrow> Inr (if h = [] \<or> h = ''0.0.0.0'' then ''127.0.0.1'' else h, port)))"

definition cert_path_of :: "proxy_config \<Rightarrow> string" where
  "cert_path_of cfg =
     (case px_ca_cert_path cfg of Some p \<Rightarrow> p | None \<Rightarrow> px_ca_dir cfg @ ''/ctxward-ca.pem'')"

section \<open>Shell lines\<close>

text \<open>The quote is one byte, and no byte of another character, so the loop over characters is one over bytes.\<close>

definition quote_byte :: "char \<Rightarrow> string" where
  "quote_byte ch = (if ch = squote then [squote, backslash, squote, squote] else [ch])"

definition sh_quote :: "string \<Rightarrow> string" where
  "sh_quote token = [squote] @ concat (map quote_byte token) @ [squote]"

fun str_join :: "string \<Rightarrow> string list \<Rightarrow> string" where
  "str_join sep [] = []"
| "str_join sep [x] = x"
| "str_join sep (x # y # ys) = x @ sep @ str_join sep (y # ys)"

definition spec_to_shell_line :: "command_spec \<Rightarrow> string" where
  "spec_to_shell_line spec = str_join '' '' (map sh_quote (cs_program spec # cs_args spec))"

definition elevated_script :: "command_spec list \<Rightarrow> string" where
  "elevated_script specs =
     str_join [CHR 0x0A] (''set -e'' # map spec_to_shell_line (filter cs_elevated specs))"

text \<open>\<open>replace('\\', "\\\\").replace('"', "\\\"")\<close>\<close>

definition osa_escape :: "string \<Rightarrow> string" where
  "osa_escape script =
     str_replace_char CHR 0x22 [backslash, CHR 0x22] (str_replace_char backslash [backslash, backslash] script)"

fun elevation_command :: "target_os \<Rightarrow> string \<Rightarrow> string \<times> string list" where
  "elevation_command Linux script = (''pkexec'', [''sh'', ''-c'', script])"
| "elevation_command MacOs script =
     (''osascript'', [''-e'', ''do shell script '' @ [CHR 0x22] @ osa_escape script @ [CHR 0x22] @
        '' with administrator privileges''])"
| "elevation_command Windows script =
     (''powershell'', [''-NoProfile'', ''-NonInteractive'', ''-Command'',
        ''Start-Process -FilePath '' @ [squote] @ ''cmd.exe'' @ [squote] @ '' -ArgumentList '' @ [squote] @ ''/c'' @ [squote] @
        '','' @ sh_quote script @ '' -Verb RunAs -Wait''])"

fun run_direct :: "host_api \<Rightarrow> command_spec list \<Rightarrow> host_log \<Rightarrow> (string + unit) \<times> host_log" where
  "run_direct P [] done_so_far = (Inr (), done_so_far)"
| "run_direct P (spec # specs) done_so_far =
     (case platform_run P spec done_so_far of
        (Inl e, done') \<Rightarrow> (Inl (cs_program spec @ '': '' @ e), done')
      | (Inr _, done') \<Rightarrow> run_direct P specs done')"

definition show_i32 :: "int \<Rightarrow> string" where
  "show_i32 i = (if i < 0 then ''-'' @ show_nat (nat (- i)) else show_nat (nat i))"

definition apply_specs_blocking ::
  "host_api \<Rightarrow> target_os \<Rightarrow> command_spec list \<Rightarrow> host_log \<Rightarrow> (string + unit) \<times> host_log" where
  "apply_specs_blocking P os specs done0 =
     (case run_direct P (filter (\<lambda>c. \<not> cs_elevated c) specs) done0 of
        (Inl e, done1) \<Rightarrow> (Inl e, done1)
      | (Inr _, done1) \<Rightarrow>
          if filter cs_elevated specs = [] then (Inr (), done1)
          else
            (let (program, args) = elevation_command os (elevated_script specs); done2 = done1 @ [(program, args)]
             in case hp_spawn P program args of
                  Inl e \<Rightarrow> (Inl (''failed to spawn elevation helper: '' @ e), done2)
                | Inr code \<Rightarrow>
                    if code = Some 0 then (Inr (), done2)
                    else (Inl (''elevated batch exited with '' @
                            (case code of Some c \<Rightarrow> show_i32 c | None \<Rightarrow> ''signal'') @
                            '' (user may have cancelled the prompt)''), done2)))"

section \<open>The audit pump\<close>

text \<open>One tick: the records to emit and the new cursor.\<close>

definition pump_tick :: "audit_record list \<Rightarrow> nat \<Rightarrow> audit_record list \<times> nat" where
  "pump_tick snap cursor =
     (if length snap < cursor then ([], length snap) else (drop cursor snap, length snap))"

text \<open>Emitting the records of a tick up to the first failure; the flag says whether there was one.\<close>

fun pump_emit :: "(audit_record \<Rightarrow> string option) \<Rightarrow> audit_record list \<Rightarrow> audit_record list \<times> bool" where
  "pump_emit emit [] = ([], False)"
| "pump_emit emit (r # rs) =
     (case emit r of Some e \<Rightarrow> ([], True) | None \<Rightarrow> (let (out, failed) = pump_emit emit rs in (r # out, failed)))"

text \<open>The loop over the rounds: what the handlers push before each tick. The list ends when the stop signal wins.\<close>

fun pump_loop ::
  "(audit_record \<Rightarrow> string option) \<Rightarrow> audit_record list list \<Rightarrow> audit_store \<Rightarrow> nat \<Rightarrow> audit_record list" where
  "pump_loop emit [] store cursor = []"
| "pump_loop emit (rs # rounds) store cursor =
     (let store' = fold audit_push rs store; (new, cursor') = pump_tick (audit_snapshot store') cursor;
          (out, failed) = pump_emit emit new
      in if failed then out else out @ pump_loop emit rounds store' cursor')"

definition spawn_audit_pump ::
  "(audit_record \<Rightarrow> string option) \<Rightarrow> audit_record list list \<Rightarrow> audit_store \<Rightarrow> audit_record list" where
  "spawn_audit_pump emit rounds store = pump_loop emit rounds store (length (audit_snapshot store))"

section \<open>The shell's state and commands\<close>

record shared =
  dk_stop :: bool
  dk_audit_pump_stop :: bool
  dk_config_path :: string
  dk_proxy_engaged :: bool
  dk_done :: host_log
  dk_events :: "(string \<times> string) list"
  dk_window :: bool

text \<open>\<open>TargetOs::current\<close>, the error of emitting an event, and the texts of the two error types.\<close>

record desktop_env =
  de_os :: "target_os option"
  de_emit :: "string \<Rightarrow> string option"
  de_app_error :: "app_error \<Rightarrow> string"
  de_ca_error :: "ca_error \<Rightarrow> string"

text \<open>The value of \<^verbatim>\<open>CONTEXT_GURD_CONFIG\<close>, if it is set to Unicode text; the window starts shown.\<close>

definition desktop_config_path :: "string option \<Rightarrow> string" where
  "desktop_config_path config_var = (case config_var of Some p \<Rightarrow> p | None \<Rightarrow> ''config/example.yaml'')"

definition shared_new :: "string option \<Rightarrow> shared" where
  "shared_new config_var =
     \<lparr>dk_stop = False, dk_audit_pump_stop = False, dk_config_path = desktop_config_path config_var,
      dk_proxy_engaged = False, dk_done = [], dk_events = [], dk_window = True\<rparr>"

definition is_running :: "shared \<Rightarrow> bool" where
  "is_running s = dk_stop s"

definition proxy_status :: "shared \<Rightarrow> bool" where
  "proxy_status s = is_running s"

definition load_proxy_cfg :: "app_env \<Rightarrow> desktop_env \<Rightarrow> string \<Rightarrow> string + proxy_config" where
  "load_proxy_cfg V D config_path =
     (case app_config_load (av_config V) config_path of
        Inl e \<Rightarrow> Inl (de_app_error D (ConfigErr e))
      | Inr cfg \<Rightarrow>
          (case cfg_proxy cfg of
             Some p \<Rightarrow> Inr p | None \<Rightarrow> Inl ''config has no `proxy` section (set mode: proxy)''))"

definition emit_status :: "desktop_env \<Rightarrow> string \<Rightarrow> string \<Rightarrow> shared \<Rightarrow> (string + unit) \<times> shared" where
  "emit_status D event payload s =
     (case de_emit D event of
        Some e \<Rightarrow> (Inl e, s) | None \<Rightarrow> (Inr (), s\<lparr>dk_events := dk_events s @ [(event, payload)]\<rparr>))"

text \<open>\<open>None\<close> is a panic of \<open>build_state\<close>. The task that runs the proxy does not touch the handle.\<close>

definition start_proxy ::
  "app_env \<Rightarrow> gw_api \<Rightarrow> event_api \<Rightarrow> int \<Rightarrow> desktop_env \<Rightarrow> shared \<Rightarrow> (string + unit) option \<times> shared" where
  "start_proxy V G E now D s =
     (if dk_stop s then (Some (Inl ''proxy already running''), s)
      else case build_state V G E now (dk_config_path s) of
          Err e \<Rightarrow> (Some (Inl (de_app_error D e)), s)
        | Panic \<Rightarrow> (None, s)
        | Ok _ \<Rightarrow>
            (let (r, s') = emit_status D ''proxy://status'' ''running'' (s\<lparr>dk_stop := True, dk_audit_pump_stop := True\<rparr>)
             in (Some r, s')))"

definition stop_proxy :: "desktop_env \<Rightarrow> shared \<Rightarrow> (string + unit) \<times> shared" where
  "stop_proxy D s =
     emit_status D ''proxy://status'' ''stopped'' (s\<lparr>dk_stop := False, dk_audit_pump_stop := False\<rparr>)"

definition run_specs :: "host_api \<Rightarrow> target_os \<Rightarrow> command_spec list \<Rightarrow> shared \<Rightarrow> (string + unit) \<times> shared" where
  "run_specs P os specs s =
     (let (r, done') = apply_specs_blocking P os specs (dk_done s) in (r, s\<lparr>dk_done := done'\<rparr>))"

definition install_ca :: "app_env \<Rightarrow> host_api \<Rightarrow> desktop_env \<Rightarrow> shared \<Rightarrow> (string + unit) \<times> shared" where
  "install_ca V P D s =
     (case de_os D of
        None \<Rightarrow> (Inl ''unsupported OS'', s)
      | Some os \<Rightarrow>
          (case load_proxy_cfg V D (dk_config_path s) of
             Inl e \<Rightarrow> (Inl e, s)
           | Inr cfg \<Rightarrow> run_specs P os (install_ca_commands os (cert_path_of cfg)) s))"

definition uninstall_ca :: "host_api \<Rightarrow> desktop_env \<Rightarrow> shared \<Rightarrow> (string + unit) \<times> shared" where
  "uninstall_ca P D s =
     (case de_os D of
        None \<Rightarrow> (Inl ''unsupported OS'', s)
      | Some os \<Rightarrow> run_specs P os (uninstall_ca_commands os) s)"

definition note_event :: "desktop_env \<Rightarrow> string \<Rightarrow> string \<Rightarrow> shared \<Rightarrow> shared" where
  "note_event D event payload s = snd (emit_status D event payload s)"

definition set_system_proxy :: "app_env \<Rightarrow> host_api \<Rightarrow> desktop_env \<Rightarrow> shared \<Rightarrow> (string + unit) \<times> shared" where
  "set_system_proxy V P D s =
     (case de_os D of
        None \<Rightarrow> (Inl ''unsupported OS'', s)
      | Some os \<Rightarrow>
          (case load_proxy_cfg V D (dk_config_path s) of
             Inl e \<Rightarrow> (Inl e, s)
           | Inr cfg \<Rightarrow>
               (case proxy_host_port cfg of
                  Inl e \<Rightarrow> (Inl e, s)
                | Inr (host, port) \<Rightarrow>
                    (case run_specs P os (set_proxy_commands os host port ''Wi-Fi'') s of
                       (Inl e, s1) \<Rightarrow> (Inl e, s1)
                     | (Inr _, s1) \<Rightarrow>
                         (Inr (), note_event D ''proxy://system'' ''set'' (s1\<lparr>dk_proxy_engaged := True\<rparr>))))))"

definition clear_system_proxy :: "host_api \<Rightarrow> desktop_env \<Rightarrow> shared \<Rightarrow> (string + unit) \<times> shared" where
  "clear_system_proxy P D s =
     (case de_os D of
        None \<Rightarrow> (Inl ''unsupported OS'', s)
      | Some os \<Rightarrow>
          (case run_specs P os (clear_proxy_commands os ''Wi-Fi'') s of
             (Inl e, s1) \<Rightarrow> (Inl e, s1)
           | (Inr _, s1) \<Rightarrow>
               (Inr (), note_event D ''proxy://system'' ''cleared'' (s1\<lparr>dk_proxy_engaged := False\<rparr>))))"

definition ca_cert_pem :: "app_env \<Rightarrow> ca_api \<Rightarrow> ca_files \<Rightarrow> desktop_env \<Rightarrow> shared \<Rightarrow> string + string option" where
  "ca_cert_pem V C files D s =
     (case load_proxy_cfg V D (dk_config_path s) of
        Inl e \<Rightarrow> Inl e
      | Inr cfg \<Rightarrow> (case export_ca_cert_pem C cfg files of Inl e \<Rightarrow> Inl (de_ca_error D e) | Inr pem \<Rightarrow> Inr pem))"

definition teardown :: "host_api \<Rightarrow> desktop_env \<Rightarrow> shared \<Rightarrow> shared" where
  "teardown P D s =
     (let s1 = s\<lparr>dk_stop := False, dk_audit_pump_stop := False\<rparr> in
      case de_os D of
        Some os \<Rightarrow>
          if dk_proxy_engaged s1
          then s1\<lparr>dk_done := snd (apply_specs_blocking P os (clear_proxy_commands os ''Wi-Fi'') (dk_done s1))\<rparr> else s1
      | None \<Rightarrow> s1)"

text \<open>The task that runs the proxy, when \<open>run_proxy\<close> returns: an error is emitted, the handle is left alone.\<close>

definition proxy_task_end :: "desktop_env \<Rightarrow> app_error + unit \<Rightarrow> shared \<Rightarrow> shared" where
  "proxy_task_end D result s =
     (case result of Inl e \<Rightarrow> note_event D ''proxy://error'' (de_app_error D e) s | Inr _ \<Rightarrow> s)"

text \<open>The menu of the tray. Opening the window shows it; quitting runs the exit handler.\<close>

datatype menu_entry = MenuItem string string | Separator

definition tray_menu :: "menu_entry list" where
  "tray_menu =
     [MenuItem ''start_proxy'' ''Start proxy'', MenuItem ''stop_proxy'' ''Stop proxy'', Separator,
      MenuItem ''open_window'' ''Open window'', Separator, MenuItem ''quit'' ''Quit'']"

definition tray_event ::
  "app_env \<Rightarrow> gw_api \<Rightarrow> event_api \<Rightarrow> int \<Rightarrow> host_api \<Rightarrow> desktop_env \<Rightarrow> string \<Rightarrow> shared \<Rightarrow> shared" where
  "tray_event V G E now P D ident s =
     (if ident = ''open_window'' then s\<lparr>dk_window := True\<rparr>
      else if ident = ''start_proxy''
      then (case start_proxy V G E now D s of
              (Some (Inl e), s') \<Rightarrow> note_event D ''proxy://error'' e s' | (_, s') \<Rightarrow> s')
      else if ident = ''stop_proxy'' then snd (stop_proxy D s)
      else if ident = ''quit'' then teardown P D s
      else s)"

lemma tray_event_of_menu:
  assumes "\<forall>label. MenuItem ident label \<notin> set tray_menu"
  shows "tray_event V G E now P D ident s = s"
proof -
  have "MenuItem ''start_proxy'' ''Start proxy'' \<in> set tray_menu" "MenuItem ''stop_proxy'' ''Stop proxy'' \<in> set tray_menu"
    "MenuItem ''open_window'' ''Open window'' \<in> set tray_menu" "MenuItem ''quit'' ''Quit'' \<in> set tray_menu"
    by (simp_all add: tray_menu_def)
  with assms have "ident \<noteq> ''open_window''" "ident \<noteq> ''start_proxy''" "ident \<noteq> ''stop_proxy''" "ident \<noteq> ''quit''"
    by blast+
  then show ?thesis by (simp add: tray_event_def)
qed

text \<open>Closing the window hides it: the proxy goes on.\<close>

definition window_close_requested :: "shared \<Rightarrow> shared" where
  "window_close_requested s = s\<lparr>dk_window := False\<rparr>"

lemma close_keeps_proxy: "proxy_status (window_close_requested s) = proxy_status s"
  by (simp add: proxy_status_def is_running_def window_close_requested_def)

section \<open>The shell as a transition system\<close>

text \<open>A command or the closing of the window, an entry of the tray, the end of the proxy task, or the exit.\<close>

inductive shell_step ::
  "app_env \<Rightarrow> gw_api \<Rightarrow> event_api \<Rightarrow> host_api \<Rightarrow> desktop_env \<Rightarrow> shared \<Rightarrow> shared \<Rightarrow> bool" for V G E P D where
  shell_start: "shell_step V G E P D s (snd (start_proxy V G E now D s))"
| shell_stop: "shell_step V G E P D s (snd (stop_proxy D s))"
| shell_install: "shell_step V G E P D s (snd (install_ca V P D s))"
| shell_uninstall: "shell_step V G E P D s (snd (uninstall_ca P D s))"
| shell_set: "shell_step V G E P D s (snd (set_system_proxy V P D s))"
| shell_clear: "shell_step V G E P D s (snd (clear_system_proxy P D s))"
| shell_tray: "shell_step V G E P D s (tray_event V G E now P D ident s)"
| shell_close: "shell_step V G E P D s (window_close_requested s)"
| shell_proxy_end: "shell_step V G E P D s (proxy_task_end D result s)"
| shell_exit: "shell_step V G E P D s (teardown P D s)"

definition shell_start_state :: "string option \<Rightarrow> shared \<Rightarrow> bool" where
  "shell_start_state config_var s \<longleftrightarrow> s = shared_new config_var"

text \<open>The batches the shell builds, and the programs a batch may start.\<close>

definition shell_batch :: "target_os \<Rightarrow> command_spec list \<Rightarrow> bool" where
  "shell_batch os specs \<longleftrightarrow>
     (\<exists>cert. specs = install_ca_commands os cert) \<or> specs = uninstall_ca_commands os \<or>
     (\<exists>host port. specs = set_proxy_commands os host port ''Wi-Fi'') \<or> specs = clear_proxy_commands os ''Wi-Fi''"

definition batch_starts :: "target_os \<Rightarrow> command_spec list \<Rightarrow> (string \<times> string list) set" where
  "batch_starts os specs =
     (\<lambda>c. (cs_program c, cs_args c)) ` set (filter (\<lambda>c. \<not> cs_elevated c) specs) \<union>
     (if filter cs_elevated specs = [] then {} else {elevation_command os (elevated_script specs)})"

definition shell_inv :: "target_os option \<Rightarrow> string \<Rightarrow> shared \<Rightarrow> bool" where
  "shell_inv target config_path s \<longleftrightarrow>
     dk_stop s = dk_audit_pump_stop s \<and> dk_config_path s = config_path \<and>
     (\<forall>e\<in>set (dk_done s). \<exists>os specs. target = Some os \<and> shell_batch os specs \<and> e \<in> batch_starts os specs)"

lemma shell_batch_intros:
  "shell_batch os (install_ca_commands os cert)" "shell_batch os (uninstall_ca_commands os)"
  "shell_batch os (set_proxy_commands os host port ''Wi-Fi'')" "shell_batch os (clear_proxy_commands os ''Wi-Fi'')"
  by (auto simp: shell_batch_def)

lemma run_direct_log:
  "run_direct P specs d = (r, d') \<Longrightarrow> \<forall>c\<in>set specs. \<not> cs_elevated c \<Longrightarrow>
     set d' \<subseteq> set d \<union> (\<lambda>c. (cs_program c, cs_args c)) ` set specs"
proof (induction specs arbitrary: d)
  case Nil
  then show ?case by simp
next
  case (Cons c specs)
  from Cons.prems Cons.IH [of "d @ [(cs_program c, cs_args c)]"] show ?case
    by (cases "hp_spawn P (cs_program c) (cs_args c)") (auto simp: platform_run_def)
qed

lemma apply_specs_log:
  assumes "apply_specs_blocking P os specs d = (r, d')"
  shows "set d' \<subseteq> set d \<union> batch_starts os specs"
proof -
  obtain r1 d1 where direct: "run_direct P (filter (\<lambda>c. \<not> cs_elevated c) specs) d = (r1, d1)" by fastforce
  then have "set d1 \<subseteq> set d \<union> batch_starts os specs"
    using run_direct_log [OF direct] by (auto simp: batch_starts_def)
  with assms direct show ?thesis
    by (auto simp: apply_specs_blocking_def Let_def batch_starts_def
        split: sum.split_asm if_split_asm prod.split_asm)
qed

lemma run_specs_inv:
  assumes "shell_inv (Some os) cp s" and "shell_batch os specs" and "run_specs P os specs s = (r, s')"
  shows "shell_inv (Some os) cp s'"
proof -
  obtain d' where d': "apply_specs_blocking P os specs (dk_done s) = (r, d')" "s' = s\<lparr>dk_done := d'\<rparr>"
    using assms(3) by (auto simp: run_specs_def split: prod.split_asm)
  with apply_specs_log [OF d'(1)] assms(1,2) show ?thesis by (auto simp: shell_inv_def)
qed

lemma shell_inv_simps [simp]:
  "shell_inv target cp (s\<lparr>dk_events := x\<rparr>) = shell_inv target cp s"
  "shell_inv target cp (s\<lparr>dk_proxy_engaged := b\<rparr>) = shell_inv target cp s"
  "shell_inv target cp (s\<lparr>dk_window := b\<rparr>) = shell_inv target cp s"
  by (simp_all add: shell_inv_def)

lemma emit_status_inv: "emit_status D event payload s = (r, s') \<Longrightarrow> shell_inv target cp s' = shell_inv target cp s"
  by (auto simp: emit_status_def split: option.split_asm)

lemma note_event_inv [simp]: "shell_inv target cp (note_event D event payload s) = shell_inv target cp s"
  by (simp add: note_event_def emit_status_def split: option.split)

lemma shell_inv_handles: "shell_inv target cp s \<Longrightarrow> shell_inv target cp (s\<lparr>dk_stop := b, dk_audit_pump_stop := b\<rparr>)"
  by (simp add: shell_inv_def)

lemma start_proxy_inv:
  assumes "shell_inv target cp s"
  shows "shell_inv target cp (snd (start_proxy V G E now D s))"
  using assms shell_inv_handles [OF assms, of True]
  by (auto simp: start_proxy_def emit_status_def Let_def split: rres.split option.split)

lemma stop_proxy_inv: "shell_inv target cp s \<Longrightarrow> shell_inv target cp (snd (stop_proxy D s))"
  using shell_inv_handles [of target cp s False] by (auto simp: stop_proxy_def emit_status_def split: option.split)

lemma teardown_inv:
  assumes "shell_inv (de_os D) cp s"
  shows "shell_inv (de_os D) cp (teardown P D s)"
proof (cases "de_os D")
  case None
  then show ?thesis using shell_inv_handles [OF assms, of False] by (simp add: teardown_def)
next
  case (Some os)
  let ?s = "s\<lparr>dk_stop := False, dk_audit_pump_stop := False\<rparr>"
  have "shell_inv (Some os) cp (snd (run_specs P os (clear_proxy_commands os ''Wi-Fi'') ?s))"
    using run_specs_inv [OF _ shell_batch_intros(4)] shell_inv_handles [OF assms, of False] Some
    by (metis prod.collapse)
  then show ?thesis using shell_inv_handles [OF assms, of False] Some
    by (simp add: teardown_def run_specs_def Let_def case_prod_unfold)
qed

lemma tray_event_inv:
  assumes "shell_inv (de_os D) cp s"
  shows "shell_inv (de_os D) cp (tray_event V G E now P D ident s)"
proof -
  obtain r t where start: "start_proxy V G E now D s = (r, t)" by fastforce
  from start_proxy_inv [OF assms, of V G E now D] start have "shell_inv (de_os D) cp t" by simp
  moreover note stop_proxy_inv [OF assms, of D] teardown_inv [OF assms, of P] assms
  ultimately show ?thesis by (simp add: tray_event_def start split: option.split sum.split)
qed

lemma proxy_task_end_handles:
  "dk_stop (proxy_task_end D result s) = dk_stop s"
  "dk_audit_pump_stop (proxy_task_end D result s) = dk_audit_pump_stop s"
  by (simp_all add: proxy_task_end_def note_event_def emit_status_def split: sum.split option.split)

text \<open>
  A proxy that has failed counts as running until it is stopped, and until then nobody tells its pump to stop.
\<close>

lemma pump_outlives_failed_proxy:
  assumes "fst (start_proxy V G E now D s) = Some (Inr ())"
  shows "dk_audit_pump_stop (proxy_task_end D (Inl e) (snd (start_proxy V G E now D s)))"
  using assms
  by (auto simp: proxy_task_end_handles start_proxy_def emit_status_def split: if_splits rres.splits option.splits)

lemma failed_proxy_blocks_start:
  assumes "dk_stop s"
  shows "is_running (proxy_task_end D result s)"
    and "fst (start_proxy V G E now D (proxy_task_end D result s)) = Some (Inl ''proxy already running'')"
  using assms
  by (auto simp: is_running_def start_proxy_def proxy_task_end_def note_event_def emit_status_def
      split: sum.split option.split)

lemma shell_step_inv:
  assumes "shell_step V G E P D s t" and "shell_inv (de_os D) cp s"
  shows "shell_inv (de_os D) cp t"
  using assms(1)
proof cases
  case (shell_start now)
  then show ?thesis using start_proxy_inv [OF assms(2)] by simp
next
  case shell_stop
  then show ?thesis using stop_proxy_inv [OF assms(2)] by simp
next
  case shell_install
  then show ?thesis using assms(2) run_specs_inv [OF _ shell_batch_intros(1)]
    by (auto simp: install_ca_def split: option.split sum.split) (metis prod.collapse)
next
  case shell_uninstall
  then show ?thesis using assms(2) run_specs_inv [OF _ shell_batch_intros(2)]
    by (auto simp: uninstall_ca_def split: option.split) (metis prod.collapse)
next
  case shell_set
  then show ?thesis using assms(2) run_specs_inv [OF _ shell_batch_intros(3)]
    by (auto simp: set_system_proxy_def split: option.split sum.split prod.split)
next
  case shell_clear
  then show ?thesis using assms(2) run_specs_inv [OF _ shell_batch_intros(4)]
    by (auto simp: clear_system_proxy_def split: option.split sum.split prod.split)
next
  case (shell_tray now ident)
  then show ?thesis using tray_event_inv [OF assms(2)] by simp
next
  case shell_close
  then show ?thesis using assms(2) by (simp add: window_close_requested_def)
next
  case (shell_proxy_end result)
  then show ?thesis using assms(2) by (simp add: proxy_task_end_def split: sum.split)
next
  case shell_exit
  then show ?thesis using teardown_inv [OF assms(2)] by simp
qed

interpretation shell: transition_system "shell_start_state config_var" "shell_step V G E P D"
    "shell_inv (de_os D) (desktop_config_path config_var)" for config_var V G E P D
proof (unfold_locales, goal_cases)
  case (1 s)
  then show ?case by (simp add: shell_start_state_def shared_new_def shell_inv_def)
next
  case (2 s t)
  then show ?case by (rule shell_step_inv [rotated])
qed

end
