(* ===== verification/Host_Serve.thy ===== *)
theory Host_Serve
  imports Host_Platform Mitm_Handler Gw_App
begin

text \<open>
  The entry points: \<open>src/main.rs\<close>, the dispatch on the mode and the construction of the transparent proxy in
  \<open>src/proxy_mode.rs\<close>, \<open>run\<close> and \<open>serve_reverse\<close> of \<open>src/app.rs\<close>. Listening, hudsucker and axum are
  parameters: the error of binding, of building and of serving.
\<close>

section \<open>The command line\<close>

text \<open>The loop over the arguments: the one after the first \<open>--config\<close>.\<close>

fun config_argument :: "string list \<Rightarrow> string option" where
  "config_argument [] = None"
| "config_argument (arg # args) =
     (if arg = ''--config'' then (case args of path # _ \<Rightarrow> Some path | [] \<Rightarrow> None) else config_argument args)"

definition parse_config_path :: "(string \<Rightarrow> string option) \<Rightarrow> string list \<Rightarrow> string" where
  "parse_config_path env args =
     (case config_argument (drop 1 args) of
        Some path \<Rightarrow> path
      | None \<Rightarrow> (case env ''CONTEXT_GURD_CONFIG'' of Some path \<Rightarrow> path | None \<Rightarrow> ''config/example.yaml''))"

section \<open>The transparent proxy\<close>

text \<open>The principal of local traffic, and the handler that hudsucker calls.\<close>

definition mitm_local_principal :: principal where
  "mitm_local_principal =
     \<lparr>pr_name = ''local'', pr_tenant_id = ''local'', pr_role = ''local'', pr_clearance = Public, pr_allowed_labels = {}\<rparr>"

record ctxward_handler =
  ch_runtime :: runtime_state
  ch_principal :: principal
  ch_classifier :: classifier
  ch_pins :: pin_cache

record listen_env =
  le_parse_addr :: "string \<Rightarrow> string option"
  le_ca :: ca_api
  le_ca_text :: "ca_error \<Rightarrow> string"
  le_hosts :: host_regex_api
  le_proxy_build :: "string option"
  le_proxy_start :: "string option"
  le_bind :: "string \<Rightarrow> string option"
  le_serve :: "string option"

text \<open>What \<open>run_proxy\<close> has built when it starts to listen; the feed is polled from then on.\<close>

record ruleset_feed =
  fd_url :: string
  fd_pubkey :: string
  fd_poll_secs :: nat

record proxy_setup =
  su_addr :: string
  su_issuer :: string
  su_cert_cache_size :: nat
  su_handler :: ctxward_handler
  su_feed :: "ruleset_feed option"

definition ruleset_feed_of :: "proxy_config \<Rightarrow> ruleset_feed option" where
  "ruleset_feed_of cfg =
     (case (px_ruleset_url cfg, px_ruleset_pubkey cfg) of
        (Some url, Some pubkey) \<Rightarrow>
          Some \<lparr>fd_url = url, fd_pubkey = pubkey, fd_poll_secs = max (px_ruleset_poll_secs cfg) 1\<rparr>
      | _ \<Rightarrow> None)"

definition proxy_setup_of ::
  "listen_env \<Rightarrow> runtime_state \<Rightarrow> ca_files \<Rightarrow> (app_error + proxy_setup) \<times> ca_files" where
  "proxy_setup_of L rt files =
     (case cfg_proxy (run_config rt) of
        None \<Rightarrow> (Inl ProxyConfigMissing, files)
      | Some cfg \<Rightarrow>
          (case le_parse_addr L (px_listen_addr cfg) of
             None \<Rightarrow> (Inl (ProxyListenAddr (px_listen_addr cfg)), files)
           | Some addr \<Rightarrow>
               (case load_or_create_ca (le_ca L) cfg files of
                  (Inl e, files') \<Rightarrow> (Inl (CaErr (le_ca_text L e)), files')
                | (Inr issuer, files') \<Rightarrow>
                    (Inr \<lparr>su_addr = addr, su_issuer = issuer, su_cert_cache_size = px_cert_cache_size cfg,
                       su_handler = \<lparr>ch_runtime = rt, ch_principal = mitm_local_principal,
                         ch_classifier = classifier_from_config (le_hosts L) cfg, ch_pins = pin_cache_new cfg\<rparr>,
                       su_feed = ruleset_feed_of cfg\<rparr>, files'))))"

definition run_proxy :: "listen_env \<Rightarrow> app_state \<Rightarrow> ca_files \<Rightarrow> (app_error + unit) \<times> ca_files" where
  "run_proxy L st files =
     (case proxy_setup_of L (st_runtime st) files of
        (Inl e, files') \<Rightarrow> (Inl e, files')
      | (Inr _, files') \<Rightarrow>
          (case le_proxy_build L of
             Some e \<Rightarrow> (Inl (ProxyErr e), files')
           | None \<Rightarrow> (case le_proxy_start L of Some e \<Rightarrow> (Inl (ProxyErr e), files') | None \<Rightarrow> (Inr (), files'))))"

definition serve_reverse :: "listen_env \<Rightarrow> app_state \<Rightarrow> app_error + unit" where
  "serve_reverse L st =
     (case le_bind L (srv_bind (cfg_server (run_config (st_runtime st)))) of
        Some e \<Rightarrow> Inl (BindErr e)
      | None \<Rightarrow> (case le_serve L of Some e \<Rightarrow> Inl (ServeErr e) | None \<Rightarrow> Inr ()))"

definition serve_mode :: "listen_env \<Rightarrow> app_state \<Rightarrow> ca_files \<Rightarrow> (app_error + unit) \<times> ca_files" where
  "serve_mode L st files =
     (case cfg_mode (run_config (st_runtime st)) of
        Reverse \<Rightarrow> (serve_reverse L st, files)
      | Proxy \<Rightarrow> run_proxy L st files)"

text \<open>\<open>app::run\<close>, and the exit code of \<open>main\<close>; \<open>None\<close> is a panic.\<close>

definition app_run ::
  "listen_env \<Rightarrow> app_env \<Rightarrow> gw_api \<Rightarrow> event_api \<Rightarrow> int \<Rightarrow> string \<Rightarrow> ca_files \<Rightarrow> (app_error + unit) option \<times> ca_files" where
  "app_run L V G E now config_path files =
     (case build_state V G E now config_path of
        Ok st \<Rightarrow> (let (r, files') = serve_mode L st files in (Some r, files'))
      | Err e \<Rightarrow> (Some (Inl e), files)
      | Panic \<Rightarrow> (None, files))"

definition main_exit_code ::
  "listen_env \<Rightarrow> app_env \<Rightarrow> gw_api \<Rightarrow> event_api \<Rightarrow> int \<Rightarrow> string list \<Rightarrow> ca_files \<Rightarrow> nat option" where
  "main_exit_code L V G E now args files =
     map_option (\<lambda>r. case r of Inl _ \<Rightarrow> 1 | Inr _ \<Rightarrow> 0)
       (fst (app_run L V G E now (parse_config_path (av_env V) args) files))"

section \<open>The classifier that is in force\<close>

text \<open>After some answers of the feed: the updater runs only when there is one.\<close>

definition classifier_in_force ::
  "listen_env \<Rightarrow> sig_api \<Rightarrow> proxy_setup \<Rightarrow> proxy_config \<Rightarrow> feed_response option list \<Rightarrow> classifier" where
  "classifier_in_force L S setup cfg answers =
     (case su_feed setup of
        None \<Rightarrow> ch_classifier (su_handler setup)
      | Some feed \<Rightarrow>
          ud_classifier (fold (updater_poll (le_hosts L) S (fd_pubkey feed)) answers
            (updater_start (le_hosts L) cfg)))"

lemma proxy_setup_Inr:
  assumes "proxy_setup_of L rt files = (Inr setup, files')"
  obtains cfg where "cfg_proxy (run_config rt) = Some cfg"
    and "ch_classifier (su_handler setup) = classifier_from_config (le_hosts L) cfg"
    and "su_feed setup = ruleset_feed_of cfg" and "ch_runtime (su_handler setup) = rt"
    and "ch_principal (su_handler setup) = mitm_local_principal"
  using assms by (auto simp: proxy_setup_of_def split: option.split_asm sum.split_asm prod.split_asm)

lemma fold_updater_poll:
  "(\<lambda>u v. \<exists>resp. v = updater_poll X S key resp u)\<^sup>*\<^sup>* u (fold (updater_poll X S key) answers u)"
proof (induction answers arbitrary: u)
  case (Cons a answers)
  have "(\<lambda>u v. \<exists>resp. v = updater_poll X S key resp u) u (updater_poll X S key a u)" by blast
  with Cons [of "updater_poll X S key a u"] show ?case by (simp add: converse_rtranclp_into_rtranclp)
qed simp

text \<open>What decides the hosts: the configuration, or a rule-set signed by the configured key.\<close>

lemma classifier_in_force_cases:
  assumes "proxy_setup_of L rt files = (Inr setup, files')" and "cfg_proxy (run_config rt) = Some cfg"
  shows "classifier_in_force L S setup cfg answers = classifier_from_config (le_hosts L) cfg \<or>
    (\<exists>url key bytes rs. px_ruleset_url cfg = Some url \<and> px_ruleset_pubkey cfg = Some key \<and>
       parse_and_verify S bytes key = Ok rs \<and>
       classifier_in_force L S setup cfg answers = classifier_from_ruleset (le_hosts L) rs)"
proof (cases "su_feed setup")
  case None
  with assms show ?thesis by (auto simp: classifier_in_force_def elim!: proxy_setup_Inr)
next
  case (Some feed)
  from assms have "su_feed setup = ruleset_feed_of cfg" by (auto elim!: proxy_setup_Inr)
  with Some obtain url where urls: "px_ruleset_url cfg = Some url" "px_ruleset_pubkey cfg = Some (fd_pubkey feed)"
    by (auto simp: ruleset_feed_of_def split: option.split_asm)
  from updates.reachable_invariant [where X = "le_hosts L" and cfg = cfg, OF refl fold_updater_poll]
  have "updater_inv (le_hosts L) S (fd_pubkey feed) cfg (fold (updater_poll (le_hosts L) S (fd_pubkey feed)) answers
      (updater_start (le_hosts L) cfg))" .
  then consider "fold (updater_poll (le_hosts L) S (fd_pubkey feed)) answers (updater_start (le_hosts L) cfg) = updater_start (le_hosts L) cfg"
    | rs bytes where "parse_and_verify S bytes (fd_pubkey feed) = Ok rs"
        "ud_classifier (fold (updater_poll (le_hosts L) S (fd_pubkey feed)) answers (updater_start (le_hosts L) cfg)) =
          classifier_from_ruleset (le_hosts L) rs"
    by (auto simp: updater_inv_def)
  then show ?thesis
    using Some urls by cases (auto simp: classifier_in_force_def updater_start_def)
qed

end
