(* ===== verification/Host_Claims.thy ===== *)
theory Host_Claims
  imports Host_Desktop Host_Serve Gw_Demo
begin

text \<open>
  The properties of the desktop shell and of the certificate authority: a shell reads back exactly the
  commands of an elevated script, what is started on the host, the pump of audit records, and the files
  of the authority.
\<close>

section \<open>Reading a shell script\<close>

text \<open>
  The part of the POSIX shell grammar a quoted script uses: single quotes, a backslash before a
  character, blanks between words and newlines between commands. Any character with another meaning
  outside quotes gives \<open>None\<close>.
\<close>

definition sh_plain :: "char \<Rightarrow> bool" where
  "sh_plain c \<longleftrightarrow> is_ascii_alphanumeric c \<or> c \<in> set ''-_./:''"

definition close_word :: "string option \<Rightarrow> string list \<Rightarrow> string list" where
  "close_word w ws = (case w of None \<Rightarrow> ws | Some x \<Rightarrow> ws @ [x])"

definition close_line :: "string list \<Rightarrow> string list list \<Rightarrow> string list list" where
  "close_line ws ls = (if ws = [] then ls else ls @ [ws])"

definition extend_word :: "string option \<Rightarrow> char \<Rightarrow> string option" where
  "extend_word w c = Some ((case w of None \<Rightarrow> [] | Some x \<Rightarrow> x) @ [c])"

fun sh_read :: "bool \<Rightarrow> string option \<Rightarrow> string list \<Rightarrow> string list list \<Rightarrow> string \<Rightarrow> string list list option" where
  "sh_read q w ws ls [] = (if q then None else Some (close_line (close_word w ws) ls))"
| "sh_read True w ws ls (c # cs) =
     (if c = squote then sh_read False w ws ls cs else sh_read True (extend_word w c) ws ls cs)"
| "sh_read False w ws ls (c # cs) =
     (if c = squote then sh_read True (Some (case w of None \<Rightarrow> [] | Some x \<Rightarrow> x)) ws ls cs
      else if c = backslash then
        (case cs of [] \<Rightarrow> None | d # ds \<Rightarrow> if d = CHR 0x0A then None else sh_read False (extend_word w d) ws ls ds)
      else if c = CHR '' '' then sh_read False None (close_word w ws) ls cs
      else if c = CHR 0x0A then sh_read False None [] (close_line (close_word w ws) ls) cs
      else if sh_plain c then sh_read False (extend_word w c) ws ls cs else None)"

definition sh_script :: "string \<Rightarrow> string list list option" where
  "sh_script s = sh_read False None [] [] s"

lemma sh_read_quoted:
  "sh_read True (Some x) ws ls (concat (map quote_byte token) @ squote # rest) = sh_read False (Some (x @ token)) ws ls rest"
  by (induction token arbitrary: x) (auto simp: quote_byte_def extend_word_def)

lemma sh_read_sh_quote: "sh_read False None ws ls (sh_quote token @ rest) = sh_read False (Some token) ws ls rest"
  by (simp add: sh_quote_def sh_read_quoted)

lemma sh_read_words:
  assumes "tokens \<noteq> []"
  shows "sh_read False None ws ls (str_join '' '' (map sh_quote tokens) @ rest) =
    sh_read False (Some (last tokens)) (ws @ butlast tokens) ls rest"
  using assms
proof (induction tokens arbitrary: ws rule: list_nonempty_induct)
  case (single t)
  then show ?case by (simp add: sh_read_sh_quote)
next
  case (cons t ts)
  then show ?case by (cases ts) (simp_all add: sh_read_sh_quote close_word_def)
qed

abbreviation argv :: "command_spec \<Rightarrow> string list" where
  "argv c \<equiv> cs_program c # cs_args c"

lemma sh_read_line:
  "sh_read False None [] ls (spec_to_shell_line c @ rest) =
     sh_read False (Some (last (argv c))) (butlast (argv c)) ls rest"
  using sh_read_words [of "argv c" "[]" ls rest] by (simp only: spec_to_shell_line_def) simp

lemma close_argv: "close_line (close_word (Some (last (argv c))) (butlast (argv c))) ls = ls @ [argv c]"
  by (auto simp: close_line_def close_word_def)

lemma str_join_snd: "str_join sep (x # xs) = x @ concat (map (\<lambda>y. sep @ y) xs)"
  by (induction xs arbitrary: x) auto

lemma sh_read_lines:
  "sh_read False (Some (last (argv c))) (butlast (argv c)) ls
     (concat (map (\<lambda>y. [CHR 0x0A] @ y) (map spec_to_shell_line cs))) = Some (ls @ map argv (c # cs))"
proof (induction cs arbitrary: c ls)
  case Nil
  then show ?case using close_argv [of c ls] by simp
next
  case (Cons d cs)
  then show ?case using close_argv [of c ls] by (simp add: sh_read_line)
qed

text \<open>
  (C29) A shell reads the script of a batch as \<open>set -e\<close> followed by exactly the elevated commands, each with
  exactly its program and arguments, whatever bytes they hold: no argument is split, joined or interpreted.
\<close>

theorem elevated_script_reads_back:
  "sh_script (elevated_script specs) =
     Some ([''set'', ''-e''] # map (\<lambda>c. cs_program c # cs_args c) (filter cs_elevated specs))"
proof -
  have start: "sh_script (''set -e'' @ rest) = sh_read False (Some ''-e'') [''set''] [] rest" for rest
    by (simp add: sh_script_def extend_word_def close_word_def sh_plain_def is_ascii_alphanumeric_def
        is_ascii_upper_def is_ascii_lower_def is_ascii_digit_def)
  show ?thesis
  proof (cases "filter cs_elevated specs")
    case Nil
    then show ?thesis using start [of "[]"] by (simp add: elevated_script_def close_word_def close_line_def)
  next
    case (Cons c cs)
    define tail where "tail = concat (map (\<lambda>y. [CHR 0x0A] @ y) (map spec_to_shell_line cs))"
    have "elevated_script specs = ''set -e'' @ CHR 0x0A # spec_to_shell_line c @ tail"
      using Cons by (simp only: elevated_script_def str_join_snd tail_def) simp
    moreover have "sh_read False None [] ls (spec_to_shell_line c @ tail) = Some (ls @ map argv (c # cs))" for ls
      unfolding tail_def by (simp only: sh_read_line sh_read_lines)
    ultimately show ?thesis by (simp only: start Cons) (simp add: close_word_def close_line_def)
  qed
qed

section \<open>The AppleScript literal\<close>

text \<open>Reading the body of an AppleScript string literal up to its closing quote.\<close>

fun osa_read :: "string \<Rightarrow> (string \<times> string) option" where
  "osa_read [] = None"
| "osa_read (c # cs) =
     (if c = CHR 0x22 then Some ([], cs)
      else if c = backslash then
        (case cs of
           [] \<Rightarrow> None
         | d # ds \<Rightarrow>
             if d = backslash \<or> d = CHR 0x22 then map_option (\<lambda>(s, rest). (d # s, rest)) (osa_read ds) else None)
      else map_option (\<lambda>(s, rest). (c # s, rest)) (osa_read cs))"

definition osa_byte :: "char \<Rightarrow> string" where
  "osa_byte c = (if c = backslash \<or> c = CHR 0x22 then [backslash, c] else [c])"

lemma osa_escape_bytes: "osa_escape s = concat (map osa_byte s)"
  by (induction s) (auto simp: osa_escape_def str_replace_char_def osa_byte_def)

lemma osa_read_escape: "osa_read (osa_escape s @ CHR 0x22 # rest) = Some (s, rest)"
  by (induction s) (auto simp: osa_escape_bytes osa_byte_def)

section \<open>What is started\<close>

lemma platform_run_direct:
  "\<not> cs_elevated c \<Longrightarrow> platform_run P c d = (hp_spawn P (cs_program c) (cs_args c), d @ [(cs_program c, cs_args c)])"
  by (simp add: platform_run_def)

abbreviation started :: "command_spec \<Rightarrow> string \<times> string list" where
  "started c \<equiv> (cs_program c, cs_args c)"

lemma run_direct_prefix:
  assumes "\<forall>c\<in>set specs. \<not> cs_elevated c" and "run_direct P specs d = (r, d')"
  shows "\<exists>n. d' = d @ map started (take n specs) \<and> (r = Inr () \<longrightarrow> n = length specs)"
  using assms
proof (induction specs arbitrary: d)
  case Nil
  then show ?case by auto
next
  case (Cons c specs)
  show ?case
  proof (cases "hp_spawn P (cs_program c) (cs_args c)")
    case (Inl e)
    with Cons.prems show ?thesis by (auto simp: platform_run_direct intro!: exI [of _ 1])
  next
    case (Inr code)
    with Cons.prems have "run_direct P specs (d @ [started c]) = (r, d')" by (simp add: platform_run_direct)
    from Cons.IH [OF _ this] Cons.prems(1) obtain n where "d' = (d @ [started c]) @ map started (take n specs)"
      "r = Inr () \<longrightarrow> n = length specs" by auto
    then show ?thesis by (intro exI [of _ "Suc n"]) simp
  qed
qed

text \<open>
  Applying a batch starts the commands that need no rights in their order, and then at most one more
  program, the elevation helper with the script of all the others; nothing that needs rights is ever started by
  itself. The batch succeeds only when all of that was started and the helper, if there was work for it, came back
  with exit code zero.
\<close>

theorem one_privilege_prompt:
  assumes "apply_specs_blocking P os specs d = (r, d')"
  shows "\<exists>n helper. d' = d @ map (\<lambda>c. (cs_program c, cs_args c)) (take n (filter (\<lambda>c. \<not> cs_elevated c) specs)) @ helper \<and>
    helper \<in> {[], [elevation_command os (elevated_script specs)]} \<and>
    (helper \<noteq> [] \<longrightarrow> filter cs_elevated specs \<noteq> []) \<and>
    (r = Inr () \<longrightarrow> length (filter (\<lambda>c. \<not> cs_elevated c) specs) \<le> n \<and>
       (filter cs_elevated specs \<noteq> [] \<longrightarrow>
          helper \<noteq> [] \<and> case_prod (hp_spawn P) (elevation_command os (elevated_script specs)) = Inr (Some 0)))"
proof -
  let ?plain = "filter (\<lambda>c. \<not> cs_elevated c) specs"
  obtain r1 d1 where direct: "run_direct P ?plain d = (r1, d1)" by fastforce
  then obtain n where n: "d1 = d @ map started (take n ?plain)" "r1 = Inr () \<longrightarrow> n = length ?plain"
    using run_direct_prefix [of ?plain P d r1 d1] by auto
  show ?thesis
  proof (cases r1)
    case (Inl e)
    with assms direct n show ?thesis
      by (intro exI [of _ n] exI [of _ "[]"]) (auto simp: apply_specs_blocking_def)
  next
    case (Inr u)
    show ?thesis
    proof (cases "filter cs_elevated specs = []")
      case True
      with assms direct n Inr show ?thesis
        by (intro exI [of _ n] exI [of _ "[]"]) (auto simp: apply_specs_blocking_def)
    next
      case False
      with assms direct n Inr show ?thesis
        by (intro exI [of _ n] exI [of _ "[elevation_command os (elevated_script specs)]"])
          (auto simp: apply_specs_blocking_def Let_def split: prod.split_asm sum.split_asm if_split_asm)
    qed
  qed
qed

text \<open>A host where every program starts and comes back with a given exit code.\<close>

definition obliging_host :: "int option \<Rightarrow> host_api" where
  "obliging_host code = \<lparr>hp_spawn = (\<lambda>_ _. Inr code)\<rparr>"

theorem one_privilege_prompt_witness:
  "\<exists>n helper. [(''pkexec'', [''sh'', ''-c'', elevated_script (uninstall_ca_commands Linux)])] =
     take n (map (\<lambda>c. (cs_program c, cs_args c)) (filter (\<lambda>c. \<not> cs_elevated c) (uninstall_ca_commands Linux))) @ helper \<and> helper \<noteq> []"
proof -
  have run: "apply_specs_blocking (obliging_host (Some 0)) Linux (uninstall_ca_commands Linux) [] =
      (Inr (), [(''pkexec'', [''sh'', ''-c'', elevated_script (uninstall_ca_commands Linux)])])"
    by (simp add: apply_specs_blocking_def command_spec_new_def obliging_host_def)
  have some: "filter cs_elevated (uninstall_ca_commands Linux) \<noteq> []" by (simp add: command_spec_new_def)
  from one_privilege_prompt [OF run] some show ?thesis unfolding take_map by fastforce
qed

section \<open>The audit pump\<close>

lemma pump_emit_all: "\<forall>r. emit r = None \<Longrightarrow> pump_emit emit rs = (rs, False)"
  by (induction rs) simp_all

lemma pump_round:
  assumes "audit_store_inv s" and "\<forall>r. emit r = None" and "cursor = length (as_records s)"
    and "s' = fold audit_push rs s"
  shows "pump_loop emit (rs # rounds) s cursor =
      drop cursor (as_records s') @ pump_loop emit rounds s' (length (as_records s'))"
    and "length (as_records s') = min (as_capacity s) (cursor + length rs)"
    and "cursor + length rs \<le> as_capacity s \<Longrightarrow> as_records s' = as_records s @ rs"
proof -
  have s': "s' = \<lparr>as_capacity = as_capacity s, as_records = last_n (as_capacity s) (as_records s @ rs)\<rparr>"
    using assms(1,4) audit_push_all [OF assms(1), of rs] by simp
  then show len: "length (as_records s') = min (as_capacity s) (cursor + length rs)"
    using assms(3) by (simp add: last_n_def)
  have "cursor \<le> length (as_records s')"
    using len assms(1,3) by (simp add: audit_store_inv_def)
  then show "pump_loop emit (rs # rounds) s cursor =
      drop cursor (as_records s') @ pump_loop emit rounds s' (length (as_records s'))"
    using assms(2,4) by (simp add: pump_tick_def audit_snapshot_def pump_emit_all Let_def)
  show "cursor + length rs \<le> as_capacity s \<Longrightarrow> as_records s' = as_records s @ rs"
    using s' assms(3) by (simp add: last_n_all)
qed

lemma fold_push_inv: "audit_store_inv s \<Longrightarrow> audit_store_inv (fold audit_push rs s)"
  by (induction rs arbitrary: s) (simp_all add: audit_push_inv)

lemma pump_length:
  assumes "audit_store_inv s" and "\<forall>r. emit r = None"
  shows "length (pump_loop emit rounds s (length (as_records s))) =
    min (as_capacity s - length (as_records s)) (length (concat rounds))"
  using assms
proof (induction rounds arbitrary: s)
  case Nil
  then show ?case by simp
next
  case (Cons rs rounds)
  let ?s = "fold audit_push rs s"
  have "as_capacity ?s = as_capacity s" using audit_push_all [OF Cons.prems(1), of rs] by simp
  with Cons.IH [OF fold_push_inv [OF Cons.prems(1), of rs] Cons.prems(2)]
    pump_round(1) [OF Cons.prems refl refl, of rs rounds] pump_round(2) [OF Cons.prems refl refl, of rs] Cons.prems(1)
  show ?case by (simp add: audit_store_inv_def min_def split: if_split_asm; linarith)
qed

lemma pump_in_order:
  assumes "audit_store_inv s" and "\<forall>r. emit r = None"
    and "length (as_records s) + length (concat rounds) \<le> as_capacity s"
  shows "pump_loop emit rounds s (length (as_records s)) = concat rounds"
  using assms
proof (induction rounds arbitrary: s)
  case Nil
  then show ?case by simp
next
  case (Cons rs rounds)
  let ?s = "fold audit_push rs s"
  have "as_capacity ?s = as_capacity s" using audit_push_all [OF Cons.prems(1), of rs] by simp
  moreover have "as_records ?s = as_records s @ rs"
    using pump_round(3) [OF Cons.prems(1,2) refl refl, of rs] Cons.prems(3) by simp
  ultimately show ?case
    using Cons.IH [OF fold_push_inv [OF Cons.prems(1), of rs] Cons.prems(2)]
      pump_round(1) [OF Cons.prems(1,2) refl refl, of rs rounds] Cons.prems(3) by simp
qed

text \<open>
  (C33) The pump to the window emits every record once and in order as long as the ring buffer has not
  filled up since it started; but over its whole life it emits as many records as there were free places in the
  buffer, and no more: once the buffer is full its cursor never falls behind the length again and the feed is silent.
\<close>

theorem audit_feed_stops_when_ring_is_full:
  assumes "audit_store_inv store" and "\<forall>r. emit r = None"
  shows "(length (audit_snapshot store) + length (concat rounds) \<le> as_capacity store \<longrightarrow>
      spawn_audit_pump emit rounds store = concat rounds) \<and>
    length (spawn_audit_pump emit rounds store) =
      min (as_capacity store - length (audit_snapshot store)) (length (concat rounds))"
  using pump_length [OF assms, of rounds] pump_in_order [OF assms, of rounds]
  by (simp add: spawn_audit_pump_def audit_snapshot_def)

theorem audit_feed_stops_when_ring_is_full_witness:
  "\<forall>r. length (spawn_audit_pump (\<lambda>_. None) [replicate 5 r, replicate 5 r] (audit_store_new 3)) = 3"
proof
  fix r
  have inv: "audit_store_inv (audit_store_new 3)" by (simp add: audit_store_new_def audit_set_capacity_inv)
  have empty: "audit_snapshot (audit_store_new 3) = []" "as_capacity (audit_store_new 3) = 3"
    by (simp_all add: audit_store_new_def audit_set_capacity_def audit_store_default_def audit_snapshot_def
        pop_to_capacity_last_n last_n_def)
  from audit_feed_stops_when_ring_is_full [OF inv, of "\<lambda>_. None" "[replicate 5 r, replicate 5 r]"]
  show "length (spawn_audit_pump (\<lambda>_. None) [replicate 5 r, replicate 5 r] (audit_store_new 3)) = 3" by (simp add: empty)
qed

section \<open>The certificate authority\<close>

text \<open>
  (C32) When a root certificate has been created, no other file has changed, and starting again with the files gives
  the same issuer and writes nothing. On Unix its key is then readable by its owner only; elsewhere the code sets no
  mode, and the file keeps the one it had or has that of a new file.
\<close>

theorem root_ca_is_stable:
  assumes "load_or_create_ca C cfg files = (Inr issuer, files')"
    and "resolve_ca_key_path C cfg \<noteq> resolve_ca_cert_path cfg"
    and "\<forall>p. ci_read_error C p = None"
  shows "load_or_create_ca C cfg files' = (Inr issuer, files') \<and>
    (\<forall>p. p \<notin> {resolve_ca_key_path C cfg, resolve_ca_cert_path cfg} \<longrightarrow> files' p = files p) \<and>
    (files' \<noteq> files \<longrightarrow> map_option cf_mode (files' (resolve_ca_key_path C cfg)) =
      Some (if ci_unix C then 384
            else case files (resolve_ca_key_path C cfg) of Some f \<Rightarrow> cf_mode f | None \<Rightarrow> ci_umask_mode C))"
proof -
  have "files' = files \<or> (\<exists>key_pem cert_pem.
      create_ca C (resolve_ca_key_path C cfg) (resolve_ca_cert_path cfg) files = (Inr (key_pem, cert_pem), files'))"
    using assms(1) by (auto simp: load_or_create_ca_def Let_def split: sum.split_asm prod.split_asm if_split_asm)
  with create_ca_Inr [OF _ assms(2)] load_or_create_ca_again [OF assms] show ?thesis
    unfolding key_file_mode_def by fastforce
qed

definition host_proxy :: proxy_config where
  "host_proxy =
     \<lparr>px_listen_addr = ''0.0.0.0:8888'', px_ca_dir = ''certs'', px_ca_key_path = None, px_ca_cert_path = None,
      px_ca_key_path_env = ''CA'', px_leaf_ttl_days = 1, px_cert_cache_size = 1, px_intercept = [], px_passthrough = [],
      px_default_action = Passthrough, px_signs_body = [], px_per_app_rules = [],
      px_pin_fallback = pin_fallback_config_default, px_ruleset_url = None, px_ruleset_pubkey = None,
      px_ruleset_poll_secs = 60\<rparr>"

definition host_ca :: ca_api where
  "host_ca =
     \<lparr>ci_env = (\<lambda>_. None), ci_read_error = (\<lambda>_. None), ci_create_dir = (\<lambda>_. None), ci_parent = (\<lambda>_. Some ''certs''),
      ci_write_error = (\<lambda>_. None), ci_chmod_error = (\<lambda>_. None), ci_umask_mode = 420, ci_unix = True, ci_generate_key = Inr ''key'', ci_params_new = None,
      ci_self_signed = (\<lambda>_ _. Inr ''cert''), ci_key_pem = id,
      ci_key_pair = Inr, ci_issuer = (\<lambda>c k. Inr (c @ k))\<rparr>"

lemma host_ca_simps:
  "ci_env host_ca x = None" "ci_read_error host_ca x = None" "ci_create_dir host_ca x = None"
  "ci_parent host_ca x = Some ''certs''" "ci_write_error host_ca x = None" "ci_chmod_error host_ca x = None"
  "generate_root_ca host_ca = Inr (''key'', ''cert'')" "ci_key_pair host_ca x = Inr x" "ci_issuer host_ca x y = Inr (x @ y)"
  "ci_unix host_ca"
  by (simp_all add: host_ca_def generate_root_ca_def)

theorem root_ca_is_stable_witness:
  "\<exists>files. load_or_create_ca host_ca host_proxy (\<lambda>_. None) = (Inr ''certkey'', files) \<and>
     load_or_create_ca host_ca host_proxy files = (Inr ''certkey'', files) \<and>
     map_option cf_mode (files ''certs/ctxward-ca.key'') = Some 384"
proof -
  have paths: "resolve_ca_key_path host_ca host_proxy = ''certs/ctxward-ca.key''"
    "resolve_ca_cert_path host_proxy = ''certs/ctxward-ca.pem''"
    by (simp_all add: resolve_ca_key_path_def resolve_ca_cert_path_def host_ca_simps host_proxy_def path_join_def)
  obtain files where created: "load_or_create_ca host_ca host_proxy (\<lambda>_. None) = (Inr ''certkey'', files)"
    "files ''certs/ctxward-ca.pem'' \<noteq> None"
    by (simp add: load_or_create_ca_def paths Let_def create_ca_def write_protected_def fs_write_def
        host_ca_simps)
  then have "files \<noteq> (\<lambda>_. None)" by auto
  with root_ca_is_stable [OF created(1)] created(1) show ?thesis by (simp add: paths host_ca_simps)
qed

section \<open>The shell\<close>

lemma run_direct_starts:
  assumes "\<forall>program args. \<exists>code. hp_spawn P program args = Inr code" and "\<forall>c\<in>set specs. \<not> cs_elevated c"
  shows "run_direct P specs d = (Inr (), d @ map started specs)"
  using assms(2)
proof (induction specs arbitrary: d)
  case Nil
  then show ?case by simp
next
  case (Cons c specs)
  obtain code where "hp_spawn P (cs_program c) (cs_args c) = Inr code" using assms(1) by blast
  with Cons show ?case by (simp add: platform_run_def)
qed

text \<open>
  (C30) Whatever the order of the commands from the window, the tray and the exit: the stop handles of the proxy
  and of its pump are set together and cleared together, the end of the proxy task (also in an error) leaves both as
  they are, and every program ever started is a command without rights, or the elevation helper, of one of the four
  batches the shell builds for this host.
\<close>

theorem shell_starts_only_its_batches:
  assumes "shell_start_state config_var s" and "(shell_step V G E P D)\<^sup>*\<^sup>* s t"
  shows "dk_stop t = dk_audit_pump_stop t \<and>
    (\<forall>result. dk_stop (proxy_task_end D result t) = dk_stop t \<and>
      dk_audit_pump_stop (proxy_task_end D result t) = dk_audit_pump_stop t) \<and>
    (\<forall>e\<in>set (dk_done t). \<exists>os specs. de_os D = Some os \<and> shell_batch os specs \<and> e \<in> batch_starts os specs)"
  using shell.reachable_invariant [OF assms] proxy_task_end_handles by (simp add: shell_inv_def)

definition host_shell :: shared where
  "host_shell = shared_new (Some ''gw.yml'')"

definition linux_desktop :: desktop_env where
  "linux_desktop = \<lparr>de_os = Some Linux, de_emit = (\<lambda>_. None), de_app_error = (\<lambda>_. []), de_ca_error = (\<lambda>_. [])\<rparr>"

lemma host_shell_start: "shell_start_state (Some ''gw.yml'') host_shell"
  by (simp add: shell_start_state_def host_shell_def)

theorem shell_starts_only_its_batches_witness:
  "\<exists>os specs. shell_batch os specs \<and>
     (''gsettings'', [''set'', ''org.gnome.system.proxy'', ''mode'', ''none'']) \<in> batch_starts os specs"
proof -
  let ?t = "snd (clear_system_proxy (obliging_host (Some 0)) linux_desktop host_shell)"
  have run: "shell_step V G E (obliging_host (Some 0)) linux_desktop host_shell ?t" for V G E by (rule shell_clear)
  have "(''gsettings'', [''set'', ''org.gnome.system.proxy'', ''mode'', ''none'']) \<in> set (dk_done ?t)"
    by (simp add: clear_system_proxy_def linux_desktop_def run_specs_def apply_specs_blocking_def obliging_host_def
        platform_run_def command_spec_new_def host_shell_def shared_new_def note_event_def emit_status_def)
  with shell_starts_only_its_batches [OF host_shell_start r_into_rtranclp [of "shell_step _ _ _ _ _", OF run]] show ?thesis by blast
qed

text \<open>
  (C34) Setting the system proxy on Linux or Windows is reported as done, and the shell takes it as
  engaged, whenever the programs could be started: their exit codes are not looked at, so a proxy that no program
  accepted counts as set.
\<close>

theorem proxy_counts_as_set_despite_exit_codes:
  assumes "de_os D = Some Linux \<or> de_os D = Some Windows"
    and "load_proxy_cfg V D (dk_config_path s) = Inr cfg" and "proxy_host_port cfg = Inr (host, port)"
    and "\<forall>program args. \<exists>code. hp_spawn P program args = Inr code"
  shows "\<exists>t. set_system_proxy V P D s = (Inr (), t) \<and> dk_proxy_engaged t"
proof -
  have direct: "apply_specs_blocking P os (set_proxy_commands os host port ''Wi-Fi'') d =
      (Inr (), d @ map started (set_proxy_commands os host port ''Wi-Fi''))" if "os \<in> {Linux, Windows}" for os d
    using run_direct_starts [OF assms(4), of "set_proxy_commands os host port ''Wi-Fi''"] that
    by (auto simp: apply_specs_blocking_def command_spec_new_def)
  from assms(1) show ?thesis
    using assms(2,3) direct [of Linux] direct [of Windows]
    by (auto simp: set_system_proxy_def run_specs_def note_event_def emit_status_def split: option.split)
qed

definition host_io :: config_io where
  "host_io =
     \<lparr>io_read = (\<lambda>_. Inr []), io_yaml = (\<lambda>_. Inr (demo_config\<lparr>cfg_mode := Proxy, cfg_proxy := Some host_proxy\<rparr>)),
      io_toml = (\<lambda>_. Inl []), io_extension = (\<lambda>_. Some ''yml'')\<rparr>"

definition host_env :: app_env where
  "host_env = \<lparr>av_config = host_io, av_url_parse = Some, av_env = (\<lambda>_. None), av_presidio_build = None, av_opa_build = None,
     av_client_build = None, av_audit_open = (\<lambda>_. Inr []), av_metrics_error = None, av_review_file = (\<lambda>_. (None, True, [])),
     av_opa_health = (\<lambda>_. Inl []), av_presidio_health = (\<lambda>_. Inl []), av_opa_error_text = (\<lambda>_. []),
     av_presidio_error_text = (\<lambda>_. [])\<rparr>"

text \<open>Every command of the batch fails with exit code 1.\<close>

theorem proxy_counts_as_set_despite_exit_codes_witness:
  "\<exists>t. set_system_proxy host_env (obliging_host (Some 1)) linux_desktop host_shell = (Inr (), t) \<and> dk_proxy_engaged t"
proof (rule proxy_counts_as_set_despite_exit_codes)
  show "de_os linux_desktop = Some Linux \<or> de_os linux_desktop = Some Windows" by (simp add: linux_desktop_def)
  show "load_proxy_cfg host_env linux_desktop (dk_config_path host_shell) = Inr host_proxy" by code_simp
  show "proxy_host_port host_proxy = Inr (''127.0.0.1'', 8888)"
    by (simp add: proxy_host_port_def host_proxy_def rsplit_once_def parse_u16_def is_ascii_digit_def)
  show "\<forall>program args. \<exists>code. hp_spawn (obliging_host (Some 1)) program args = Inr code" by (simp add: obliging_host_def)
qed

section \<open>The transparent proxy's hosts\<close>

text \<open>
  (C31) Which hosts the proxy opens up is decided by its configuration or by a rule-set signed with the
  configured key: when no key is configured, or no feed, no answer of any server changes the classifier, and the
  handler serves the local principal with the runtime it was started with.
\<close>

theorem hosts_decided_by_config_or_key:
  assumes "proxy_setup_of L rt files = (Inr setup, files')" and "cfg_proxy (run_config rt) = Some cfg"
  shows "(classifier_in_force L S setup cfg answers = classifier_from_config (le_hosts L) cfg \<or>
      (\<exists>url key bytes rs. px_ruleset_url cfg = Some url \<and> px_ruleset_pubkey cfg = Some key \<and>
         parse_and_verify S bytes key = Ok rs \<and>
         classifier_in_force L S setup cfg answers = classifier_from_ruleset (le_hosts L) rs)) \<and>
    (px_ruleset_url cfg = None \<or> px_ruleset_pubkey cfg = None \<longrightarrow>
       classifier_in_force L S setup cfg answers = classifier_from_config (le_hosts L) cfg) \<and>
    ch_runtime (su_handler setup) = rt \<and> ch_principal (su_handler setup) = mitm_local_principal"
  using classifier_in_force_cases [OF assms, of S answers] assms by (auto elim!: proxy_setup_Inr)

definition host_runtime :: runtime_state where
  "host_runtime = demo_runtime\<lparr>run_config := demo_config\<lparr>cfg_mode := Proxy,
     cfg_proxy := Some (host_proxy\<lparr>px_ruleset_url := Some ''http://rules''\<rparr>)\<rparr>\<rparr>"

definition host_matching :: host_regex_api where
  "host_matching = \<lparr>hx_error = (\<lambda>_. False), hx_is_match = (\<lambda>_ _. False)\<rparr>"

definition host_listen :: listen_env where
  "host_listen =
     \<lparr>le_parse_addr = Some, le_ca = host_ca, le_ca_text = (\<lambda>_. []), le_hosts = host_matching,
      le_proxy_build = None, le_proxy_start = None, le_bind = (\<lambda>_. None), le_serve = None\<rparr>"

text \<open>A feed without a key: its answers are ignored.\<close>

theorem hosts_decided_by_config_or_key_witness:
  "\<exists>setup files. proxy_setup_of host_listen host_runtime (\<lambda>_. None) = (Inr setup, files) \<and>
     (\<forall>S answers. classifier_in_force host_listen S setup (host_proxy\<lparr>px_ruleset_url := Some ''http://rules''\<rparr>) answers =
        classifier_from_config host_matching (host_proxy\<lparr>px_ruleset_url := Some ''http://rules''\<rparr>))"
proof -
  let ?cfg = "host_proxy\<lparr>px_ruleset_url := Some ''http://rules''\<rparr>"
  have cfg: "cfg_proxy (run_config host_runtime) = Some ?cfg" by (simp add: host_runtime_def)
  have "\<exists>files. load_or_create_ca host_ca ?cfg (\<lambda>_. None) = (Inr ''certkey'', files)"
    by (simp add: load_or_create_ca_def Let_def create_ca_def write_protected_def fs_write_def host_ca_simps)
  then obtain su files where run: "proxy_setup_of host_listen host_runtime (\<lambda>_. None) = (Inr su, files)"
    by (auto simp: proxy_setup_of_def cfg host_listen_def)
  have "px_ruleset_pubkey ?cfg = None" by (simp add: host_proxy_def)
  with hosts_decided_by_config_or_key [OF run cfg] have "\<forall>S answers. classifier_in_force host_listen S su ?cfg answers =
      classifier_from_config host_matching ?cfg" by (simp add: host_listen_def)
  with run show ?thesis by blast
qed

end
