(* ===== verification/Spec2Isabelle.thy ===== *)
theory Spec2Isabelle
  imports Gw_Claims Store_Claims Attach_Claims Mitm_Claims App_Claims Metrics_Claims Host_Claims
begin

text \<open>
  A verification development of ctxward, a privacy gateway for traffic to language models.

  \<^bold>\<open>The program.\<close> ctxward sits between a client and a model provider, as a reverse proxy
  (\<^verbatim>\<open>src/proxy.rs\<close>) or as a transparent one that terminates TLS (\<^verbatim>\<open>src/mitm/\<close>). It authenticates
  the caller, finds sensitive spans in the payload (regular expressions, high-entropy tokens,
  Presidio), resolves each finding to an action by the caller's clearance, combines the actions with
  OPA, with the correlation of the session and with review tickets, then forwards, redacts, holds
  or blocks the request, filters the response, buffered or streamed, and writes an audit record.

  \<^bold>\<open>The core\<close> (\<^verbatim>\<open>crates/ctxward-core\<close>), one theory per file or pair of files:
  \<^item> \<open>Core_Types\<close>, \<open>Core_Config\<close>: enumerations with their derived orders, every configuration
    record with its defaults, the baked-in host lists, \<open>AppConfig::load\<close>;
  \<^item> \<open>Core_Detect\<close>: the detector; findings lie in the text, the character loop finds the maximal runs,
    entropy is between 0 and 8 bits;
  \<^item> \<open>Core_Policy\<close>: authenticator and policy engine; the decision is the strictest action;
  \<^item> \<open>Core_Tokenize\<close>, \<open>Core_Redact\<close>: reversible tokens and masks; \<open>redact_text\<close> equals a left-to-right
    rendering of the kept spans, and panics exactly where a byte slice splits a character;
  \<^item> \<open>Core_Json\<close>, \<open>Core_Redact_Api\<close>: JSON values, pointers, the write-back of string nodes, the
    scrubber of the browser extension;
  \<^item> \<open>Core_Session\<close>: the session store as a transition system.

  \<^bold>\<open>The gateway\<close> (\<^verbatim>\<open>src/src\<close>):
  \<^item> \<open>Gw_Audit\<close>, \<open>Gw_Review\<close>: the audit ring, channel, writer and file; the review store with its
    event file, overrides and replay, both as transition systems with their invariants;
  \<^item> \<open>Gw_Upstreams\<close>: the OPA and Presidio clients, with character offsets turned into byte spans;
  \<^item> \<open>Gw_Multipart\<close>, \<open>Gw_Multipart_Loop\<close>, \<open>Gw_Attach\<close>: uploads: parsing, scanning, rewriting and rebuilding
    of text, OOXML and PDF parts; parsing inverts rebuilding; the cursor loop of the parser, with no bound
    on its rounds, always returns;
  \<^item> \<open>Gw_Pipeline\<close>: \<open>process_text\<close>, \<open>sanitize_json_value\<close>, \<open>process_payload\<close>, the OPA step, the response
    policy, one line of an event stream;
  \<^item> \<open>Gw_Sse\<close>, \<open>Gw_Telemetry\<close>, \<open>Gw_Handler\<close>: the stream loop, metrics, audit records and headers, and
    the whole of \<open>proxy_handler\<close> and \<open>handle_proxy\<close> with both response paths. The state is a record of
    the stores and of the requests sent so far; a handler returns it updated;
  \<^item> \<open>Gw_Masking\<close>: what the pipeline promises of a payload, without its algorithms (the original with
    flagged spans replaced by their masks, and for JSON the same shape), and that it keeps the promise;
  \<^item> \<open>Gw_Bench\<close>, \<open>Gw_App\<close>, \<open>Gw_Admin\<close>: benchmark summaries and baselines, the construction and the
    reload of the runtime, readiness, and the administration handlers;
  \<^item> \<open>Gw_Metrics\<close>, \<open>Gw_Serve\<close>: the metrics, their snapshot and the two endpoints that print them; the route
    table, and the running gateway as a transition system whose steps are the requests to every endpoint
    that changes the application, and the turns of the audit writer.

  \<^bold>\<open>The transparent proxy\<close>: \<open>Mitm_Classify\<close> (host patterns, the classifier and its floor of baked-in
  hosts, the pin cache, signed rule-sets, the polling loop) and \<open>Mitm_Handler\<close> (interception,
  requests, responses, streams, usage).

  \<^bold>\<open>The host\<close>: \<open>Host_Platform\<close> (the commands of \<^verbatim>\<open>platform.rs\<close> and the certificate authority over a file
  system with modes), \<open>Host_Serve\<close> (the command line, the dispatch on the mode, what \<open>run_proxy\<close> builds before
  it listens) and \<open>Host_Desktop\<close> (\<^verbatim>\<open>src/desktop/src-tauri\<close>: the shell's commands, the elevation batch with its
  quoting, the audit pump, and the shell as a transition system).

  \<^bold>\<open>Interfaces.\<close> \<open>Prelude\<close> has the result type of fallible Rust code (a value, an error or a panic),
  the insertion-ordered hash map with the locale \<open>rust_map\<close> of its laws, and \<open>transition_system\<close>, the
  locale of reachable invariants, interpreted for the sessions, the review store, the rule-set
  updates, the runtimes, the running gateway and the desktop shell. \<open>Rust_Str\<close> has UTF-8 strings as bytes. \<open>span_source\<close> is what the
  redactor needs of a scanner (spans in the text, one pointer), interpreted for the detector, for
  Presidio and for their combination; \<open>policy_stream\<close> is what the stream loop needs of a line
  function, interpreted for both proxies.

  \<^bold>\<open>Parameters.\<close> Code outside the repository is a record of functions that the definitions take:
  regular expressions, hashing, ciphers, JSON text, HTTP, OPA and Presidio replies, the zip, XML and
  PDF crates, signatures, clocks, UUIDs, files and the environment. What is relied on is a named
  predicate (\<open>regex_sound\<close>, \<open>crypto_sound\<close>, \<open>json_sound\<close>, \<open>event_sound\<close>, \<open>line_sound\<close>, \<open>hash_sound\<close>,
  \<open>registry_sound\<close>, \<open>json_strings_ok\<close>);
  \<open>Param_Instances\<close> and \<open>Gw_Demo\<close> have instances that satisfy them, on which the properties are applied.

  \<^bold>\<open>Choices.\<close> Strings are lists of bytes. \<open>f64\<close> is \<open>real\<close>. \<open>usize\<close> and \<open>u64\<close> are \<open>nat\<close>, with the
  conversion to \<open>i64\<close> written out where a time-to-live goes through it. A hash map is an association
  list with distinct keys; nothing observable depends on its order but what the code sorts. All
  functions are total but \<open>multipart_loop\<close>, a partial function that is proved to return; the loops have
  termination proofs, so no fuel is used. A panic is a value.
  A handler runs to its end: the interleaving of handlers is that of whole operations on the
  stores, each of which the code performs under a lock; the audit writer, the rule-set poller
  and the end of a timer are separate steps. A response stream is followed to its end.

  \<^bold>\<open>Properties.\<close> \<open>Core_Claims\<close>, \<open>Gw_Claims\<close>, \<open>Store_Claims\<close>, \<open>Attach_Claims\<close>, \<open>Mitm_Claims\<close>, \<open>App_Claims\<close>,
  \<open>Metrics_Claims\<close> and \<open>Host_Claims\<close> state them, each with an application at a concrete input: what is sent upstream and what the
  client receives, that the decision is never laxer than the findings unless a review ticket of
  the same request says so, that redaction covers the findings, that baked-in hosts stay
  intercepted whatever rule-sets arrive, that the audit ring and file refine their histories, that a
  review store that has evicted nothing survives a restart, that a runtime has what its rules need, that the administration
  interface is closed to others, that in every reachable state of the gateway the counters agree with the
  audit trail, that OPA is obeyed, that a shell reads the elevated script as the batch it was made from. What holds only
  in part says so where it is stated: the masking of a payload does not extend to multipart forms; uploads parse back
  unless a mask completes the boundary.
  The running gateway starts on any configuration that loads and any review event file in which tickets are created
  once, pending, and resolved while pending. Some lemmas show where the code does less than it means to: overlapping
  findings, labels with a colon, form fields, attachments with one name, a boundary completed by a mask, a resolution
  that cannot be written, an override lost by a restart after an eviction (\<open>restart_drops_override\<close>), a filtered audit
  query that misses records on file (\<open>audit_filter_after_cut\<close>), a pump that outlives its proxy.

  \<^bold>\<open>Not modelled.\<close> The matching of paths and the listeners (axum, hudsucker), whose errors are parameters;
  tracing; the clock of a timer (the duration it observes is any number, and its histogram has the child from
  then on, not from its start); the building of the window and the tray by Tauri, its delivery of events and the
  activation policy of macOS; the export of \<open>redact_json\<close> to wasm; the page of the console; the module lists of
  \<^verbatim>\<open>lib.rs\<close>. They are wiring to libraries. Deserialisation of configuration is the parser's; the defaults it
  fills in are modelled.
\<close>

end
